(* ===== verification/Prelude.thy ===== *)
theory Prelude
  imports
    Main
    "HOL-Library.Word"
    "HOL-Library.Multiset"
    "HOL-Library.List_Lexorder"
    "HOL-Library.Char_ord"
    "HOL-Library.Sublist"
begin

text \<open>
  The shared vocabulary of the development.

  \<^item> Rust values: \<open>string\<close> is a list of bytes (UTF-8), the fixed-width integers are
    words, an \<open>i64\<close> is a 64-bit word read with \<open>sint\<close>.
  \<^item> Results: \<open>('e, 'a) outcome\<close> is what a Rust computation can end with: a value
    (\<open>Ok\<close>), an error value (\<open>Err\<close>) or a panic (\<open>Panic\<close>, with its message).
  \<^item> Effects: \<open>('s, 'e, 'a) eff\<close> is a computation over a state \<open>'s\<close>; it returns an
    outcome together with the state reached, so the effects done before an early return, an
    error or a panic are kept. \<open>bind\<close> is sequencing with the \<open>?\<close> operator's early exit.
  \<^item> Generic string and list operations of the standard library that several components use.
\<close>

named_theorems eff_simps \<open>unfolding of the effect combinators\<close>
named_theorems wf_simps \<open>what the accessors return on well-formed values\<close>

type_synonym u16 = "16 word"
type_synonym u32 = "32 word"
type_synonym u64 = "64 word"
type_synonym i32 = "32 word"
type_synonym i64 = "64 word"
type_synonym f64 = "64 word" \<comment> \<open>the bit pattern; the arithmetic on it is a parameter\<close>


section \<open>Outcomes\<close>

datatype ('e, 'a) outcome = Ok 'a | Err 'e | Panic string

fun is_ok :: "('e, 'a) outcome \<Rightarrow> bool" where
  "is_ok (Ok a) = True"
| "is_ok (Err e) = False"
| "is_ok (Panic m) = False"

fun is_panic :: "('e, 'a) outcome \<Rightarrow> bool" where
  "is_panic (Ok a) = False"
| "is_panic (Err e) = False"
| "is_panic (Panic m) = True"

text \<open>\<open>Option::expect\<close>: the value, or a panic with the message.\<close>

fun expect :: "'a option \<Rightarrow> string \<Rightarrow> ('e, 'a) outcome" where
  "expect (Some a) msg = Ok a"
| "expect None msg = Panic msg"

fun obind :: "('e, 'a) outcome \<Rightarrow> ('a \<Rightarrow> ('e, 'b) outcome) \<Rightarrow> ('e, 'b) outcome" where
  "obind (Ok a) f = f a"
| "obind (Err e) f = Err e"
| "obind (Panic m) f = Panic m"

text \<open>\<open>Result::map_err\<close>.\<close>

fun map_err :: "('e \<Rightarrow> 'f) \<Rightarrow> ('e, 'a) outcome \<Rightarrow> ('f, 'a) outcome" where
  "map_err g (Ok a) = Ok a"
| "map_err g (Err e) = Err (g e)"
| "map_err g (Panic m) = Panic m"

lemma is_ok_iff: "is_ok r \<longleftrightarrow> (\<exists>a. r = Ok a)"
  by (cases r) auto

lemma obind_eq_Ok: "obind r f = Ok b \<longleftrightarrow> (\<exists>a. r = Ok a \<and> f a = Ok b)"
  by (cases r) auto

lemma expect_eq_Ok [simp]: "expect x m = Ok a \<longleftrightarrow> x = Some a"
  by (cases x) auto

lemma expect_not_Err [simp]: "expect x m \<noteq> Err e"
  by (cases x) auto


section \<open>Effects\<close>

type_synonym ('s, 'e, 'a) eff = "'s \<Rightarrow> ('e, 'a) outcome \<times> 's"

definition ret :: "'a \<Rightarrow> ('s, 'e, 'a) eff" where
  [eff_simps]: "ret a = (\<lambda>s. (Ok a, s))"

definition throw :: "'e \<Rightarrow> ('s, 'e, 'a) eff" where
  [eff_simps]: "throw e = (\<lambda>s. (Err e, s))"

definition panic :: "string \<Rightarrow> ('s, 'e, 'a) eff" where
  [eff_simps]: "panic m = (\<lambda>s. (Panic m, s))"

definition lift :: "('e, 'a) outcome \<Rightarrow> ('s, 'e, 'a) eff" where
  [eff_simps]: "lift r = (\<lambda>s. (r, s))"

definition update :: "('s \<Rightarrow> 's) \<Rightarrow> ('s, 'e, unit) eff" where
  [eff_simps]: "update f = (\<lambda>s. (Ok (), f s))"

definition gets :: "('s \<Rightarrow> 'a) \<Rightarrow> ('s, 'e, 'a) eff" where
  [eff_simps]: "gets f = (\<lambda>s. (Ok (f s), s))"

definition bind :: "('s, 'e, 'a) eff \<Rightarrow> ('a \<Rightarrow> ('s, 'e, 'b) eff) \<Rightarrow> ('s, 'e, 'b) eff" where
  "bind m f = (\<lambda>s. case m s of
       (Ok a, s') \<Rightarrow> f a s'
     | (Err e, s') \<Rightarrow> (Err e, s')
     | (Panic p, s') \<Rightarrow> (Panic p, s'))"

definition seq :: "('s, 'e, 'a) eff \<Rightarrow> ('s, 'e, 'b) eff \<Rightarrow> ('s, 'e, 'b) eff" where
  "seq m n = bind m (\<lambda>_. n)"

text \<open>A \<open>match\<close> on the result of a computation that may fail; a panic still unwinds.\<close>

definition catch ::
  "('s, 'e, 'a) eff \<Rightarrow> ('a \<Rightarrow> ('s, 'f, 'b) eff) \<Rightarrow> ('e \<Rightarrow> ('s, 'f, 'b) eff) \<Rightarrow> ('s, 'f, 'b) eff"
  where
  "catch m f h = (\<lambda>s. case m s of
       (Ok a, s') \<Rightarrow> f a s'
     | (Err e, s') \<Rightarrow> h e s'
     | (Panic p, s') \<Rightarrow> (Panic p, s'))"

text \<open>\<open>for x in xs { body }\<close> for a body without an early return.\<close>

fun for_each :: "('x \<Rightarrow> ('s, 'e, unit) eff) \<Rightarrow> 'x list \<Rightarrow> ('s, 'e, unit) eff" where
  "for_each f [] = ret ()"
| "for_each f (x # xs) = seq (f x) (for_each f xs)"

definition if_do :: "bool \<Rightarrow> ('s, 'e, unit) eff \<Rightarrow> ('s, 'e, unit) eff" where
  [eff_simps]: "if_do b m = (if b then m else ret ())"

lemma bind_Ok: "m s = (Ok a, s') \<Longrightarrow> bind m f s = f a s'"
  by (simp add: bind_def)

lemma bind_Err: "m s = (Err e, s') \<Longrightarrow> bind m f s = (Err e, s')"
  by (simp add: bind_def)

lemma bind_Panic: "m s = (Panic p, s') \<Longrightarrow> bind m f s = (Panic p, s')"
  by (simp add: bind_def)

lemma seq_Ok: "m s = (Ok a, s') \<Longrightarrow> seq m n s = n s'"
  by (simp add: seq_def bind_def)

lemma seq_Err: "m s = (Err e, s') \<Longrightarrow> seq m n s = (Err e, s')"
  by (simp add: seq_def bind_def)

lemma seq_Panic: "m s = (Panic p, s') \<Longrightarrow> seq m n s = (Panic p, s')"
  by (simp add: seq_def bind_def)

lemma bind_simps [simp]:
  "bind (ret a) f = f a"
  "bind (throw e) f = throw e"
  "bind (panic p) f = panic p"
  "bind (lift (Ok a)) f = f a"
  "bind (lift (Err e)) f = throw e"
  "bind (lift (Panic p)) f = panic p"
  by (simp_all add: bind_def ret_def throw_def panic_def lift_def)

lemma seq_simps [simp]:
  "seq (ret a) n = n"
  "seq (throw e) n = throw e"
  "seq (panic p) n = panic p"
  by (simp_all add: seq_def)

lemma bind_update [simp]: "bind (update f) g s = g () (f s)"
  by (simp add: bind_def update_def)

lemma seq_update [simp]: "seq (update f) n s = n (f s)"
  by (simp add: seq_def)

lemma bind_gets [simp]: "bind (gets f) g s = g (f s) s"
  by (simp add: bind_def gets_def)

lemma bind_assoc: "bind (bind m f) g = bind m (\<lambda>a. bind (f a) g)"
  by (rule ext) (simp add: bind_def split: prod.splits outcome.splits)

lemma seq_assoc: "seq (seq a b) c = seq a (seq b c)"
  by (simp add: seq_def bind_assoc)

lemma bind_ret [simp]: "bind m ret = m"
  by (rule ext) (simp add: bind_def ret_def split: prod.splits outcome.splits)

lemma run_basic [simp]:
  "ret a s = (Ok a, s)" "throw e s = (Err e, s)" "panic p s = (Panic p, s)"
  "lift r s = (r, s)" "update f s = (Ok (), f s)"
  by (simp_all add: eff_simps)

lemma bind_Pair [simp]:
  "bind (Pair (Ok a)) f = f a"
  "bind (Pair (Err e)) f = throw e"
  "bind (Pair (Panic p)) f = panic p"
  "seq (Pair (Ok a)) n = n"
  "seq (Pair (Err e)) n = throw e"
  "seq (Pair (Panic p)) n = panic p"
  by (auto simp: bind_def seq_def throw_def panic_def)

lemma bind_eq_Ok: "bind m f s = (Ok b, s'') \<longleftrightarrow> (\<exists>a s'. m s = (Ok a, s') \<and> f a s' = (Ok b, s''))"
  by (auto simp: bind_def split: prod.splits outcome.splits)

lemma seq_eq_Ok: "seq m n s = (Ok b, s'') \<longleftrightarrow> (\<exists>a s'. m s = (Ok a, s') \<and> n s' = (Ok b, s''))"
  by (simp add: seq_def bind_eq_Ok)

lemma catch_eq_Ok:
  "catch m f h s = (Ok b, s'') \<longleftrightarrow>
     (\<exists>a s'. m s = (Ok a, s') \<and> f a s' = (Ok b, s'')) \<or> (\<exists>e s'. m s = (Err e, s') \<and> h e s' = (Ok b, s''))"
  by (auto simp: catch_def split: prod.splits outcome.splits)

text \<open>
  \<open>keeps P m\<close>: from a state with \<open>P\<close>, the computation ends in a state with \<open>P\<close>, on every
  way out. Invariants of the long operations are proved by this rule, one combinator at a
  time.
\<close>

definition keeps :: "('s \<Rightarrow> bool) \<Rightarrow> ('s, 'e, 'a) eff \<Rightarrow> bool" where
  "keeps P m \<longleftrightarrow> (\<forall>s. P s \<longrightarrow> P (snd (m s)))"

named_theorems keeps_intros \<open>introduction rules for invariants of effects\<close>

lemma keepsD: "keeps P m \<Longrightarrow> P s \<Longrightarrow> m s = (r, s') \<Longrightarrow> P s'"
  by (metis keeps_def snd_conv)

lemma keeps_ret [keeps_intros]: "keeps P (ret a)"
  by (simp add: keeps_def)

lemma keeps_Pair [keeps_intros]: "keeps P (Pair r)"
  by (simp add: keeps_def)

lemma keeps_throw [keeps_intros]: "keeps P (throw e)"
  by (simp add: keeps_def)

lemma keeps_panic [keeps_intros]: "keeps P (panic p)"
  by (simp add: keeps_def)

lemma keeps_lift [keeps_intros]: "keeps P (lift r)"
  by (simp add: keeps_def)

lemma keeps_gets [keeps_intros]: "keeps P (gets f)"
  by (simp add: keeps_def gets_def)

lemma keeps_update: "(\<And>s. P s \<Longrightarrow> P (f s)) \<Longrightarrow> keeps P (update f)"
  by (simp add: keeps_def)

lemma keeps_bind [keeps_intros]:
  "keeps P m \<Longrightarrow> (\<And>a. keeps P (f a)) \<Longrightarrow> keeps P (bind m f)"
  by (auto simp: keeps_def bind_def split: prod.splits outcome.splits)

lemma keeps_seq [keeps_intros]: "keeps P m \<Longrightarrow> keeps P n \<Longrightarrow> keeps P (seq m n)"
  by (simp add: seq_def keeps_bind)

lemma keeps_catch [keeps_intros]:
  "keeps P m \<Longrightarrow> (\<And>a. keeps P (f a)) \<Longrightarrow> (\<And>e. keeps P (h e)) \<Longrightarrow> keeps P (catch m f h)"
  by (auto simp: keeps_def catch_def split: prod.splits outcome.splits)

lemma keeps_if_do [keeps_intros]: "keeps P m \<Longrightarrow> keeps P (if_do b m)"
  by (simp add: if_do_def keeps_ret)

lemma keeps_if [keeps_intros]: "keeps P m \<Longrightarrow> keeps P n \<Longrightarrow> keeps P (if b then m else n)"
  by simp

lemma keeps_for_each [keeps_intros]: "(\<And>x. keeps P (f x)) \<Longrightarrow> keeps P (for_each f xs)"
  by (induction xs) (auto intro: keeps_intros)


section \<open>Strings\<close>

definition starts_with :: "string \<Rightarrow> string \<Rightarrow> bool" where
  "starts_with s p \<longleftrightarrow> take (length p) s = p"

definition ends_with :: "string \<Rightarrow> string \<Rightarrow> bool" where
  "ends_with s p \<longleftrightarrow> length p \<le> length s \<and> drop (length s - length p) s = p"

text \<open>\<open>str::find\<close> of a one-byte character: the index of its first occurrence.\<close>

fun find_char :: "char \<Rightarrow> string \<Rightarrow> nat option" where
  "find_char c [] = None"
| "find_char c (x # xs) = (if x = c then Some 0 else map_option Suc (find_char c xs))"

fun join :: "string \<Rightarrow> string list \<Rightarrow> string" where
  "join sep [] = []"
| "join sep [x] = x"
| "join sep (x # y # xs) = x @ sep @ join sep (y # xs)"

text \<open>The decimal numeral of a number, as \<open>Display\<close> prints an unsigned integer.\<close>

fun show_nat :: "nat \<Rightarrow> string" where
  "show_nat n = (if n < 10 then [char_of (48 + n)]
                 else show_nat (n div 10) @ [char_of (48 + n mod 10)])"

declare show_nat.simps [simp del]

definition show_word :: "'a::len word \<Rightarrow> string" where
  "show_word w = show_nat (unat w)"

text \<open>
  A byte index is a character boundary of a UTF-8 string when it is an end of the string or
  the byte there is not a continuation byte (\<open>0b10xxxxxx\<close>). Slicing a \<open>str\<close> elsewhere panics.
\<close>

definition is_char_boundary :: "string \<Rightarrow> nat \<Rightarrow> bool" where
  "is_char_boundary s i \<longleftrightarrow> i = 0 \<or> i = length s \<or>
     (i < length s \<and> \<not> (128 \<le> (of_char (s ! i) :: nat) \<and> (of_char (s ! i) :: nat) < 192))"

definition slice_to :: "string \<Rightarrow> nat \<Rightarrow> ('e, string) outcome" where
  "slice_to s i = (if is_char_boundary s i then Ok (take i s)
                   else Panic ''byte index is not a char boundary'')"

definition slice_from :: "string \<Rightarrow> nat \<Rightarrow> ('e, string) outcome" where
  "slice_from s i = (if is_char_boundary s i then Ok (drop i s)
                     else Panic ''byte index is not a char boundary'')"

lemma starts_with_iff: "starts_with s p \<longleftrightarrow> (\<exists>r. s = p @ r)"
  by (auto simp: starts_with_def) (metis append_take_drop_id)

lemma ends_with_iff: "ends_with s p \<longleftrightarrow> (\<exists>r. s = r @ p)"
proof
  assume "ends_with s p"
  then have "s = take (length s - length p) s @ p"
    by (metis append_take_drop_id ends_with_def)
  then show "\<exists>r. s = r @ p" by blast
qed (auto simp: ends_with_def)

lemma find_char_None: "find_char c s = None \<longleftrightarrow> c \<notin> set s"
  by (induction s) auto

lemma find_char_SomeD:
  "find_char c s = Some i \<Longrightarrow>
     i < length s \<and> s = take i s @ c # drop (Suc i) s \<and> c \<notin> set (take i s)"
proof (induction s arbitrary: i)
  case (Cons x xs)
  then show ?case by (cases "x = c") auto
qed simp

lemma find_char_append: "c \<notin> set xs \<Longrightarrow> find_char c (xs @ c # ys) = Some (length xs)"
  by (induction xs) auto


section \<open>Lists\<close>

text \<open>\<open>slice::chunks\<close>; which panics on a zero size; its caller checks that first.\<close>

function chunks :: "nat \<Rightarrow> 'a list \<Rightarrow> 'a list list" where
  "chunks n xs = (if n = 0 \<or> xs = [] then [] else take n xs # chunks n (drop n xs))"
  by pat_completeness auto
termination
  by (relation "measure (\<lambda>(n, xs). length xs)") auto

declare chunks.simps [simp del]

lemma chunks_Nil [simp]: "chunks n [] = []"
  by (simp add: chunks.simps)

lemma concat_chunks: "0 < n \<Longrightarrow> concat (chunks n xs) = xs"
proof (induction n xs rule: chunks.induct)
  case (1 n xs)
  then show ?case by (cases "xs = []") (simp_all add: chunks.simps [of n xs])
qed

lemma chunks_bound: "c \<in> set (chunks n xs) \<Longrightarrow> c \<noteq> [] \<and> length c \<le> n"
proof (induction n xs rule: chunks.induct)
  case (1 n xs)
  show ?case
  proof (cases "n = 0 \<or> xs = []")
    case True
    with "1.prems" show ?thesis by (simp add: chunks.simps [of n xs])
  next
    case False
    then have "c = take n xs \<or> c \<in> set (chunks n (drop n xs))"
      using "1.prems" by (simp add: chunks.simps [of n xs])
    with False "1.IH" show ?thesis by auto
  qed
qed

lemma length_filter_le_Suc: "length (filter P xs) \<le> length xs"
  by simp

text \<open>
  A lookup table collected from a list of pairs: a later pair with the same key replaces an
  earlier one, as \<open>HashMap::from_iter\<close> does.
\<close>

definition collect_map :: "('k \<times> 'v) list \<Rightarrow> ('k \<rightharpoonup> 'v)" where
  "collect_map kvs = map_of (rev kvs)"

lemma collect_map_SomeD: "collect_map kvs k = Some v \<Longrightarrow> (k, v) \<in> set kvs"
  by (auto simp: collect_map_def dest: map_of_SomeD)

lemma collect_map_None: "collect_map kvs k = None \<longleftrightarrow> k \<notin> fst ` set kvs"
  by (simp add: collect_map_def map_of_eq_None_iff)

lemma collect_map_distinct:
  "distinct (map fst kvs) \<Longrightarrow> (k, v) \<in> set kvs \<Longrightarrow> collect_map kvs k = Some v"
  by (simp add: collect_map_def map_of_eq_Some_iff rev_map [symmetric])

end
