(* ===== verification/Errors.thy ===== *)
theory Errors
  imports Prelude
begin

text \<open>
  The error values of the program (\<open>src/types/error.rs\<close>), and the dynamic error type
  \<open>anyhow::Error\<close> that carries them: an application error, an AWS SDK error, a plain message,
  or any of these with context messages around it. Contexts are transparent for downcasts.
\<close>

section \<open>Application errors\<close>

datatype s3rm_error =
    AwsSdk string
  | InvalidConfig string
  | InvalidUri string
  | InvalidRegex string
  | LuaScript string
  | Io string
  | Cancelled
  | PartialFailure u64 u64
  | Pipeline string

fun s3rm_error_display :: "s3rm_error \<Rightarrow> string" where
  "s3rm_error_display (AwsSdk m) = ''AWS SDK error: '' @ m"
| "s3rm_error_display (InvalidConfig m) = ''Invalid configuration: '' @ m"
| "s3rm_error_display (InvalidUri m) = ''Invalid S3 URI: '' @ m"
| "s3rm_error_display (InvalidRegex m) = ''Invalid regex pattern: '' @ m"
| "s3rm_error_display (LuaScript m) = ''Lua script error: '' @ m"
| "s3rm_error_display (Io m) = ''I/O error: '' @ m"
| "s3rm_error_display Cancelled = ''Operation cancelled by user''"
| "s3rm_error_display (PartialFailure d f) =
     ''Partial failure: '' @ show_word d @ '' deleted, '' @ show_word f @ '' failed''"
| "s3rm_error_display (Pipeline m) = ''Pipeline error: '' @ m"

fun exit_code :: "s3rm_error \<Rightarrow> int" where
  "exit_code Cancelled = 0"
| "exit_code (InvalidConfig _) = 2"
| "exit_code (InvalidUri _) = 2"
| "exit_code (InvalidRegex _) = 2"
| "exit_code (PartialFailure _ _) = 3"
| "exit_code _ = 1"

fun is_retryable :: "s3rm_error \<Rightarrow> bool" where
  "is_retryable (AwsSdk _) = True"
| "is_retryable _ = False"


section \<open>SDK errors and the dynamic error type\<close>

datatype sdk_op =
    HeadObjectOp | GetObjectTaggingOp | DeleteObjectOp | DeleteObjectsOp
  | ListObjectsV2Op | ListObjectVersionsOp | GetBucketVersioningOp

text \<open>
  What the program reads of an SDK error: the operation whose error type it has, whether it is
  a service response (with its error variant, code, message and HTTP status), and the text
  \<open>Display\<close> prints for it.
\<close>

record service_error =
  se_not_found_variant :: bool
  se_code :: "string option"
  se_message :: "string option"
  se_status :: nat

datatype sdk_error =
    ServiceError (sdk_op: sdk_op) (sdk_service: service_error) (sdk_display: string)
  | TransportError (sdk_op: sdk_op) (sdk_display: string)

datatype anyhow =
    App s3rm_error
  | Sdk sdk_error
  | Message string
  | Context string anyhow

text \<open>\<open>{}\<close> prints the outermost message, \<open>{:#}\<close> the whole chain.\<close>

fun anyhow_display :: "anyhow \<Rightarrow> string" where
  "anyhow_display (App e) = s3rm_error_display e"
| "anyhow_display (Sdk e) = sdk_display e"
| "anyhow_display (Message m) = m"
| "anyhow_display (Context c e) = c"

fun anyhow_display_alt :: "anyhow \<Rightarrow> string" where
  "anyhow_display_alt (Context c e) = c @ '': '' @ anyhow_display_alt e"
| "anyhow_display_alt e = anyhow_display e"

fun downcast_s3rm :: "anyhow \<Rightarrow> s3rm_error option" where
  "downcast_s3rm (App e) = Some e"
| "downcast_s3rm (Context c e) = downcast_s3rm e"
| "downcast_s3rm (Sdk e) = None"
| "downcast_s3rm (Message m) = None"

fun downcast_sdk :: "anyhow \<Rightarrow> sdk_error option" where
  "downcast_sdk (Sdk e) = Some e"
| "downcast_sdk (Context c e) = downcast_sdk e"
| "downcast_sdk (App e) = None"
| "downcast_sdk (Message m) = None"

definition is_cancelled_error :: "anyhow \<Rightarrow> bool" where
  "is_cancelled_error e = (case downcast_s3rm e of Some err \<Rightarrow> err = Cancelled | None \<Rightarrow> False)"

definition exit_code_from_error :: "anyhow \<Rightarrow> int" where
  "exit_code_from_error e = (case downcast_s3rm e of Some err \<Rightarrow> exit_code err | None \<Rightarrow> 1)"

lemma exit_code_range: "exit_code e \<in> {0, 1, 2, 3}"
  by (cases e) auto

lemma exit_code_0_iff: "exit_code e = 0 \<longleftrightarrow> e = Cancelled"
  by (cases e) auto

lemma exit_code_from_error_range: "exit_code_from_error e \<in> {0, 1, 2, 3}"
  using exit_code_range by (auto simp: exit_code_from_error_def split: option.splits)

lemma exit_code_from_error_nonneg: "0 \<le> exit_code_from_error e"
  using exit_code_from_error_range [of e] by auto

text \<open>
  The two questions the binary asks of an error agree: an error is a cancellation exactly when
  its exit code is 0, whatever context was wrapped around it.
\<close>

lemma is_cancelled_iff_exit_0: "is_cancelled_error e \<longleftrightarrow> exit_code_from_error e = 0"
  by (auto simp: is_cancelled_error_def exit_code_from_error_def exit_code_0_iff
      split: option.splits)

lemma is_cancelled_context [simp]: "is_cancelled_error (Context c e) = is_cancelled_error e"
  by (simp add: is_cancelled_error_def)


section \<open>Computations of the program\<close>

text \<open>Every fallible function of the program returns \<open>anyhow::Result\<close>.\<close>

type_synonym ('s, 'a) prog = "('s, anyhow, 'a) eff"
type_synonym 'a result = "(anyhow, 'a) outcome"

definition with_context :: "string \<Rightarrow> ('s, 'a) prog \<Rightarrow> ('s, 'a) prog" where
  "with_context c m = (\<lambda>s. case m s of (r, s') \<Rightarrow> (map_err (Context c) r, s'))"

lemma keeps_with_context [keeps_intros]: "keeps P m \<Longrightarrow> keeps P (with_context c m)"
  by (auto simp: keeps_def with_context_def split: prod.splits)

end
