(* ===== verification/Types.thy ===== *)
theory Types
  imports Errors
begin

text \<open>
  The data of the pipeline (\<open>src/types/mod.rs\<close>): listed objects, statistics, outcomes and
  events, the target URI and the credentials. The AWS SDK structs wrapped by \<open>S3Object\<close> keep
  their optional fields, so the \<open>expect\<close> calls of the accessors are panics of the model.
\<close>

section \<open>Listed objects\<close>

text \<open>A smithy \<open>DateTime\<close>: seconds since the epoch and a fraction in nanoseconds.\<close>

datatype datetime = DateTime (dt_secs: int) (dt_nanos: nat)

record aws_object =
  ob_key :: "string option"
  ob_size :: "i64 option"
  ob_last_modified :: "datetime option"
  ob_e_tag :: "string option"

record aws_version =
  ov_key :: "string option"
  ov_version_id :: "string option"
  ov_is_latest :: "bool option"
  ov_size :: "i64 option"
  ov_last_modified :: "datetime option"
  ov_e_tag :: "string option"

record aws_marker =
  dm_key :: "string option"
  dm_version_id :: "string option"
  dm_is_latest :: "bool option"
  dm_last_modified :: "datetime option"

datatype s3_object =
    NotVersioning aws_object
  | Versioning aws_version
  | DeleteMarker aws_marker

definition s3_object_new :: "string \<Rightarrow> i64 \<Rightarrow> s3_object" where
  "s3_object_new key sz = NotVersioning
     \<lparr> ob_key = Some key, ob_size = Some sz, ob_last_modified = Some (DateTime 0 0),
       ob_e_tag = None \<rparr>"

definition s3_object_new_versioned :: "string \<Rightarrow> string \<Rightarrow> i64 \<Rightarrow> s3_object" where
  "s3_object_new_versioned key vid sz = Versioning
     \<lparr> ov_key = Some key, ov_version_id = Some vid, ov_is_latest = Some True,
       ov_size = Some sz, ov_last_modified = Some (DateTime 0 0), ov_e_tag = None \<rparr>"

fun s3_key :: "s3_object \<Rightarrow> string result" where
  "s3_key (Versioning v) = expect (ov_key v) ''S3 ObjectVersion missing key''"
| "s3_key (NotVersioning b) = expect (ob_key b) ''S3 Object missing key''"
| "s3_key (DeleteMarker m) = expect (dm_key m) ''S3 DeleteMarker missing key''"

fun s3_last_modified :: "s3_object \<Rightarrow> datetime result" where
  "s3_last_modified (Versioning v) =
     expect (ov_last_modified v) ''S3 ObjectVersion missing last_modified''"
| "s3_last_modified (NotVersioning b) =
     expect (ob_last_modified b) ''S3 Object missing last_modified''"
| "s3_last_modified (DeleteMarker m) =
     expect (dm_last_modified m) ''S3 DeleteMarker missing last_modified''"

fun s3_size :: "s3_object \<Rightarrow> i64 result" where
  "s3_size (Versioning v) = expect (ov_size v) ''S3 ObjectVersion missing size''"
| "s3_size (NotVersioning b) = expect (ob_size b) ''S3 Object missing size''"
| "s3_size (DeleteMarker m) = Ok 0"

fun s3_version_id :: "s3_object \<Rightarrow> string option" where
  "s3_version_id (Versioning v) = ov_version_id v"
| "s3_version_id (NotVersioning b) = None"
| "s3_version_id (DeleteMarker m) = dm_version_id m"

fun s3_e_tag :: "s3_object \<Rightarrow> string option" where
  "s3_e_tag (Versioning v) = ov_e_tag v"
| "s3_e_tag (NotVersioning b) = ob_e_tag b"
| "s3_e_tag (DeleteMarker m) = None"

definition unwrap_or :: "'a option \<Rightarrow> 'a \<Rightarrow> 'a" where
  "unwrap_or x d = (case x of Some a \<Rightarrow> a | None \<Rightarrow> d)"

fun s3_is_latest :: "s3_object \<Rightarrow> bool" where
  "s3_is_latest (Versioning v) = unwrap_or (ov_is_latest v) True"
| "s3_is_latest (NotVersioning b) = True"
| "s3_is_latest (DeleteMarker m) = unwrap_or (dm_is_latest m) True"

fun s3_is_delete_marker :: "s3_object \<Rightarrow> bool" where
  "s3_is_delete_marker (DeleteMarker m) = True"
| "s3_is_delete_marker _ = False"

type_synonym object_key_map = "string \<rightharpoonup> s3_object"

text \<open>
  An object as S3 lists it: the fields the accessors \<open>expect\<close> are there. The raw field
  values of such an object:
\<close>

definition wf_object :: "s3_object \<Rightarrow> bool" where
  "wf_object x \<longleftrightarrow> is_ok (s3_key x) \<and> is_ok (s3_last_modified x) \<and> is_ok (s3_size x)"

fun the_ok :: "'a \<Rightarrow> ('e, 'a) outcome \<Rightarrow> 'a" where
  "the_ok d (Ok a) = a"
| "the_ok d (Err e) = d"
| "the_ok d (Panic m) = d"

definition key_of :: "s3_object \<Rightarrow> string" where
  "key_of x = the_ok [] (s3_key x)"

definition size_of :: "s3_object \<Rightarrow> i64" where
  "size_of x = the_ok 0 (s3_size x)"

definition mtime_of :: "s3_object \<Rightarrow> datetime" where
  "mtime_of x = the_ok (DateTime 0 0) (s3_last_modified x)"

lemma wf_s3_key [wf_simps]: "wf_object x \<Longrightarrow> s3_key x = Ok (key_of x)"
  by (auto simp: wf_object_def is_ok_iff key_of_def)

lemma wf_s3_size [wf_simps]: "wf_object x \<Longrightarrow> s3_size x = Ok (size_of x)"
  by (auto simp: wf_object_def is_ok_iff size_of_def)

lemma wf_s3_last_modified [wf_simps]: "wf_object x \<Longrightarrow> s3_last_modified x = Ok (mtime_of x)"
  by (auto simp: wf_object_def is_ok_iff mtime_of_def)

lemma key_of_ok: "s3_key x = Ok k \<Longrightarrow> key_of x = k"
  by (simp add: key_of_def)

lemma s3_key_not_Err [simp]: "s3_key x \<noteq> Err e"
  by (cases x) auto

lemma s3_size_not_Err [simp]: "s3_size x \<noteq> Err e"
  by (cases x) auto

lemma s3_last_modified_not_Err [simp]: "s3_last_modified x \<noteq> Err e"
  by (cases x) auto

lemma wf_s3_object_new [simp]: "wf_object (s3_object_new k n)"
  by (simp add: wf_object_def s3_object_new_def)

lemma wf_s3_object_new_versioned [simp]: "wf_object (s3_object_new_versioned k v n)"
  by (simp add: wf_object_def s3_object_new_versioned_def)

lemma s3_object_new_fields [simp]:
  "s3_key (s3_object_new k n) = Ok k" "s3_size (s3_object_new k n) = Ok n"
  "s3_version_id (s3_object_new k n) = None" "s3_e_tag (s3_object_new k n) = None"
  "s3_is_latest (s3_object_new k n)" "\<not> s3_is_delete_marker (s3_object_new k n)"
  "s3_last_modified (s3_object_new k n) = Ok (DateTime 0 0)"
  "key_of (s3_object_new k n) = k" "size_of (s3_object_new k n) = n"
  "mtime_of (s3_object_new k n) = DateTime 0 0"
  by (simp_all add: s3_object_new_def key_of_def size_of_def mtime_of_def)

lemma delete_marker_size [simp]: "s3_is_delete_marker x \<Longrightarrow> s3_size x = Ok 0"
  by (cases x) auto

text \<open>The identity of an object in a batch: its key and version id.\<close>

abbreviation ident_of :: "s3_object \<Rightarrow> string \<times> string option" where
  "ident_of x \<equiv> (key_of x, s3_version_id x)"


section \<open>Statistics\<close>

datatype deletion_statistics =
    DeleteBytes u64
  | DeleteComplete string
  | DeleteSkip string
  | DeleteError string

record stats_report =
  sr_deleted_objects :: u64
  sr_deleted_bytes :: u64
  sr_failed_objects :: u64

definition stats_report_new :: stats_report where
  "stats_report_new = \<lparr> sr_deleted_objects = 0, sr_deleted_bytes = 0, sr_failed_objects = 0 \<rparr>"

definition increment_deleted :: "u64 \<Rightarrow> stats_report \<Rightarrow> stats_report" where
  "increment_deleted bytes r =
     r\<lparr> sr_deleted_objects := sr_deleted_objects r + 1,
        sr_deleted_bytes := sr_deleted_bytes r + bytes \<rparr>"

definition increment_failed :: "stats_report \<Rightarrow> stats_report" where
  "increment_failed r = r\<lparr> sr_failed_objects := sr_failed_objects r + 1 \<rparr>"

record deletion_stats =
  ds_deleted_objects :: u64
  ds_deleted_bytes :: u64
  ds_failed_objects :: u64
  ds_duration_nanos :: nat

definition snapshot :: "stats_report \<Rightarrow> deletion_stats" where
  "snapshot r =
     \<lparr> ds_deleted_objects = sr_deleted_objects r, ds_deleted_bytes = sr_deleted_bytes r,
       ds_failed_objects = sr_failed_objects r, ds_duration_nanos = 0 \<rparr>"


section \<open>Outcomes and events of single deletions\<close>

datatype deletion_error =
    NotFound
  | AccessDenied
  | PreconditionFailed
  | Throttled
  | NetworkError string
  | ServiceFailure string

fun deletion_error_is_retryable :: "deletion_error \<Rightarrow> bool" where
  "deletion_error_is_retryable Throttled = True"
| "deletion_error_is_retryable (NetworkError _) = True"
| "deletion_error_is_retryable (ServiceFailure _) = True"
| "deletion_error_is_retryable _ = False"

fun deletion_error_display :: "deletion_error \<Rightarrow> string" where
  "deletion_error_display NotFound = ''Object not found''"
| "deletion_error_display AccessDenied = ''Access denied''"
| "deletion_error_display PreconditionFailed = ''Precondition failed (ETag mismatch)''"
| "deletion_error_display Throttled = ''Request throttled''"
| "deletion_error_display (NetworkError msg) = ''Network error: '' @ msg"
| "deletion_error_display (ServiceFailure msg) = ''Service error: '' @ msg"

datatype deletion_outcome =
    Success string "string option"
  | Failed string "string option" deletion_error u32

fun outcome_is_success :: "deletion_outcome \<Rightarrow> bool" where
  "outcome_is_success (Success k v) = True"
| "outcome_is_success (Failed k v e n) = False"

fun outcome_key :: "deletion_outcome \<Rightarrow> string" where
  "outcome_key (Success k v) = k"
| "outcome_key (Failed k v e n) = k"

fun outcome_version_id :: "deletion_outcome \<Rightarrow> string option" where
  "outcome_version_id (Success k v) = v"
| "outcome_version_id (Failed k v e n) = v"

datatype deletion_event =
    PipelineStart
  | ObjectDeleted string "string option" u64
  | ObjectFailed string "string option" deletion_error
  | PipelineEnd
  | PipelineError string


section \<open>The target URI\<close>

record s3_target =
  bucket :: string
  prefix :: "string option"
  endpoint :: "string option"
  region :: "string option"

abbreviation s3_scheme :: string where
  "s3_scheme \<equiv> ''s3://''"

abbreviation slash :: char where
  "slash \<equiv> CHR ''/''"

definition s3_target_parse :: "string \<Rightarrow> s3_target result" where
  "s3_target_parse s3_uri =
     (if \<not> starts_with s3_uri s3_scheme then
        Err (App (InvalidUri (''Target URI must start with 's3://': '' @ s3_uri)))
      else
        let without_scheme = drop 5 s3_uri in
        if without_scheme = [] then
          Err (App (InvalidUri (''Bucket name cannot be empty: '' @ s3_uri)))
        else
          let (b, p) = (case find_char slash without_scheme of
              Some idx \<Rightarrow>
                (take idx without_scheme,
                 let p = drop (Suc idx) without_scheme in if p = [] then None else Some p)
            | None \<Rightarrow> (without_scheme, None)) in
          if b = [] then
            Err (App (InvalidUri (''Bucket name cannot be empty: '' @ s3_uri)))
          else
            Ok \<lparr> bucket = b, prefix = p, endpoint = None, region = None \<rparr>)"

definition s3_target_display :: "s3_target \<Rightarrow> string" where
  "s3_target_display t = (case prefix t of
       Some p \<Rightarrow> s3_scheme @ bucket t @ slash # p
     | None \<Rightarrow> s3_scheme @ bucket t)"

datatype storage_path = S3 (sp_bucket: string) (sp_prefix: string)


section \<open>Credentials\<close>

record access_keys =
  access_key :: string
  secret_access_key :: string
  session_token :: "string option"

record client_config_location =
  aws_config_file :: "string option"
  aws_shared_credentials_file :: "string option"

datatype s3_credentials =
    Profile string
  | Credentials access_keys
  | FromEnvironment

definition mask_access_key :: "string \<Rightarrow> string result" where
  "mask_access_key key =
     (let prefix_len = 4; suffix_len = 4 in
      if length key < prefix_len + suffix_len + 1 then Ok (replicate (length key) CHR ''*'')
      else
        let masked_len = length key - prefix_len - suffix_len in
        obind (slice_to key prefix_len) (\<lambda>front.
        obind (slice_from key (length key - suffix_len)) (\<lambda>back.
        Ok (front @ replicate masked_len CHR ''*'' @ back))))"

text \<open>
  The \<open>Debug\<close> output of the keys, as the name and value pairs handed to \<open>debug_struct\<close>.
\<close>

definition access_keys_debug :: "access_keys \<Rightarrow> (string \<times> string) list result" where
  "access_keys_debug k =
     (let token = (case session_token k of None \<Rightarrow> ''None'' | Some _ \<Rightarrow> ''** redacted **'') in
      obind (mask_access_key (access_key k)) (\<lambda>masked.
      Ok [(''access_key'', masked), (''secret_access_key'', ''** redacted **''),
          (''session_token'', token)]))"


section \<open>Properties\<close>

lemma s3_target_display_parts:
  "s3_target_display t = s3_scheme @ bucket t @ (case prefix t of Some p \<Rightarrow> slash # p | None \<Rightarrow> [])"
  by (simp add: s3_target_display_def split: option.splits)

lemma starts_with_scheme [simp]: "starts_with (CHR ''s'' # CHR ''3'' # CHR '':'' # slash # slash # r) s3_scheme"
  by (simp add: starts_with_def)

text \<open>
  C39: printing a target and parsing it back gives the same target, for every target the parser
  can produce: a non-empty bucket without a slash, no empty prefix, and the endpoint and region
  left unset.
\<close>

theorem s3_target_roundtrip:
  assumes "bucket t \<noteq> []" and "slash \<notin> set (bucket t)" and "prefix t \<noteq> Some []"
    and "endpoint t = None" and "region t = None"
  shows "s3_target_parse (s3_target_display t) = Ok t"
proof (cases "prefix t")
  case None
  with assms have "find_char slash (bucket t) = None" by (simp add: find_char_None)
  with None assms show ?thesis
    by (simp add: s3_target_parse_def s3_target_display_def Let_def)
next
  case (Some p)
  with assms have "find_char slash (bucket t @ slash # p) = Some (length (bucket t))"
    by (simp add: find_char_append)
  with Some assms show ?thesis
    by (simp add: s3_target_parse_def s3_target_display_def Let_def)
qed

theorem s3_target_roundtrip_witness:
  "s3_target_parse (s3_target_display
     \<lparr> bucket = ''logs'', prefix = Some ''a/b'', endpoint = None, region = None \<rparr>)
   = Ok \<lparr> bucket = ''logs'', prefix = Some ''a/b'', endpoint = None, region = None \<rparr>"
  by (rule s3_target_roundtrip) simp_all

text \<open>
  What \<open>S3Target::parse\<close> accepts. It succeeds exactly on the URIs that are the scheme, a
  non-empty bucket name without a slash, and nothing or a slash and the rest; the parts of the
  result are the bucket and the rest, an empty rest giving no prefix. Nothing panics, and every
  failure is the invalid-URI error (exit code 2).
\<close>

theorem s3_target_parse_sound:
  "(case s3_target_parse u of
      Ok t \<Rightarrow> bucket t \<noteq> [] \<and> slash \<notin> set (bucket t) \<and> prefix t \<noteq> Some []
        \<and> endpoint t = None \<and> region t = None
        \<and> (u = s3_target_display t \<or> (prefix t = None \<and> u = s3_target_display t @ [slash]))
    | Err e \<Rightarrow> exit_code_from_error e = 2
        \<and> \<not> (\<exists>b r. u = s3_scheme @ b @ r \<and> b \<noteq> [] \<and> slash \<notin> set b \<and> (r = [] \<or> hd r = slash))
    | Panic m \<Rightarrow> False)"
proof (cases "starts_with u s3_scheme")
  case False
  then show ?thesis
    by (auto simp: s3_target_parse_def exit_code_from_error_def starts_with_def)
next
  case True
  then obtain w where u: "u = s3_scheme @ w" by (auto simp: starts_with_iff)
  show ?thesis
  proof (cases "find_char slash w")
    case None
    then have "slash \<notin> set w" by (simp add: find_char_None)
    with None u show ?thesis
      by (auto simp: s3_target_parse_def exit_code_from_error_def s3_target_display_def)
  next
    case (Some i)
    then have w: "i < length w" "w = take i w @ slash # drop (Suc i) w" "slash \<notin> set (take i w)"
      using find_char_SomeD [OF Some] by auto
    show ?thesis
    proof (cases "i = 0")
      case True
      with w have "w = slash # drop 1 w" by simp
      then obtain z where z: "w = slash # z" by blast
      have "\<not> (\<exists>b r. w = b @ r \<and> b \<noteq> [] \<and> slash \<notin> set b \<and> (r = [] \<or> hd r = slash))"
        using z by (auto simp: Cons_eq_append_conv)
      with True Some u show ?thesis
        by (auto simp: s3_target_parse_def exit_code_from_error_def Let_def)
    next
      case False
      with w have ne: "take i w \<noteq> []" "w \<noteq> []" by auto
      with Some u w show ?thesis
        by (auto simp: s3_target_parse_def s3_target_display_def Let_def)
    qed
  qed
qed

lemma slice_Ok_iff:
  "slice_to s i = Ok t \<longleftrightarrow> is_char_boundary s i \<and> t = take i s"
  "slice_from s i = Ok t \<longleftrightarrow> is_char_boundary s i \<and> t = drop i s"
  by (auto simp: slice_to_def slice_from_def)

text \<open>
  Masking an access key. The masked text has the key's length and shows at most its first
  and last four bytes, every other byte is a star; keys shorter than nine bytes show nothing.
  The function returns except when byte 4 or the fourth byte from the end of a longer key is
  inside a multi-byte character, where the slice panics.
\<close>

theorem mask_access_key_spec:
  "mask_access_key key =
     (if length key < 9 then Ok (replicate (length key) CHR ''*'')
      else if is_char_boundary key 4 \<and> is_char_boundary key (length key - 4)
      then Ok (map (\<lambda>i. if i < 4 \<or> length key - 4 \<le> i then key ! i else CHR ''*'') [0..<length key])
      else Panic ''byte index is not a char boundary'')"
proof (cases "length key < 9")
  case True
  then show ?thesis by (simp add: mask_access_key_def)
next
  case False
  have "take 4 key @ replicate (length key - 8) CHR ''*'' @ drop (length key - 4) key
      = map (\<lambda>i. if i < 4 \<or> length key - 4 \<le> i then key ! i else CHR ''*'') [0..<length key]"
    using False by (intro nth_equalityI) (auto simp: nth_append)
  with False show ?thesis
    by (auto simp: mask_access_key_def slice_to_def slice_from_def Let_def)
qed

text \<open>
  The \<open>Debug\<close> output of the access keys never depends on the secret key, nor on the session
  token beyond its presence.
\<close>

theorem access_keys_debug_redacts:
  "access_keys_debug \<lparr> access_key = a, secret_access_key = s, session_token = t \<rparr>
   = access_keys_debug \<lparr> access_key = a, secret_access_key = s', session_token =
       map_option (\<lambda>_. x) t \<rparr>"
  by (cases t) (simp_all add: access_keys_debug_def)

end
