(* ===== verification/Externals.thy ===== *)
theory Externals
  imports Types
begin

text \<open>
  What the program takes from outside \<open>src/\<close>, as the arguments of the model. No operation of
  these records has a definition here: every theorem holds for all of them, and what a theorem
  needs of one it states as a hypothesis.

  \<^item> \<open>libs\<close>: pure functions of third-party crates (regular expressions, date conversion and
    formatting, URL encoding, byte sizes) and the arithmetic on \<open>f64\<close>.
  \<^item> \<open>'w client\<close>: the AWS SDK client. \<open>'w\<close> is the state of the outside world, so a call may
    answer differently each time.
  \<^item> \<open>'w env\<close>: both of them, the clock, the terminal, the registered filter callback, the
    receiving end of a channel between two stages, and the other tasks of the run, which may
    cancel the shared token at any moment: each look at the token asks the world first.
\<close>

section \<open>Pure library functions\<close>

type_synonym regex = string \<comment> \<open>a compiled pattern, by its source text\<close>
type_synonym chrono = int \<comment> \<open>a UTC instant, in nanoseconds since the epoch\<close>

record libs =
  regex_is_match :: "regex \<Rightarrow> string \<Rightarrow> string + bool"
  dt_to_millis :: "datetime \<Rightarrow> string + i64"
  millis_to_chrono :: "i64 \<Rightarrow> string + chrono"
  dt_fmt :: "datetime \<Rightarrow> string option"
  dt_to_string :: "datetime \<Rightarrow> string"
  url_encode :: "string \<Rightarrow> string"
  f64_of_u64 :: "u64 \<Rightarrow> f64"
  f64_of_nanos :: "nat \<Rightarrow> f64"
  f64_div :: "f64 \<Rightarrow> f64 \<Rightarrow> f64"
  f64_less :: "f64 \<Rightarrow> f64 \<Rightarrow> bool"
  f64_to_u64 :: "f64 \<Rightarrow> u64"
  join_error_text :: "string \<Rightarrow> string" \<comment> \<open>how a join error shows a panic of the task\<close>

text \<open>The bit pattern of the \<open>f64\<close> literal 1.0.\<close>

definition f64_one :: f64 where
  "f64_one = 0x3FF0000000000000"


section \<open>The S3 client\<close>

datatype request_payer = Requester

record head_output =
  ho_content_type :: "string option"
  ho_metadata :: "(string \<times> string) list option" \<comment> \<open>a hash map: the keys are distinct\<close>

type_synonym tag = "string \<times> string"

record object_identifier =
  oi_key :: string
  oi_version_id :: "string option"
  oi_e_tag :: "string option"

record deleted_entry =
  de_key :: "string option"
  de_version_id :: "string option"

record error_entry =
  ee_key :: "string option"
  ee_version_id :: "string option"
  ee_code :: "string option"
  ee_message :: "string option"

record delete_objects_output =
  do_deleted :: "deleted_entry list"
  do_errors :: "error_entry list"

datatype versioning_status = Enabled | Suspended | UnknownStatus string

record list_objects_output =
  lo_contents :: "aws_object list"
  lo_common_prefixes :: "string option list"
  lo_is_truncated :: "bool option"
  lo_next_continuation_token :: "string option"

record list_versions_output =
  lv_versions :: "aws_version list"
  lv_delete_markers :: "aws_marker list"
  lv_common_prefixes :: "string option list"
  lv_is_truncated :: "bool option"
  lv_next_key_marker :: "string option"
  lv_next_version_id_marker :: "string option"

text \<open>
  The requests name the bucket and the payer as the program's builders do. The listing requests
  carry the prefix, the delimiter, the page size and the position to continue from.
\<close>

record request =
  rq_payer :: "request_payer option"
  rq_bucket :: string

record list_request =
  lr_base :: request
  lr_prefix :: string
  lr_delimiter :: "string option"
  lr_max_keys :: i32

record 'w client =
  cl_head_object :: "request \<Rightarrow> string \<Rightarrow> string option \<Rightarrow> 'w \<Rightarrow> (sdk_error + head_output) \<times> 'w"
  cl_get_object_tagging :: "request \<Rightarrow> string \<Rightarrow> string option \<Rightarrow> 'w \<Rightarrow> (sdk_error + tag list) \<times> 'w"
  cl_delete_object ::
    "request \<Rightarrow> string \<Rightarrow> string option \<Rightarrow> string option \<Rightarrow> 'w \<Rightarrow> (sdk_error + unit) \<times> 'w"
  cl_delete_objects ::
    "request \<Rightarrow> object_identifier list \<Rightarrow> 'w \<Rightarrow> (sdk_error + delete_objects_output) \<times> 'w"
  cl_get_bucket_versioning :: "string \<Rightarrow> 'w \<Rightarrow> (sdk_error + versioning_status option) \<times> 'w"
  cl_list_objects_v2 ::
    "list_request \<Rightarrow> string option \<Rightarrow> 'w \<Rightarrow> (sdk_error + list_objects_output) \<times> 'w"
  cl_list_object_versions ::
    "list_request \<Rightarrow> string option \<Rightarrow> string option \<Rightarrow> 'w
       \<Rightarrow> (sdk_error + list_versions_output) \<times> 'w"


section \<open>The environment of a run\<close>

text \<open>
  What a send on a stage's output channel meets, given the objects sent before: room, a channel
  whose receiver is gone, or an error on a channel that is not closed.
\<close>

datatype send_env = Accepts | ReceiverGone | SendFails string

record 'w env =
  env_libs :: libs
  env_client :: "'w client" \<comment> \<open>what \<open>create_client\<close> builds from a client configuration\<close>
  env_now :: "'w \<Rightarrow> nat \<times> 'w"
  env_filter_callback :: "s3_object \<Rightarrow> 'w \<Rightarrow> bool result \<times> 'w"
  env_send :: "s3_object list \<Rightarrow> send_env"
  env_cancel :: "'w \<Rightarrow> bool \<times> 'w" \<comment> \<open>has another task cancelled the token since the last look?\<close>
  env_select :: "'w \<Rightarrow> bool \<times> 'w" \<comment> \<open>does a \<open>select!\<close> take its cancellation branch?\<close>
  env_is_terminal :: bool \<comment> \<open>stdin and stdout are both terminals\<close>
  env_read_line :: "string \<Rightarrow> 'w \<Rightarrow> string result \<times> 'w" \<comment> \<open>print a prompt, read a line\<close>

end
