(* ===== verification/Events.thy ===== *)
theory Events
  imports Externals
begin

text \<open>
  Events and callbacks: the event types and data (\<open>src/types/event_callback.rs\<close>), the event
  manager with its statistics (\<open>src/callback/event_manager.rs\<close>), the filter manager
  (\<open>src/callback/filter_manager.rs\<close>) and the callbacks shipped with the binary.

  This theory also declares the state \<open>'w sys\<close> that the stages of a run share: the outside
  world, the events delivered to the callback so far, the accumulated statistics, the
  statistics channel, the counters and flags behind atomics, and the objects sent downstream.
\<close>

section \<open>Event types\<close>

unbundle bit_operations_syntax

type_synonym event_type = u64

definition UNDEFINED :: event_type where "UNDEFINED = 0"
definition PIPELINE_START :: event_type where "PIPELINE_START = push_bit 1 1"
definition PIPELINE_END :: event_type where "PIPELINE_END = push_bit 2 1"
definition DELETE_COMPLETE :: event_type where "DELETE_COMPLETE = push_bit 3 1"
definition DELETE_FAILED :: event_type where "DELETE_FAILED = push_bit 4 1"
definition DELETE_FILTERED :: event_type where "DELETE_FILTERED = push_bit 5 1"
definition PIPELINE_ERROR :: event_type where "PIPELINE_ERROR = push_bit 6 1"
definition DELETE_CANCEL :: event_type where "DELETE_CANCEL = push_bit 7 1"
definition STATS_REPORT :: event_type where "STATS_REPORT = push_bit 8 1"
definition ALL_EVENTS :: event_type where "ALL_EVENTS = NOT 0"

lemmas event_type_defs =
  UNDEFINED_def PIPELINE_START_def PIPELINE_END_def DELETE_COMPLETE_def DELETE_FAILED_def
  DELETE_FILTERED_def PIPELINE_ERROR_def DELETE_CANCEL_def STATS_REPORT_def ALL_EVENTS_def

text \<open>The bitflags operation \<open>contains\<close>.\<close>

definition flags_contain :: "event_type \<Rightarrow> event_type \<Rightarrow> bool" where
  "flags_contain flags t \<longleftrightarrow> flags AND t = t"

lemma event_types_numerals:
  "PIPELINE_START = 2" "PIPELINE_END = 4" "DELETE_COMPLETE = 8" "DELETE_FAILED = 16"
  "DELETE_FILTERED = 32" "PIPELINE_ERROR = 64" "DELETE_CANCEL = 128" "STATS_REPORT = 256"
  by (simp_all add: event_type_defs push_bit_eq_mult)

lemma all_events_contain [simp]: "flags_contain ALL_EVENTS t"
  by (simp add: flags_contain_def ALL_EVENTS_def)


section \<open>Event data\<close>

record event_data =
  ed_event_type :: event_type
  ed_dry_run :: bool
  ed_key :: "string option"
  ed_version_id :: "string option"
  ed_size :: "u64 option"
  ed_last_modified :: "string option"
  ed_e_tag :: "string option"
  ed_error_message :: "string option"
  ed_message :: "string option"
  ed_stats_deleted_objects :: "u64 option"
  ed_stats_deleted_bytes :: "u64 option"
  ed_stats_failed_objects :: "u64 option"
  ed_stats_skipped_objects :: "u64 option"
  ed_stats_error_count :: "u64 option"
  ed_stats_duration_sec :: "f64 option"
  ed_stats_objects_per_sec :: "f64 option"

definition event_data_new :: "event_type \<Rightarrow> event_data" where
  "event_data_new t =
     \<lparr> ed_event_type = t, ed_dry_run = False, ed_key = None, ed_version_id = None,
       ed_size = None, ed_last_modified = None, ed_e_tag = None, ed_error_message = None,
       ed_message = None, ed_stats_deleted_objects = None, ed_stats_deleted_bytes = None,
       ed_stats_failed_objects = None, ed_stats_skipped_objects = None,
       ed_stats_error_count = None, ed_stats_duration_sec = None,
       ed_stats_objects_per_sec = None \<rparr>"

lemma event_data_new_type [simp]: "ed_event_type (event_data_new t) = t"
  by (simp add: event_data_new_def)


section \<open>Statistics of the event manager\<close>

record pipeline_stats =
  ps_pipeline_start_time :: "nat option"
  ps_deleted_objects :: u64
  ps_deleted_bytes :: u64
  ps_failed_objects :: u64
  ps_skipped_objects :: u64
  ps_error_count :: u64
  ps_duration_sec :: f64
  ps_objects_per_sec :: f64

definition pipeline_stats_default :: pipeline_stats where
  "pipeline_stats_default =
     \<lparr> ps_pipeline_start_time = None, ps_deleted_objects = 0, ps_deleted_bytes = 0,
       ps_failed_objects = 0, ps_skipped_objects = 0, ps_error_count = 0,
       ps_duration_sec = 0, ps_objects_per_sec = 0 \<rparr>"

definition stats_event :: "pipeline_stats \<Rightarrow> event_data" where
  "stats_event s = (event_data_new STATS_REPORT)
     \<lparr> ed_stats_deleted_objects := Some (ps_deleted_objects s),
       ed_stats_deleted_bytes := Some (ps_deleted_bytes s),
       ed_stats_failed_objects := Some (ps_failed_objects s),
       ed_stats_skipped_objects := Some (ps_skipped_objects s),
       ed_stats_error_count := Some (ps_error_count s),
       ed_stats_duration_sec := Some (ps_duration_sec s),
       ed_stats_objects_per_sec := Some (ps_objects_per_sec s) \<rparr>"


section \<open>The shared state of a run\<close>

record 'w sys =
  world :: 'w
  events :: "event_data list"
  pipeline_stats :: pipeline_stats
  stats_channel :: "deletion_statistics list"
  stats_closed :: bool
  report :: stats_report
  cancelled :: bool
  has_warning :: bool
  delete_counter :: u64
  sent :: "s3_object list"
  rate_tokens :: nat \<comment> \<open>tokens acquired from the rate limiter so far\<close>

definition sys_new :: "'w \<Rightarrow> 'w sys" where
  "sys_new w =
     \<lparr> world = w, events = [], pipeline_stats = pipeline_stats_default, stats_channel = [],
       stats_closed = False, report = stats_report_new, cancelled = False,
       has_warning = False, delete_counter = 0, sent = [], rate_tokens = 0 \<rparr>"


section \<open>The event manager\<close>

text \<open>The registration; the statistics live in the shared state, behind the mutex.\<close>

record event_manager =
  em_callback_registered :: bool
  em_event_flags :: event_type
  em_dry_run :: bool

definition event_manager_new :: event_manager where
  "event_manager_new =
     \<lparr> em_callback_registered = False, em_event_flags = ALL_EVENTS, em_dry_run = False \<rparr>"

definition em_register_callback :: "event_type \<Rightarrow> bool \<Rightarrow> event_manager \<Rightarrow> event_manager" where
  "em_register_callback flags dry em =
     em\<lparr> em_callback_registered := True, em_event_flags := flags, em_dry_run := dry \<rparr>"

definition update_pipeline_stats :: "'w env \<Rightarrow> event_data \<Rightarrow> 'w sys \<Rightarrow> 'w sys" where
  "update_pipeline_stats env ed s =
     (let t = ed_event_type ed; st = pipeline_stats s; lib = env_libs env in
      if t = PIPELINE_START then
        (let (now, w) = env_now env (world s) in
         s\<lparr> world := w, pipeline_stats := st\<lparr> ps_pipeline_start_time := Some now \<rparr> \<rparr>)
      else if t = PIPELINE_END then
        (case ps_pipeline_start_time st of
           None \<Rightarrow> s
         | Some start \<Rightarrow>
             (let (now, w) = env_now env (world s);
                  duration = f64_of_nanos lib (now - start);
                  deleted = f64_of_u64 lib (ps_deleted_objects st);
                  rate = (if f64_less lib f64_one duration
                          then f64_div lib deleted duration else deleted) in
              s\<lparr> world := w,
                 pipeline_stats := st\<lparr> ps_duration_sec := duration,
                                       ps_objects_per_sec := rate \<rparr> \<rparr>))
      else if t = DELETE_COMPLETE then
        s\<lparr> pipeline_stats := st\<lparr> ps_deleted_objects := ps_deleted_objects st + 1,
             ps_deleted_bytes := (case ed_size ed of
                 Some n \<Rightarrow> ps_deleted_bytes st + n
               | None \<Rightarrow> ps_deleted_bytes st) \<rparr> \<rparr>
      else if t = DELETE_FAILED then
        s\<lparr> pipeline_stats := st\<lparr> ps_failed_objects := ps_failed_objects st + 1 \<rparr> \<rparr>
      else if t = DELETE_FILTERED then
        s\<lparr> pipeline_stats := st\<lparr> ps_skipped_objects := ps_skipped_objects st + 1 \<rparr> \<rparr>
      else if t = PIPELINE_ERROR then
        s\<lparr> pipeline_stats := st\<lparr> ps_error_count := ps_error_count st + 1 \<rparr> \<rparr>
      else s)"

definition deliver :: "event_data \<Rightarrow> 'w sys \<Rightarrow> 'w sys" where
  "deliver ed s = s\<lparr> events := events s @ [ed] \<rparr>"

definition trigger_event :: "'w env \<Rightarrow> event_manager \<Rightarrow> event_data \<Rightarrow> 'w sys \<Rightarrow> 'w sys" where
  "trigger_event env em ed s =
     (let s1 = update_pipeline_stats env ed s in
      if em_callback_registered em then
        let t = ed_event_type ed;
            s2 = (if flags_contain (em_event_flags em) t
                  then deliver (ed\<lparr> ed_dry_run := em_dry_run em \<rparr>) s1 else s1)
        in if t = PIPELINE_END \<and> flags_contain (em_event_flags em) STATS_REPORT
           then deliver ((stats_event (pipeline_stats s2))\<lparr> ed_dry_run := em_dry_run em \<rparr>) s2
           else s2
      else s1)"


section \<open>The filter manager and the shipped callbacks\<close>

record filter_manager =
  fm_callback_registered :: bool

definition filter_manager_new :: filter_manager where
  "filter_manager_new = \<lparr> fm_callback_registered = False \<rparr>"

definition fm_register_callback :: "filter_manager \<Rightarrow> filter_manager" where
  "fm_register_callback fm = fm\<lparr> fm_callback_registered := True \<rparr>"

definition execute_filter :: "'w env \<Rightarrow> filter_manager \<Rightarrow> s3_object \<Rightarrow> ('w sys, bool) prog" where
  "execute_filter env fm obj =
     (if fm_callback_registered fm
      then (\<lambda>s. let (r, w) = env_filter_callback env obj (world s) in (r, s\<lparr> world := w \<rparr>))
      else panic ''Filter callback is not registered'')"

text \<open>The line the shipped event callback writes to stderr starts with this label.\<close>

definition user_defined_event_label :: "event_data \<Rightarrow> string" where
  "user_defined_event_label ed =
     (let t = ed_event_type ed in
      if t = PIPELINE_START then ''Pipeline started: ''
      else if t = PIPELINE_END then ''Pipeline ended: ''
      else if t = DELETE_COMPLETE then ''Delete complete: ''
      else if t = DELETE_FAILED then ''Delete failed: ''
      else if t = DELETE_FILTERED then ''Delete filtered: ''
      else if t = PIPELINE_ERROR then ''Pipeline error: ''
      else if t = DELETE_CANCEL then ''Delete cancelled: ''
      else if t = STATS_REPORT then ''Stats report: ''
      else ''Other events: '')"

text \<open>The shipped filter callback reads the key (so it may panic) and passes every object.\<close>

definition user_defined_filter :: "s3_object \<Rightarrow> bool result" where
  "user_defined_filter obj = obind (s3_key obj) (\<lambda>_. Ok True)"


section \<open>What triggering an event changes\<close>

lemma update_pipeline_stats_frame [simp]:
  "events (update_pipeline_stats env ed s) = events s"
  "stats_channel (update_pipeline_stats env ed s) = stats_channel s"
  "stats_closed (update_pipeline_stats env ed s) = stats_closed s"
  "report (update_pipeline_stats env ed s) = report s"
  "cancelled (update_pipeline_stats env ed s) = cancelled s"
  "has_warning (update_pipeline_stats env ed s) = has_warning s"
  "delete_counter (update_pipeline_stats env ed s) = delete_counter s"
  "sent (update_pipeline_stats env ed s) = sent s"
  "rate_tokens (update_pipeline_stats env ed s) = rate_tokens s"
  by (simp_all add: update_pipeline_stats_def Let_def split: option.splits prod.splits)

lemma deliver_frame [simp]:
  "events (deliver ed s) = events s @ [ed]" "world (deliver ed s) = world s"
  "pipeline_stats (deliver ed s) = pipeline_stats s"
  "stats_channel (deliver ed s) = stats_channel s" "stats_closed (deliver ed s) = stats_closed s"
  "report (deliver ed s) = report s" "cancelled (deliver ed s) = cancelled s"
  "has_warning (deliver ed s) = has_warning s" "delete_counter (deliver ed s) = delete_counter s"
  "sent (deliver ed s) = sent s" "rate_tokens (deliver ed s) = rate_tokens s"
  by (simp_all add: deliver_def)

lemma trigger_event_frame [simp]:
  "stats_channel (trigger_event env em ed s) = stats_channel s"
  "stats_closed (trigger_event env em ed s) = stats_closed s"
  "report (trigger_event env em ed s) = report s"
  "cancelled (trigger_event env em ed s) = cancelled s"
  "has_warning (trigger_event env em ed s) = has_warning s"
  "delete_counter (trigger_event env em ed s) = delete_counter s"
  "sent (trigger_event env em ed s) = sent s"
  "rate_tokens (trigger_event env em ed s) = rate_tokens s"
  by (simp_all add: trigger_event_def Let_def)

lemma trigger_event_stats [simp]:
  "pipeline_stats (trigger_event env em ed s) = pipeline_stats (update_pipeline_stats env ed s)"
  by (simp add: trigger_event_def Let_def)

lemma world_trigger_event:
  "ed_event_type ed \<noteq> PIPELINE_START \<Longrightarrow> ed_event_type ed \<noteq> PIPELINE_END \<Longrightarrow>
     world (trigger_event env em ed s) = world s"
  by (simp add: trigger_event_def update_pipeline_stats_def Let_def)

text \<open>The types of the events one trigger delivers, in order.\<close>

definition delivered_types :: "event_manager \<Rightarrow> event_data \<Rightarrow> event_type list" where
  "delivered_types em ed =
     (if em_callback_registered em then
        (if flags_contain (em_event_flags em) (ed_event_type ed) then [ed_event_type ed] else [])
        @ (if ed_event_type ed = PIPELINE_END \<and> flags_contain (em_event_flags em) STATS_REPORT
           then [STATS_REPORT] else [])
      else [])"

lemma trigger_event_events:
  "\<exists>new. events (trigger_event env em ed s) = events s @ new \<and>
     map ed_event_type new = delivered_types em ed \<and> (\<forall>e \<in> set new. ed_dry_run e = em_dry_run em)"
  by (simp add: trigger_event_def delivered_types_def Let_def stats_event_def)

text \<open>
  What the registered callback sees. Over any sequence of triggered events it receives
  exactly the subscribed ones, in order, each stamped with the manager's dry-run flag (whatever
  the event itself carried), and one statistics report directly after every pipeline end, when
  it subscribed to those; an unregistered callback receives nothing.
\<close>

theorem triggered_events_delivered:
  "\<exists>new. events (fold (trigger_event env em) evs s) = events s @ new
     \<and> map ed_event_type new = concat (map (delivered_types em) evs)
     \<and> list_all (\<lambda>e. ed_dry_run e = em_dry_run em) new"
proof (induction evs arbitrary: s)
  case Nil
  then show ?case by simp
next
  case (Cons e evs)
  from trigger_event_events [of env em e s] obtain a where
    a: "events (trigger_event env em e s) = events s @ a"
       "map ed_event_type a = delivered_types em e" "\<forall>x \<in> set a. ed_dry_run x = em_dry_run em"
    by blast
  from Cons.IH [of "trigger_event env em e s"] obtain b where
    b: "events (fold (trigger_event env em) evs (trigger_event env em e s))
          = events (trigger_event env em e s) @ b"
       "map ed_event_type b = concat (map (delivered_types em) evs)"
       "list_all (\<lambda>x. ed_dry_run x = em_dry_run em) b"
    by blast
  from a b show ?case by (intro exI [of _ "a @ b"]) (auto simp: list_all_iff)
qed

definition events_of_type :: "event_type \<Rightarrow> event_data list \<Rightarrow> nat" where
  "events_of_type t evs = length (filter (\<lambda>e. ed_event_type e = t) evs)"

lemma events_of_type_simps [simp]:
  "events_of_type t [] = 0"
  "events_of_type t (e # es) = (if ed_event_type e = t then 1 else 0) + events_of_type t es"
  by (simp_all add: events_of_type_def)

definition bytes_deleted :: "event_data list \<Rightarrow> u64" where
  "bytes_deleted evs =
     (\<Sum>e\<leftarrow>evs. if ed_event_type e = DELETE_COMPLETE then unwrap_or (ed_size e) 0 else 0)"

text \<open>
  The accumulated statistics are the counts of the triggered events, whether or not a
  callback is registered: deleted, failed, skipped objects and errors count the events of their
  type, and the deleted bytes add up the sizes of the completed deletions (modulo the width of
  the counters).
\<close>

theorem pipeline_stats_count_events:
  "let s' = pipeline_stats (fold (trigger_event env em) evs s); s0 = pipeline_stats s in
     ps_deleted_objects s' = ps_deleted_objects s0 + of_nat (events_of_type DELETE_COMPLETE evs)
   \<and> ps_deleted_bytes s' = ps_deleted_bytes s0 + bytes_deleted evs
   \<and> ps_failed_objects s' = ps_failed_objects s0 + of_nat (events_of_type DELETE_FAILED evs)
   \<and> ps_skipped_objects s' = ps_skipped_objects s0 + of_nat (events_of_type DELETE_FILTERED evs)
   \<and> ps_error_count s' = ps_error_count s0 + of_nat (events_of_type PIPELINE_ERROR evs)"
proof (induction evs arbitrary: s)
  case Nil
  then show ?case by (simp add: bytes_deleted_def)
next
  case (Cons e evs)
  have step:
    "ps_deleted_objects (pipeline_stats (update_pipeline_stats env e s))
       = ps_deleted_objects (pipeline_stats s) + of_nat (events_of_type DELETE_COMPLETE [e])"
    "ps_deleted_bytes (pipeline_stats (update_pipeline_stats env e s))
       = ps_deleted_bytes (pipeline_stats s) + bytes_deleted [e]"
    "ps_failed_objects (pipeline_stats (update_pipeline_stats env e s))
       = ps_failed_objects (pipeline_stats s) + of_nat (events_of_type DELETE_FAILED [e])"
    "ps_skipped_objects (pipeline_stats (update_pipeline_stats env e s))
       = ps_skipped_objects (pipeline_stats s) + of_nat (events_of_type DELETE_FILTERED [e])"
    "ps_error_count (pipeline_stats (update_pipeline_stats env e s))
       = ps_error_count (pipeline_stats s) + of_nat (events_of_type PIPELINE_ERROR [e])"
    by (simp_all add: update_pipeline_stats_def bytes_deleted_def unwrap_or_def Let_def
        event_types_numerals split: option.splits prod.splits)
  from Cons.IH [of "trigger_event env em e s"] step show ?case
    by (simp add: Let_def bytes_deleted_def ac_simps)
qed

end
