(* ===== verification/Config.thy ===== *)
theory Config
  imports Events
begin

text \<open>
  The configuration of a run (\<open>src/config/mod.rs\<close>), with the defaults of the library.
\<close>

section \<open>Parts of the configuration\<close>

text \<open>\<open>log::Level\<close>, ordered from the most severe to the most verbose as its derived order.\<close>

datatype log_level = LError | LWarn | LInfo | LDebug | LTrace

fun level_rank :: "log_level \<Rightarrow> nat" where
  "level_rank LError = 1"
| "level_rank LWarn = 2"
| "level_rank LInfo = 3"
| "level_rank LDebug = 4"
| "level_rank LTrace = 5"

lemma level_rank_inj: "level_rank a = level_rank b \<Longrightarrow> a = b"
  by (cases a; cases b) auto

instantiation log_level :: linorder
begin

definition less_eq_log_level :: "log_level \<Rightarrow> log_level \<Rightarrow> bool" where
  "less_eq_log_level a b \<longleftrightarrow> level_rank a \<le> level_rank b"

definition less_log_level :: "log_level \<Rightarrow> log_level \<Rightarrow> bool" where
  "less_log_level a b \<longleftrightarrow> level_rank a < level_rank b"

instance
  by standard (auto simp: less_eq_log_level_def less_log_level_def level_rank_inj)

end

record retry_config =
  aws_max_attempts :: u32
  initial_backoff_milliseconds :: u64

record cli_timeout_config =
  operation_timeout_milliseconds :: "u64 option"
  operation_attempt_timeout_milliseconds :: "u64 option"
  connect_timeout_milliseconds :: "u64 option"
  read_timeout_milliseconds :: "u64 option"

datatype checksum_calculation = WhenSupported | WhenRequired

record client_config =
  cc_client_config_location :: client_config_location
  cc_credential :: s3_credentials
  cc_region :: "string option"
  cc_endpoint_url :: "string option"
  cc_force_path_style :: bool
  cc_accelerate :: bool
  cc_request_payer :: "request_payer option"
  cc_retry_config :: retry_config
  cc_cli_timeout_config :: cli_timeout_config
  cc_disable_stalled_stream_protection :: bool
  cc_request_checksum_calculation :: checksum_calculation

record tracing_config =
  tc_tracing_level :: log_level
  tc_json_tracing :: bool
  tc_aws_sdk_tracing :: bool
  tc_span_events_tracing :: bool
  tc_disable_color_tracing :: bool

record force_retry_config =
  force_retry_count :: u32
  force_retry_interval_milliseconds :: u64

definition force_retry_config_default :: force_retry_config where
  "force_retry_config_default =
     \<lparr> force_retry_count = 0, force_retry_interval_milliseconds = 1000 \<rparr>"

record filter_config =
  before_time :: "chrono option"
  after_time :: "chrono option"
  include_regex :: "regex option"
  exclude_regex :: "regex option"
  include_content_type_regex :: "regex option"
  exclude_content_type_regex :: "regex option"
  include_metadata_regex :: "regex option"
  exclude_metadata_regex :: "regex option"
  include_tag_regex :: "regex option"
  exclude_tag_regex :: "regex option"
  larger_size :: "u64 option"
  smaller_size :: "u64 option"
  keep_latest_only :: bool
  delete_marker_only :: bool

definition filter_config_default :: filter_config where
  "filter_config_default =
     \<lparr> before_time = None, after_time = None, include_regex = None, exclude_regex = None,
       include_content_type_regex = None, exclude_content_type_regex = None,
       include_metadata_regex = None, exclude_metadata_regex = None,
       include_tag_regex = None, exclude_tag_regex = None,
       larger_size = None, smaller_size = None,
       keep_latest_only = False, delete_marker_only = False \<rparr>"

datatype shell = Bash | Elvish | Fish | PowerShell | Zsh


section \<open>The configuration\<close>

record config =
  target :: storage_path
  show_no_progress :: bool
  target_client_config :: "client_config option"
  force_retry_config :: force_retry_config
  tracing_config :: "tracing_config option"
  worker_size :: u16
  warn_as_error :: bool
  dry_run :: bool
  rate_limit_objects :: "u32 option"
  max_parallel_listings :: u16
  object_listing_queue_size :: u32
  max_parallel_listing_max_depth :: u16
  allow_parallel_listings_in_express_one_zone :: bool
  filter_config :: filter_config
  max_keys :: i32
  auto_complete_shell :: "shell option"
  event_callback_lua_script :: "string option"
  filter_callback_lua_script :: "string option"
  allow_lua_os_library :: bool
  allow_lua_unsafe_vm :: bool
  lua_vm_memory_limit :: nat
  lua_callback_timeout_milliseconds :: u64
  if_match :: bool
  max_delete :: "u64 option"
  filter_manager :: filter_manager
  event_manager :: event_manager
  batch_size :: u16
  delete_all_versions :: bool
  force :: bool
  test_user_defined_callback :: bool

definition config_default :: config where
  "config_default =
     \<lparr> target = S3 [] [],
       show_no_progress = False,
       target_client_config = None,
       force_retry_config = force_retry_config_default,
       tracing_config = None,
       worker_size = 16,
       warn_as_error = False,
       dry_run = False,
       rate_limit_objects = None,
       max_parallel_listings = 16,
       object_listing_queue_size = 200000,
       max_parallel_listing_max_depth = 2,
       allow_parallel_listings_in_express_one_zone = False,
       filter_config = filter_config_default,
       max_keys = 1000,
       auto_complete_shell = None,
       event_callback_lua_script = None,
       filter_callback_lua_script = None,
       allow_lua_os_library = False,
       allow_lua_unsafe_vm = False,
       lua_vm_memory_limit = 64 * 1024 * 1024,
       lua_callback_timeout_milliseconds = 10000,
       if_match = False,
       max_delete = None,
       filter_manager = filter_manager_new,
       event_manager = event_manager_new,
       batch_size = 200,
       delete_all_versions = False,
       force = False,
       test_user_defined_callback = False \<rparr>"

definition config_for_target :: "string \<Rightarrow> string \<Rightarrow> config" where
  "config_for_target b p = config_default\<lparr> target := S3 b p, force := True \<rparr>"

lemma config_for_target_simps [simp]:
  "target (config_for_target b p) = S3 b p" "force (config_for_target b p)"
  "\<not> dry_run (config_for_target b p)" "batch_size (config_for_target b p) = 200"
  "filter_config (config_for_target b p) = filter_config_default"
  "max_delete (config_for_target b p) = None" "\<not> warn_as_error (config_for_target b p)"
  "\<not> if_match (config_for_target b p)" "\<not> delete_all_versions (config_for_target b p)"
  "event_manager (config_for_target b p) = event_manager_new"
  "filter_manager (config_for_target b p) = filter_manager_new"
  "worker_size (config_for_target b p) = 16"
  by (simp_all add: config_for_target_def config_default_def)

end
