(* ===== verification/Demo.thy ===== *)
theory Demo
  imports Config
begin

text \<open>
  A concrete environment, on which the theorems with hypotheses are instantiated: pure functions
  that compute, and an S3 service whose state is the list of the keys it holds. It answers
  every request as the S3 documentation says, deletes what it is asked to delete and never
  fails. Nothing of the model of the program depends on this theory.
\<close>

definition demo_libs :: libs where
  "demo_libs = \<lparr> regex_is_match = (\<lambda>re s. Inr (re = s)),
     dt_to_millis = (\<lambda>dt. Inr (of_int (dt_secs dt * 1000))),
     millis_to_chrono = (\<lambda>ms. Inr (sint ms * 1000000)),
     dt_fmt = (\<lambda>dt. Some ''1970-01-01T00:00:00Z''),
     dt_to_string = (\<lambda>dt. ''1970-01-01T00:00:00Z''),
     url_encode = id,
     f64_of_u64 = id, f64_of_nanos = of_nat, f64_div = (\<lambda>a b. a div b), f64_less = (<),
     f64_to_u64 = id, join_error_text = id \<rparr>"

definition demo_client :: "string list client" where
  "demo_client = \<lparr>
     cl_head_object = (\<lambda>rq k v w. (Inr \<lparr> ho_content_type = Some ''text/plain'', ho_metadata = None \<rparr>, w)),
     cl_get_object_tagging = (\<lambda>rq k v w. (Inr [], w)),
     cl_delete_object = (\<lambda>rq k v e w. (Inr (), filter (\<lambda>x. x \<noteq> k) w)),
     cl_delete_objects = (\<lambda>rq ids w.
       (Inr \<lparr> do_deleted = map (\<lambda>i. \<lparr> de_key = Some (oi_key i), de_version_id = oi_version_id i \<rparr>) ids,
              do_errors = [] \<rparr>,
        filter (\<lambda>x. x \<notin> oi_key ` set ids) w)),
     cl_get_bucket_versioning = (\<lambda>b w. (Inr (Some Enabled), w)),
     cl_list_objects_v2 = (\<lambda>rq t w.
       (Inr \<lparr> lo_contents = map (\<lambda>k. \<lparr> ob_key = Some k, ob_size = Some 1,
                ob_last_modified = Some (DateTime 0 0), ob_e_tag = None \<rparr>) w,
              lo_common_prefixes = [], lo_is_truncated = Some False,
              lo_next_continuation_token = None \<rparr>, w)),
     cl_list_object_versions = (\<lambda>rq k v w.
       (Inr \<lparr> lv_versions = [], lv_delete_markers = [], lv_common_prefixes = [],
              lv_is_truncated = Some False, lv_next_key_marker = None,
              lv_next_version_id_marker = None \<rparr>, w)) \<rparr>"

definition demo_env :: "string list env" where
  "demo_env = \<lparr> env_libs = demo_libs, env_client = demo_client, env_now = (\<lambda>w. (0, w)),
     env_filter_callback = (\<lambda>x w. (Ok True, w)), env_send = (\<lambda>xs. Accepts),
     env_cancel = (\<lambda>w. (False, w)), env_select = (\<lambda>w. (False, w)),
     env_is_terminal = True, env_read_line = (\<lambda>p w. (Ok ''yes'', w)) \<rparr>"

abbreviation demo_object :: "string \<Rightarrow> s3_object" where
  "demo_object k \<equiv> s3_object_new k 1"

definition demo_client_config :: client_config where
  "demo_client_config =
     \<lparr> cc_client_config_location =
         \<lparr> aws_config_file = None, aws_shared_credentials_file = None \<rparr>,
       cc_credential = FromEnvironment, cc_region = None, cc_endpoint_url = None,
       cc_force_path_style = False, cc_accelerate = False, cc_request_payer = None,
       cc_retry_config = \<lparr> aws_max_attempts = 10, initial_backoff_milliseconds = 100 \<rparr>,
       cc_cli_timeout_config = \<lparr> operation_timeout_milliseconds = None,
         operation_attempt_timeout_milliseconds = None, connect_timeout_milliseconds = None,
         read_timeout_milliseconds = None \<rparr>,
       cc_disable_stalled_stream_protection = False,
       cc_request_checksum_calculation = WhenRequired \<rparr>"

definition demo_config :: config where
  "demo_config =
     (config_for_target ''logs'' ''a/'')\<lparr> target_client_config := Some demo_client_config \<rparr>"

lemma demo_env_simps [simp]:
  "env_libs demo_env = demo_libs" "env_client demo_env = demo_client"
  "env_cancel demo_env w = (False, w)" "env_select demo_env w = (False, w)"
  "env_send demo_env xs = Accepts"
  by (simp_all add: demo_env_def)

end
