(* ===== verification/Lua.thy ===== *)
theory Lua
  imports Demo
begin

text \<open>
  The callbacks written in Lua (\<open>src/lua/engine.rs\<close>, \<open>src/lua/filter.rs\<close>, \<open>src/lua/event.rs\<close>): the
  choice of the engine, loading a script, and one invocation of each callback. The interpreter
  is a parameter, with a state of its own; the program talks to it through the operations of
  the record \<open>mlua\<close>.
\<close>

section \<open>The interpreter\<close>

datatype lua_value =
    LuaNil
  | LuaBool bool
  | LuaInteger i64
  | LuaUnsigned u64
  | LuaNumber f64
  | LuaString string

type_synonym lua_table = "(string \<times> lua_value) list"

text \<open>
  The operations of the interpreter. A failing one gives the text of its error. A hook gets
  the deadline in milliseconds; a function is called by the name it was looked up with.
\<close>

record 'l mlua =
  ml_new :: 'l
  ml_new_with_safe_libs :: "'l option" \<comment> \<open>all safe libraries except \<open>OS\<close> and \<open>IO\<close>\<close>
  ml_unsafe_new :: 'l
  ml_set_memory_limit :: "nat \<Rightarrow> 'l \<Rightarrow> 'l option"
  ml_exec :: "string \<Rightarrow> 'l \<Rightarrow> (string + unit) \<times> 'l"
  ml_create_table :: "'l \<Rightarrow> (string + lua_table) \<times> 'l"
  ml_table_set :: "lua_table \<Rightarrow> string \<Rightarrow> lua_value \<Rightarrow> 'l \<Rightarrow> (string + lua_table) \<times> 'l"
  ml_get_function :: "string \<Rightarrow> 'l \<Rightarrow> (string + unit) \<times> 'l"
  ml_set_hook :: "u64 \<Rightarrow> 'l \<Rightarrow> (string + unit) \<times> 'l"
  ml_remove_hook :: "'l \<Rightarrow> 'l"
  ml_call_bool :: "string \<Rightarrow> lua_table \<Rightarrow> 'l \<Rightarrow> (string + bool) \<times> 'l"
  ml_call_unit :: "string \<Rightarrow> lua_table \<Rightarrow> 'l \<Rightarrow> (string + unit) \<times> 'l"

definition lua_call :: "('l \<Rightarrow> (string + 'a) \<times> 'l) \<Rightarrow> ('l, 'a) prog" where
  "lua_call f = (\<lambda>l. case f l of
       (Inr a, l') \<Rightarrow> (Ok a, l')
     | (Inl m, l') \<Rightarrow> (Err (Message m), l'))"


section \<open>The engine\<close>

definition limit_memory :: "'l mlua \<Rightarrow> nat \<Rightarrow> 'l \<Rightarrow> 'l result" where
  "limit_memory ml limit l = expect (ml_set_memory_limit ml limit l) ''failed to set Lua memory limit''"

definition lua_engine_new :: "'l mlua \<Rightarrow> nat \<Rightarrow> 'l result" where
  "lua_engine_new ml limit = limit_memory ml limit (ml_new ml)"

definition lua_engine_new_without_os_io_libs :: "'l mlua \<Rightarrow> nat \<Rightarrow> 'l result" where
  "lua_engine_new_without_os_io_libs ml limit =
     obind (expect (ml_new_with_safe_libs ml) ''failed to create Lua engine without OS/IO libs'')
       (limit_memory ml limit)"

definition lua_engine_unsafe_new :: "'l mlua \<Rightarrow> nat \<Rightarrow> 'l result" where
  "lua_engine_unsafe_new ml limit = limit_memory ml limit (ml_unsafe_new ml)"

definition lua_load_and_compile :: "'l mlua \<Rightarrow> string \<Rightarrow> ('l, unit) prog" where
  "lua_load_and_compile ml script = (\<lambda>l. case ml_exec ml script l of
       (Inr u, l') \<Rightarrow> (Ok (), l')
     | (Inl e, l') \<Rightarrow> (Err (Message (''Failed to load and compile Lua script: '' @ e)), l'))"


section \<open>The callbacks\<close>

text \<open>Both callbacks choose their engine in the same way, and keep a timeout in milliseconds.\<close>

record 'l lua_callback =
  lc_engine :: 'l
  lc_callback_timeout :: u64

definition lua_callback_new :: "'l mlua \<Rightarrow> nat \<Rightarrow> bool \<Rightarrow> bool \<Rightarrow> u64 \<Rightarrow> 'l lua_callback result" where
  "lua_callback_new ml limit allow_os unsafe_lua timeout =
     obind (if unsafe_lua then lua_engine_unsafe_new ml limit
            else if allow_os then lua_engine_new ml limit
            else lua_engine_new_without_os_io_libs ml limit)
       (\<lambda>l. Ok \<lparr> lc_engine = l, lc_callback_timeout = timeout \<rparr>)"

text \<open>Loading a script file, given what reading the file yields and whether it is UTF-8.\<close>

definition lua_callback_load ::
  "'l mlua \<Rightarrow> (string \<Rightarrow> anyhow + string) \<Rightarrow> (string \<Rightarrow> anyhow + string) \<Rightarrow> string
     \<Rightarrow> ('l, unit) prog" where
  "lua_callback_load ml read_file from_utf8 path = (case read_file path of
       Inl e \<Rightarrow> throw e
     | Inr bytes \<Rightarrow> (case from_utf8 bytes of
           Inl e \<Rightarrow> throw e
         | Inr script \<Rightarrow> lua_load_and_compile ml script))"

definition lua_opt :: "('a \<Rightarrow> lua_value) \<Rightarrow> 'a option \<Rightarrow> lua_value" where
  "lua_opt f v = (case v of Some a \<Rightarrow> f a | None \<Rightarrow> LuaNil)"


subsection \<open>The filter\<close>

definition object_fields :: "libs \<Rightarrow> s3_object \<Rightarrow> (string \<times> lua_value result) list" where
  "object_fields lib x =
     [(''key'', obind (s3_key x) (\<lambda>k. Ok (LuaString k))),
      (''last_modified'', obind (s3_last_modified x) (\<lambda>dt. Ok (LuaString (dt_to_string lib dt)))),
      (''version_id'', Ok (lua_opt LuaString (s3_version_id x))),
      (''e_tag'', Ok (lua_opt LuaString (s3_e_tag x))),
      (''is_latest'', Ok (LuaBool (s3_is_latest x))),
      (''is_delete_marker'', Ok (LuaBool (s3_is_delete_marker x))),
      (''size'', obind (s3_size x) (\<lambda>n. Ok (LuaInteger n)))]"

fun set_fields :: "'l mlua \<Rightarrow> (string \<times> lua_value result) list \<Rightarrow> lua_table \<Rightarrow> ('l, lua_table) prog"
  where
  "set_fields ml [] t = ret t"
| "set_fields ml ((name, v) # fs) t =
     bind (lift v) (\<lambda>v. bind (lua_call (ml_table_set ml t name v)) (set_fields ml fs))"

text \<open>Calling the script, under a deadline when there is a timeout.\<close>

definition call_lua_filter :: "'l mlua \<Rightarrow> u64 \<Rightarrow> lua_table \<Rightarrow> ('l, bool) prog" where
  "call_lua_filter ml timeout table =
     (if timeout = 0 then lua_call (ml_call_bool ml ''filter'' table)
      else (\<lambda>l. case ml_set_hook ml timeout l of
          (Inl e, l1) \<Rightarrow>
            (Err (Message (''Failed to install Lua timeout hook for filter callback: '' @ e)), l1)
        | (Inr u, l1) \<Rightarrow> (case lua_call (ml_call_bool ml ''filter'' table) l1 of
              (r, l2) \<Rightarrow> (r, ml_remove_hook ml l2))))"

definition filter_by_lua ::
  "'l mlua \<Rightarrow> libs \<Rightarrow> u64 \<Rightarrow> s3_object \<Rightarrow> ('l, bool) prog" where
  "filter_by_lua ml lib timeout x =
     bind (lua_call (ml_create_table ml)) (\<lambda>t0.
     bind (set_fields ml (object_fields lib x) t0) (\<lambda>table.
     seq (lua_call (ml_get_function ml ''filter''))
       (call_lua_filter ml timeout table)))"

text \<open>The callback logs an error and returns what the script returned.\<close>

definition lua_filter ::
  "'l mlua \<Rightarrow> libs \<Rightarrow> 'l lua_callback \<Rightarrow> s3_object \<Rightarrow> bool result \<times> 'l lua_callback" where
  "lua_filter ml lib cb x =
     (case filter_by_lua ml lib (lc_callback_timeout cb) x (lc_engine cb) of
        (r, l) \<Rightarrow> (r, cb\<lparr> lc_engine := l \<rparr>))"


subsection \<open>The event callback\<close>

definition event_fields :: "event_data \<Rightarrow> (string \<times> lua_value) list" where
  "event_fields ed =
     [(''event_type'', LuaUnsigned (ed_event_type ed)),
      (''dry_run'', LuaBool (ed_dry_run ed)),
      (''key'', lua_opt LuaString (ed_key ed)),
      (''version_id'', lua_opt LuaString (ed_version_id ed)),
      (''size'', lua_opt LuaUnsigned (ed_size ed)),
      (''last_modified'', lua_opt LuaString (ed_last_modified ed)),
      (''e_tag'', lua_opt LuaString (ed_e_tag ed)),
      (''error_message'', lua_opt LuaString (ed_error_message ed)),
      (''message'', lua_opt LuaString (ed_message ed)),
      (''stats_deleted_objects'', lua_opt LuaUnsigned (ed_stats_deleted_objects ed)),
      (''stats_deleted_bytes'', lua_opt LuaUnsigned (ed_stats_deleted_bytes ed)),
      (''stats_failed_objects'', lua_opt LuaUnsigned (ed_stats_failed_objects ed)),
      (''stats_skipped_objects'', lua_opt LuaUnsigned (ed_stats_skipped_objects ed)),
      (''stats_error_count'', lua_opt LuaUnsigned (ed_stats_error_count ed)),
      (''stats_duration_sec'', lua_opt LuaNumber (ed_stats_duration_sec ed)),
      (''stats_objects_per_sec'', lua_opt LuaNumber (ed_stats_objects_per_sec ed))]"

text \<open>A field that cannot be set is left out.\<close>

fun set_event_fields :: "'l mlua \<Rightarrow> (string \<times> lua_value) list \<Rightarrow> lua_table \<Rightarrow> 'l \<Rightarrow> lua_table \<times> 'l"
  where
  "set_event_fields ml [] t l = (t, l)"
| "set_event_fields ml ((name, v) # fs) t l = (case ml_table_set ml t name v l of
       (Inr t', l') \<Rightarrow> set_event_fields ml fs t' l'
     | (Inl e, l') \<Rightarrow> set_event_fields ml fs t l')"

text \<open>Whatever fails is logged only; without a hook the script runs without a timeout.\<close>

definition lua_on_event :: "'l mlua \<Rightarrow> u64 \<Rightarrow> event_data \<Rightarrow> 'l \<Rightarrow> 'l" where
  "lua_on_event ml timeout ed l =
     (case ml_create_table ml l of
        (Inl e, l1) \<Rightarrow> l1
      | (Inr t0, l1) \<Rightarrow>
          (let (table, l2) = set_event_fields ml (event_fields ed) t0 l1 in
           case ml_get_function ml ''on_event'' l2 of
             (Inl e, l3) \<Rightarrow> l3
           | (Inr u, l3) \<Rightarrow>
               (let l4 = (if timeout \<noteq> 0 then snd (ml_set_hook ml timeout l3) else l3);
                    l5 = snd (ml_call_unit ml ''on_event'' table l4)
                in if timeout \<noteq> 0 then ml_remove_hook ml l5 else l5)))"


section \<open>Timeouts\<close>

text \<open>
  What the documentation of the interpreter says of hooks, for a predicate that tells whether
  one is installed: installing one does so unless it fails, removing clears it, and no other
  operation touches it.
\<close>

definition hooks_documented :: "'l mlua \<Rightarrow> ('l \<Rightarrow> bool) \<Rightarrow> bool" where
  "hooks_documented ml hooked \<longleftrightarrow>
     (\<forall>n l u l'. ml_set_hook ml n l = (Inr u, l') \<longrightarrow> hooked l') \<and>
     (\<forall>l. \<not> hooked (ml_remove_hook ml l)) \<and>
     (\<forall>l. hooked (snd (ml_create_table ml l)) = hooked l) \<and>
     (\<forall>t n v l. hooked (snd (ml_table_set ml t n v l)) = hooked l) \<and>
     (\<forall>n l. hooked (snd (ml_get_function ml n l)) = hooked l) \<and>
     (\<forall>n l e l'. ml_set_hook ml n l = (Inl e, l') \<longrightarrow> hooked l' = hooked l) \<and>
     (\<forall>n t l. hooked (snd (ml_call_bool ml n t l)) = hooked l) \<and>
     (\<forall>n t l. hooked (snd (ml_call_unit ml n t l)) = hooked l)"

lemma keeps_lua_call:
  assumes "\<And>l. hooked (snd (f l)) = hooked l"
  shows "keeps (\<lambda>l. \<not> hooked l) (lua_call f)"
proof -
  have "hooked (snd (lua_call f l)) = hooked l" for l
    using assms [of l] by (auto simp: lua_call_def split: prod.splits sum.splits)
  then show ?thesis by (simp add: keeps_def)
qed

lemma keeps_set_fields:
  "hooks_documented ml hooked \<Longrightarrow> keeps (\<lambda>l. \<not> hooked l) (set_fields ml fs t)"
proof (induction fs arbitrary: t)
  case (Cons f fs)
  then show ?case
    by (cases f) (auto intro!: keeps_intros keeps_lua_call simp: hooks_documented_def)
qed (auto intro: keeps_intros)

lemma keeps_call_lua_filter:
  assumes "hooks_documented ml hooked"
  shows "keeps (\<lambda>l. \<not> hooked l) (call_lua_filter ml timeout table)"
proof (cases "timeout = 0")
  case True
  with assms show ?thesis
    by (auto simp: call_lua_filter_def hooks_documented_def intro!: keeps_lua_call)
next
  case False
  with assms show ?thesis
    by (auto simp: call_lua_filter_def hooks_documented_def keeps_def split: prod.splits sum.splits)
qed

lemma hooked_set_event_fields:
  "hooks_documented ml hooked \<Longrightarrow> hooked (snd (set_event_fields ml fs t l)) = hooked l"
proof (induction fs arbitrary: t l)
  case (Cons f fs)
  obtain name v where f: "f = (name, v)" by fastforce
  obtain r l' where r: "ml_table_set ml t name v l = (r, l')" by fastforce
  with Cons.prems have "hooked l' = hooked l"
    unfolding hooks_documented_def by (metis snd_conv)
  with f r Cons show ?case by (cases r) simp_all
qed simp

text \<open>
  C34: a deadline never outlives the invocation it was set for: after a filter or an event
  callback, however it ended, no hook is left that would stop a later script, provided the
  interpreter treats hooks as documented.
\<close>

theorem lua_hook_never_left:
  assumes "hooks_documented ml hooked" and "\<not> hooked (lc_engine cb)" and "\<not> hooked l"
  shows "\<not> hooked (lc_engine (snd (lua_filter ml lib cb x))) \<and> \<not> hooked (lua_on_event ml timeout ed l)"
proof
  have "keeps (\<lambda>l. \<not> hooked l) (filter_by_lua ml lib (lc_callback_timeout cb) x)"
    unfolding filter_by_lua_def using assms(1)
    by (intro keeps_intros keeps_lua_call keeps_set_fields keeps_call_lua_filter)
      (simp_all add: hooks_documented_def)
  with assms(2) show "\<not> hooked (lc_engine (snd (lua_filter ml lib cb x)))"
    by (simp add: keeps_def lua_filter_def split_beta)
  show "\<not> hooked (lua_on_event ml timeout ed l)"
  proof (cases "ml_create_table ml l")
    case (Pair r l1)
    with assms(1,3) have 1: "\<not> hooked l1" unfolding hooks_documented_def by (metis snd_conv)
    show ?thesis
    proof (cases r)
      case (Inr t0)
      obtain table l2 where s: "set_event_fields ml (event_fields ed) t0 l1 = (table, l2)" by fastforce
      with 1 hooked_set_event_fields [OF assms(1), of "event_fields ed" t0 l1] have 2: "\<not> hooked l2" by simp
      obtain q l3 where g: "ml_get_function ml ''on_event'' l2 = (q, l3)" by fastforce
      with assms(1) 2 have 3: "\<not> hooked l3" unfolding hooks_documented_def by (metis snd_conv)
      with assms(1) Pair Inr s g show ?thesis
        by (cases q) (auto simp: lua_on_event_def hooks_documented_def Let_def)
    qed (use Pair 1 in \<open>simp add: lua_on_event_def\<close>)
  qed
qed

text \<open>An interpreter that only remembers whether a hook is installed.\<close>

definition demo_lua :: "bool mlua" where
  "demo_lua = \<lparr> ml_new = False, ml_new_with_safe_libs = Some False, ml_unsafe_new = False,
     ml_set_memory_limit = (\<lambda>n l. Some l), ml_exec = (\<lambda>s l. (Inr (), l)),
     ml_create_table = (\<lambda>l. (Inr [], l)), ml_table_set = (\<lambda>t n v l. (Inr (t @ [(n, v)]), l)),
     ml_get_function = (\<lambda>n l. (Inr (), l)), ml_set_hook = (\<lambda>n l. (Inr (), True)),
     ml_remove_hook = (\<lambda>l. False), ml_call_bool = (\<lambda>n t l. (Inl ''timed out'', l)),
     ml_call_unit = (\<lambda>n t l. (Inr (), l)) \<rparr>"

theorem lua_hook_never_left_witness:
  "\<not> lc_engine (snd (lua_filter demo_lua demo_libs \<lparr> lc_engine = False, lc_callback_timeout = 5 \<rparr>
       (s3_object_new ''a'' 1)))
    \<and> \<not> lua_on_event demo_lua 5 (event_data_new PIPELINE_START) False"
  by (rule lua_hook_never_left [where hooked = "\<lambda>l. l"])
    (auto simp: hooks_documented_def demo_lua_def)

end
