(* ===== verification/Args.thy ===== *)
theory Args
  imports Lua
begin

text \<open>
  From the command line to a configuration (\<open>src/config/args/mod.rs\<close> and the value parsers of
  \<open>src/config/args/value_parser/\<close>): the arguments as \<open>clap\<close> hands them over, their defaults, the
  parsers of single values, and the conversion into a \<open>config\<close>, built with Lua support as by
  default. What the parsers take from other crates and the file system is the record \<open>arg_libs\<close>.
\<close>

section \<open>Value parsers\<close>

record 'l arg_libs =
  al_byte_from_str :: "string \<Rightarrow> string + nat" \<comment> \<open>a size in bytes, or the error's text\<close>
  al_url_scheme :: "string \<Rightarrow> string + string" \<comment> \<open>the scheme of a parsed URL\<close>
  al_regex_valid :: "string \<Rightarrow> bool"
  al_is_file :: "string \<Rightarrow> bool"
  al_read_file :: "string \<Rightarrow> anyhow + string"
  al_from_utf8 :: "string \<Rightarrow> anyhow + string"
  al_mlua :: "'l mlua"

type_synonym 'a parsed = "(string, 'a) outcome"

definition ERROR_MESSAGE_INVALID_TARGET :: string where
  "ERROR_MESSAGE_INVALID_TARGET = ''target must be an S3 path (e.g. s3://bucket/prefix)''"

definition check_s3_target :: "string \<Rightarrow> string parsed" where
  "check_s3_target s =
     (if starts_with s s3_scheme \<and> 5 < length s then Ok s else Err ERROR_MESSAGE_INVALID_TARGET)"

definition try_from_int_error :: string where
  "try_from_int_error = ''out of range integral type conversion attempted''"

definition check_human_bytes :: "'l arg_libs \<Rightarrow> string \<Rightarrow> string parsed" where
  "check_human_bytes al s = (case al_byte_from_str al s of
       Inl e \<Rightarrow> Err e
     | Inr n \<Rightarrow> if n < 2 ^ 64 then Ok s else Err try_from_int_error)"

definition parse_human_bytes :: "'l arg_libs \<Rightarrow> string \<Rightarrow> u64 parsed" where
  "parse_human_bytes al s =
     obind (check_human_bytes al s) (\<lambda>_. case al_byte_from_str al s of
         Inl e \<Rightarrow> Err e
       | Inr n \<Rightarrow> if n < 2 ^ 64 then Ok (of_nat n)
                  else Panic ''check_human_bytes already validated u64 range'')"

definition parse_regex :: "'l arg_libs \<Rightarrow> string \<Rightarrow> string parsed" where
  "parse_regex al re = (if \<not> al_regex_valid al re then Err ''Invalid regular expression'' else Ok re)"

definition check_scheme :: "'l arg_libs \<Rightarrow> string \<Rightarrow> string parsed" where
  "check_scheme al url = (case al_url_scheme al url of
       Inl e \<Rightarrow> Err e
     | Inr scheme \<Rightarrow>
         if scheme \<noteq> ''https'' \<and> scheme \<noteq> ''http''
         then Err ''URL scheme must be https:// or http://'' else Ok url)"

definition is_file_exist :: "'l arg_libs \<Rightarrow> string \<Rightarrow> string parsed" where
  "is_file_exist al path =
     (if al_is_file al path then Ok path else Err (''file not found: '' @ path))"


section \<open>The arguments\<close>

record cli_args =
  arg_target :: string
  arg_dry_run :: bool
  arg_force :: bool
  arg_show_no_progress :: bool
  arg_delete_all_versions :: bool
  arg_max_delete :: "u64 option"
  arg_keep_latest_only :: bool
  arg_filter_delete_marker_only :: bool
  arg_filter_include_regex :: "string option"
  arg_filter_exclude_regex :: "string option"
  arg_filter_include_content_type_regex :: "string option"
  arg_filter_exclude_content_type_regex :: "string option"
  arg_filter_include_metadata_regex :: "string option"
  arg_filter_exclude_metadata_regex :: "string option"
  arg_filter_include_tag_regex :: "string option"
  arg_filter_exclude_tag_regex :: "string option"
  arg_filter_mtime_before :: "chrono option"
  arg_filter_mtime_after :: "chrono option"
  arg_filter_smaller_size :: "string option"
  arg_filter_larger_size :: "string option"
  arg_verbosity :: "log_level option" \<comment> \<open>the level \<open>clap_verbosity_flag\<close> computes from the flags\<close>
  arg_json_tracing :: bool
  arg_aws_sdk_tracing :: bool
  arg_span_events_tracing :: bool
  arg_disable_color_tracing :: bool
  arg_aws_config_file :: "string option"
  arg_aws_shared_credentials_file :: "string option"
  arg_target_profile :: "string option"
  arg_target_access_key :: "string option"
  arg_target_secret_access_key :: "string option"
  arg_target_session_token :: "string option"
  arg_target_region :: "string option"
  arg_target_endpoint_url :: "string option"
  arg_target_force_path_style :: bool
  arg_target_accelerate :: bool
  arg_target_request_payer :: bool
  arg_disable_stalled_stream_protection :: bool
  arg_worker_size :: u16
  arg_batch_size :: u16
  arg_max_parallel_listings :: u16
  arg_max_parallel_listing_max_depth :: u16
  arg_rate_limit_objects :: "u32 option"
  arg_object_listing_queue_size :: u32
  arg_allow_parallel_listings_in_express_one_zone :: bool
  arg_aws_max_attempts :: u32
  arg_initial_backoff_milliseconds :: u64
  arg_force_retry_count :: u32
  arg_force_retry_interval_milliseconds :: u64
  arg_operation_timeout_milliseconds :: "u64 option"
  arg_operation_attempt_timeout_milliseconds :: "u64 option"
  arg_connect_timeout_milliseconds :: "u64 option"
  arg_read_timeout_milliseconds :: "u64 option"
  arg_filter_callback_lua_script :: "string option"
  arg_event_callback_lua_script :: "string option"
  arg_allow_lua_os_library :: bool
  arg_lua_vm_memory_limit :: string
  arg_lua_callback_timeout :: u64
  arg_if_match :: bool
  arg_warn_as_error :: bool
  arg_max_keys :: i32
  arg_auto_complete_shell :: "shell option"
  arg_allow_lua_unsafe_vm :: bool

definition DEFAULT_BATCH_SIZE :: u16 where
  "DEFAULT_BATCH_SIZE = 200"

text \<open>The arguments of a command line that names the target only.\<close>

definition cli_args_default :: "string \<Rightarrow> cli_args" where
  "cli_args_default t =
     \<lparr> arg_target = t, arg_dry_run = False, arg_force = False, arg_show_no_progress = False,
       arg_delete_all_versions = False, arg_max_delete = None, arg_keep_latest_only = False,
       arg_filter_delete_marker_only = False,
       arg_filter_include_regex = None, arg_filter_exclude_regex = None,
       arg_filter_include_content_type_regex = None, arg_filter_exclude_content_type_regex = None,
       arg_filter_include_metadata_regex = None, arg_filter_exclude_metadata_regex = None,
       arg_filter_include_tag_regex = None, arg_filter_exclude_tag_regex = None,
       arg_filter_mtime_before = None, arg_filter_mtime_after = None,
       arg_filter_smaller_size = None, arg_filter_larger_size = None,
       arg_verbosity = Some LWarn, arg_json_tracing = False, arg_aws_sdk_tracing = False,
       arg_span_events_tracing = False, arg_disable_color_tracing = False,
       arg_aws_config_file = None, arg_aws_shared_credentials_file = None,
       arg_target_profile = None, arg_target_access_key = None,
       arg_target_secret_access_key = None, arg_target_session_token = None,
       arg_target_region = None, arg_target_endpoint_url = None,
       arg_target_force_path_style = False, arg_target_accelerate = False,
       arg_target_request_payer = False, arg_disable_stalled_stream_protection = False,
       arg_worker_size = 16, arg_batch_size = DEFAULT_BATCH_SIZE, arg_max_parallel_listings = 16,
       arg_max_parallel_listing_max_depth = 2, arg_rate_limit_objects = None,
       arg_object_listing_queue_size = 200000,
       arg_allow_parallel_listings_in_express_one_zone = False,
       arg_aws_max_attempts = 10, arg_initial_backoff_milliseconds = 100,
       arg_force_retry_count = 0, arg_force_retry_interval_milliseconds = 1000,
       arg_operation_timeout_milliseconds = None,
       arg_operation_attempt_timeout_milliseconds = None,
       arg_connect_timeout_milliseconds = None, arg_read_timeout_milliseconds = None,
       arg_filter_callback_lua_script = None, arg_event_callback_lua_script = None,
       arg_allow_lua_os_library = False, arg_lua_vm_memory_limit = ''64MiB'',
       arg_lua_callback_timeout = 10000, arg_if_match = False, arg_warn_as_error = False,
       arg_max_keys = 1000, arg_auto_complete_shell = None, arg_allow_lua_unsafe_vm = False \<rparr>"

text \<open>
  What the range parsers of the numeric arguments admit.
\<close>

definition within_ranges :: "cli_args \<Rightarrow> bool" where
  "within_ranges a \<longleftrightarrow>
     (case arg_max_delete a of Some n \<Rightarrow> 1 \<le> n | None \<Rightarrow> True)
     \<and> 1 \<le> arg_worker_size a
     \<and> 1 \<le> arg_batch_size a \<and> arg_batch_size a \<le> 1000
     \<and> 1 \<le> arg_max_parallel_listings a
     \<and> 1 \<le> arg_max_parallel_listing_max_depth a
     \<and> (case arg_rate_limit_objects a of Some n \<Rightarrow> 10 \<le> n | None \<Rightarrow> True)
     \<and> 1 \<le> arg_object_listing_queue_size a
     \<and> 1 \<le> sint (arg_max_keys a) \<and> sint (arg_max_keys a) \<le> 32767"


section \<open>Building the parts of the configuration\<close>

text \<open>The closure \<open>compile_regex\<close>: the value parser has already compiled the pattern once.\<close>

definition compile_regex :: "'l arg_libs \<Rightarrow> string option \<Rightarrow> regex option parsed" where
  "compile_regex al p = (case p of
       None \<Rightarrow> Ok None
     | Some re \<Rightarrow> if al_regex_valid al re then Ok (Some re)
                  else Panic ''regex was already validated by value_parser'')"

definition parse_size_option ::
  "'l arg_libs \<Rightarrow> string \<Rightarrow> string option \<Rightarrow> u64 option parsed" where
  "parse_size_option al label v = (case v of
       None \<Rightarrow> Ok None
     | Some s \<Rightarrow> map_err (\<lambda>e. label @ e) (obind (parse_human_bytes al s) (\<lambda>n. Ok (Some n))))"

definition build_filter_config :: "'l arg_libs \<Rightarrow> cli_args \<Rightarrow> filter_config parsed" where
  "build_filter_config al a =
     obind (parse_size_option al ''Invalid filter-larger-size: '' (arg_filter_larger_size a)) (\<lambda>larger.
     obind (parse_size_option al ''Invalid filter-smaller-size: '' (arg_filter_smaller_size a)) (\<lambda>smaller.
     obind (compile_regex al (arg_filter_include_regex a)) (\<lambda>inc.
     obind (compile_regex al (arg_filter_exclude_regex a)) (\<lambda>exc.
     obind (compile_regex al (arg_filter_include_content_type_regex a)) (\<lambda>inc_ct.
     obind (compile_regex al (arg_filter_exclude_content_type_regex a)) (\<lambda>exc_ct.
     obind (compile_regex al (arg_filter_include_metadata_regex a)) (\<lambda>inc_md.
     obind (compile_regex al (arg_filter_exclude_metadata_regex a)) (\<lambda>exc_md.
     obind (compile_regex al (arg_filter_include_tag_regex a)) (\<lambda>inc_tag.
     obind (compile_regex al (arg_filter_exclude_tag_regex a)) (\<lambda>exc_tag.
     Ok \<lparr> before_time = arg_filter_mtime_before a, after_time = arg_filter_mtime_after a,
          include_regex = inc, exclude_regex = exc,
          include_content_type_regex = inc_ct, exclude_content_type_regex = exc_ct,
          include_metadata_regex = inc_md, exclude_metadata_regex = exc_md,
          include_tag_regex = inc_tag, exclude_tag_regex = exc_tag,
          larger_size = larger, smaller_size = smaller,
          keep_latest_only = arg_keep_latest_only a,
          delete_marker_only = arg_filter_delete_marker_only a \<rparr>))))))))))"

definition build_client_config :: "cli_args \<Rightarrow> client_config option" where
  "build_client_config a =
     (let credential = (case arg_target_profile a of
            Some profile \<Rightarrow> Profile profile
          | None \<Rightarrow> (case arg_target_access_key a of
                Some key \<Rightarrow> Credentials \<lparr> access_key = key,
                    secret_access_key = unwrap_or (arg_target_secret_access_key a) [],
                    session_token = arg_target_session_token a \<rparr>
              | None \<Rightarrow> FromEnvironment));
          payer = (if arg_target_request_payer a then Some Requester else None)
      in Some \<lparr> cc_client_config_location =
             \<lparr> aws_config_file = arg_aws_config_file a,
               aws_shared_credentials_file = arg_aws_shared_credentials_file a \<rparr>,
           cc_credential = credential, cc_region = arg_target_region a,
           cc_endpoint_url = arg_target_endpoint_url a,
           cc_force_path_style = arg_target_force_path_style a,
           cc_accelerate = arg_target_accelerate a, cc_request_payer = payer,
           cc_retry_config =
             \<lparr> aws_max_attempts = arg_aws_max_attempts a,
               initial_backoff_milliseconds = arg_initial_backoff_milliseconds a \<rparr>,
           cc_cli_timeout_config =
             \<lparr> operation_timeout_milliseconds = arg_operation_timeout_milliseconds a,
               operation_attempt_timeout_milliseconds = arg_operation_attempt_timeout_milliseconds a,
               connect_timeout_milliseconds = arg_connect_timeout_milliseconds a,
               read_timeout_milliseconds = arg_read_timeout_milliseconds a \<rparr>,
           cc_disable_stalled_stream_protection = arg_disable_stalled_stream_protection a,
           cc_request_checksum_calculation = WhenRequired \<rparr>)"

text \<open>A dry run shows the default level as \<open>Info\<close>, and leaves an explicit one alone.\<close>

definition build_tracing_config :: "cli_args \<Rightarrow> bool \<Rightarrow> tracing_config option" where
  "build_tracing_config a dry =
     (let tc = map_option (\<lambda>level.
            \<lparr> tc_tracing_level = level, tc_json_tracing = arg_json_tracing a,
              tc_aws_sdk_tracing = arg_aws_sdk_tracing a,
              tc_span_events_tracing = arg_span_events_tracing a,
              tc_disable_color_tracing = arg_disable_color_tracing a \<rparr>) (arg_verbosity a)
      in if dry then map_option (\<lambda>c.
             if tc_tracing_level c = LWarn then c\<lparr> tc_tracing_level := LInfo \<rparr> else c) tc
         else tc)"

definition parse_target :: "cli_args \<Rightarrow> storage_path parsed" where
  "parse_target a =
     obind (slice_from (arg_target a) 5) (\<lambda>without_scheme.
       let (b, p) = (case find_char slash without_scheme of
             Some idx \<Rightarrow> (take idx without_scheme, drop (Suc idx) without_scheme)
           | None \<Rightarrow> (without_scheme, []))
       in if b = [] then Err ERROR_MESSAGE_INVALID_TARGET else Ok (S3 b p))"


section \<open>The configuration\<close>

definition EXPRESS_ONEZONE_STORAGE_SUFFIX :: string where
  "EXPRESS_ONEZONE_STORAGE_SUFFIX = ''--x-s3''"

definition is_express_bucket :: "string \<Rightarrow> bool" where
  "is_express_bucket b \<longleftrightarrow> ends_with b EXPRESS_ONEZONE_STORAGE_SUFFIX"

definition express_batch_size :: "cli_args \<Rightarrow> storage_path \<Rightarrow> u16" where
  "express_batch_size a t =
     (if is_express_bucket (sp_bucket t) \<and> \<not> arg_allow_parallel_listings_in_express_one_zone a
      then 1 else arg_batch_size a)"

definition rate_limit_message :: "u32 \<Rightarrow> u16 \<Rightarrow> string" where
  "rate_limit_message limit batch =
     ''--rate-limit-objects ('' @ show_word limit @ '') must be greater than or equal to --batch-size (''
     @ show_word batch @ '').''"

text \<open>Creating and loading one Lua callback; the callback itself is the environment's from then on.\<close>

definition load_lua_callback ::
  "'l arg_libs \<Rightarrow> cli_args \<Rightarrow> nat \<Rightarrow> string \<Rightarrow> string \<Rightarrow> unit parsed" where
  "load_lua_callback al a limit label path =
     (case lua_callback_new (al_mlua al) limit (arg_allow_lua_os_library a)
             (arg_allow_lua_unsafe_vm a) (arg_lua_callback_timeout a) of
        Panic m \<Rightarrow> Panic m
      | Err e \<Rightarrow> Err (anyhow_display e)
      | Ok cb \<Rightarrow>
          (case lua_callback_load (al_mlua al) (al_read_file al) (al_from_utf8 al) path
                  (lc_engine cb) of
             (Ok u, l) \<Rightarrow> Ok ()
           | (Err e, l) \<Rightarrow> Err (label @ anyhow_display e)
           | (Panic m, l) \<Rightarrow> Panic m))"

definition build_filter_manager ::
  "'l arg_libs \<Rightarrow> cli_args \<Rightarrow> nat \<Rightarrow> filter_manager parsed" where
  "build_filter_manager al a limit = (case arg_filter_callback_lua_script a of
       None \<Rightarrow> Ok filter_manager_new
     | Some path \<Rightarrow>
         obind (load_lua_callback al a limit ''Failed to load filter Lua script: '' path)
           (\<lambda>u. Ok (fm_register_callback filter_manager_new)))"

definition build_event_manager ::
  "'l arg_libs \<Rightarrow> cli_args \<Rightarrow> nat \<Rightarrow> event_manager parsed" where
  "build_event_manager al a limit = (case arg_event_callback_lua_script a of
       None \<Rightarrow> Ok event_manager_new
     | Some path \<Rightarrow>
         obind (load_lua_callback al a limit ''Failed to load event Lua script: '' path)
           (\<lambda>u. Ok (em_register_callback ALL_EVENTS (arg_dry_run a) event_manager_new)))"

definition config_try_from :: "'l arg_libs \<Rightarrow> cli_args \<Rightarrow> config parsed" where
  "config_try_from al a =
     obind (parse_target a) (\<lambda>t.
     obind (build_filter_config al a) (\<lambda>fc.
     let batch = express_batch_size a t;
         rate_error = (case arg_rate_limit_objects a of
             Some limit \<Rightarrow> if limit < ucast batch then Some (rate_limit_message limit batch) else None
           | None \<Rightarrow> None)
     in case rate_error of
       Some m \<Rightarrow> Err m
     | None \<Rightarrow>
     obind (map_err (\<lambda>e. ''Invalid lua-vm-memory-limit: '' @ e)
              (parse_human_bytes al (arg_lua_vm_memory_limit a))) (\<lambda>memory.
     obind (build_filter_manager al a (unat memory)) (\<lambda>fm.
     obind (build_event_manager al a (unat memory)) (\<lambda>em.
     Ok \<lparr> target = t, show_no_progress = arg_show_no_progress a,
          target_client_config = build_client_config a,
          force_retry_config =
            \<lparr> force_retry_count = arg_force_retry_count a,
              force_retry_interval_milliseconds = arg_force_retry_interval_milliseconds a \<rparr>,
          tracing_config = build_tracing_config a (arg_dry_run a),
          worker_size = arg_worker_size a, warn_as_error = arg_warn_as_error a,
          dry_run = arg_dry_run a, rate_limit_objects = arg_rate_limit_objects a,
          max_parallel_listings = arg_max_parallel_listings a,
          object_listing_queue_size = arg_object_listing_queue_size a,
          max_parallel_listing_max_depth = arg_max_parallel_listing_max_depth a,
          allow_parallel_listings_in_express_one_zone =
            arg_allow_parallel_listings_in_express_one_zone a,
          filter_config = fc, max_keys = arg_max_keys a,
          auto_complete_shell = arg_auto_complete_shell a,
          event_callback_lua_script = arg_event_callback_lua_script a,
          filter_callback_lua_script = arg_filter_callback_lua_script a,
          allow_lua_os_library = arg_allow_lua_os_library a,
          allow_lua_unsafe_vm = arg_allow_lua_unsafe_vm a,
          lua_vm_memory_limit = unat memory,
          lua_callback_timeout_milliseconds = arg_lua_callback_timeout a,
          if_match = arg_if_match a, max_delete = arg_max_delete a,
          filter_manager = fm, event_manager = em, batch_size = batch,
          delete_all_versions = arg_delete_all_versions a, force = arg_force a,
          test_user_defined_callback = False \<rparr>)))))"

text \<open>The public entry points, on top of what \<open>clap\<close> makes of the command line.\<close>

definition parse_from_args :: "('i \<Rightarrow> string + cli_args) \<Rightarrow> 'i \<Rightarrow> string + cli_args" where
  "parse_from_args clap args = clap args"

definition build_config_from_args ::
  "('i \<Rightarrow> string + cli_args) \<Rightarrow> 'l arg_libs \<Rightarrow> 'i \<Rightarrow> config parsed" where
  "build_config_from_args clap al args = (case parse_from_args clap args of
       Inl e \<Rightarrow> Err e
     | Inr a \<Rightarrow> config_try_from al a)"

end
