(* ===== verification/Stage.thy ===== *)
theory Stage
  imports Demo
begin

text \<open>
  What every pipeline stage uses (\<open>src/stage.rs\<close>): sending an object downstream, sending a
  statistic, the warning flag and the cancellation token (\<open>src/types/token.rs\<close>).

  The objects a stage will receive are a list, after which its input channel is closed; the
  stages are recursive functions over that list. The token is a flag of the shared state which
  other tasks may set at any time, so a look at it consults the world first.
\<close>

section \<open>The cancellation token\<close>

definition cancel :: "('w sys, unit) prog" where
  "cancel = update (\<lambda>s. s\<lparr> cancelled := True \<rparr>)"

definition is_cancelled :: "'w env \<Rightarrow> ('w sys, bool) prog" where
  "is_cancelled env = (\<lambda>s.
     let (c, w) = env_cancel env (world s);
         s' = s\<lparr> world := w, cancelled := cancelled s \<or> c \<rparr>
     in (Ok (cancelled s'), s'))"

text \<open>
  \<open>tokio::select!\<close> between a receive that is ready and \<open>cancelled()\<close>: the cancellation branch
  may be taken only once the token is cancelled, and need not be taken then.
\<close>

definition select_cancelled :: "'w env \<Rightarrow> ('w sys, bool) prog" where
  "select_cancelled env = bind (is_cancelled env) (\<lambda>c. (\<lambda>s.
     let (b, w) = env_select env (world s) in (Ok (c \<and> b), s\<lparr> world := w \<rparr>)))"


section \<open>The stage operations\<close>

datatype send_result = SendSuccess | SendClosed

definition stage_send :: "'w env \<Rightarrow> s3_object \<Rightarrow> ('w sys, send_result) prog" where
  "stage_send env obj = (\<lambda>s. case env_send env (sent s) of
       Accepts \<Rightarrow> (Ok SendSuccess, s\<lparr> sent := sent s @ [obj] \<rparr>)
     | ReceiverGone \<Rightarrow> (Ok SendClosed, s)
     | SendFails m \<Rightarrow> (Err (Context ''async_channel::Sender::send() failed.'' (Message m)), s))"

definition send_stats :: "deletion_statistics \<Rightarrow> ('w sys, unit) prog" where
  "send_stats d = update (\<lambda>s.
     if stats_closed s then s else s\<lparr> stats_channel := stats_channel s @ [d] \<rparr>)"

definition set_warning :: "('w sys, unit) prog" where
  "set_warning = update (\<lambda>s. s\<lparr> has_warning := True \<rparr>)"

definition trigger :: "'w env \<Rightarrow> config \<Rightarrow> event_data \<Rightarrow> ('w sys, unit) prog" where
  "trigger env cfg ed = update (trigger_event env (event_manager cfg) ed)"


section \<open>Facts about the operations\<close>

lemma cancel_run [simp]: "cancel s = (Ok (), s\<lparr> cancelled := True \<rparr>)"
  by (simp add: cancel_def)

lemma send_stats_run [simp]:
  "send_stats d s =
     (Ok (), if stats_closed s then s else s\<lparr> stats_channel := stats_channel s @ [d] \<rparr>)"
  by (simp add: send_stats_def)

lemma set_warning_run [simp]: "set_warning s = (Ok (), s\<lparr> has_warning := True \<rparr>)"
  by (simp add: set_warning_def)

lemma trigger_run [simp]:
  "trigger env cfg ed s = (Ok (), trigger_event env (event_manager cfg) ed s)"
  by (simp add: trigger_def)

lemma seq_run_simps [simp]:
  "seq cancel n s = n (s\<lparr> cancelled := True \<rparr>)"
  "seq (send_stats d) n s =
     n (if stats_closed s then s else s\<lparr> stats_channel := stats_channel s @ [d] \<rparr>)"
  "seq set_warning n s = n (s\<lparr> has_warning := True \<rparr>)"
  "seq (trigger env cfg ed) n s = n (trigger_event env (event_manager cfg) ed s)"
  by (simp_all add: seq_Ok)

text \<open>
  A quiet environment: no other task cancels, and every send finds room. Exact results of the
  stages are stated for it; the safety theorems hold for every environment.
\<close>

definition quiet :: "'w env \<Rightarrow> bool" where
  "quiet env \<longleftrightarrow> (\<forall>w. env_cancel env w = (False, w)) \<and> (\<forall>w. env_select env w = (False, w)) \<and> (\<forall>xs. env_send env xs = Accepts)"

lemma quiet_is_cancelled: "quiet env \<Longrightarrow> is_cancelled env s = (Ok (cancelled s), s)"
  by (simp add: quiet_def is_cancelled_def)

lemma quiet_select_cancelled:
  "quiet env \<Longrightarrow> select_cancelled env s = (Ok False, s)"
  by (simp add: select_cancelled_def bind_def quiet_def is_cancelled_def)

lemma quiet_stage_send:
  "quiet env \<Longrightarrow> stage_send env obj s = (Ok SendSuccess, s\<lparr> sent := sent s @ [obj] \<rparr>)"
  by (simp add: quiet_def stage_send_def)

lemma is_cancelled_cases:
  obtains w c where "is_cancelled env s = (Ok c, s\<lparr> world := w, cancelled := c \<rparr>)"
    and "cancelled s \<Longrightarrow> c"
  by (cases "env_cancel env (world s)") (auto simp: is_cancelled_def Let_def)

text \<open>
  The interface every stage relies on: operations of the shared state that leave the deletion
  counters alone. A stage computation built from them leaves them alone too.
\<close>

definition same_counters :: "'w sys \<Rightarrow> 'w sys \<Rightarrow> bool" where
  "same_counters s0 s \<longleftrightarrow> report s = report s0 \<and> delete_counter s = delete_counter s0"

lemma keeps_counters_basic [keeps_intros]:
  "keeps (same_counters s0) cancel" "keeps (same_counters s0) (is_cancelled env)"
  "keeps (same_counters s0) (select_cancelled env)" "keeps (same_counters s0) (stage_send env obj)"
  "keeps (same_counters s0) (send_stats d)" "keeps (same_counters s0) set_warning"
  "keeps (same_counters s0) (trigger env cfg ed)"
  by (auto simp: keeps_def same_counters_def is_cancelled_def select_cancelled_def bind_def
      stage_send_def Let_def split: prod.splits send_env.splits)

end
