(* ===== verification/Safety.thy ===== *)
theory Safety
  imports Stage
begin

text \<open>
  The safety checks before a deletion (\<open>src/safety/mod.rs\<close>): the decision flow over dry-run,
  force, the terminal and the confirmation prompt, and the text the prompt prints.
\<close>

section \<open>Trimming the answer\<close>

text \<open>
  \<open>str::trim\<close> removes the characters with the Unicode property \<open>White_Space\<close> from both ends.
  These are their UTF-8 encodings.
\<close>

definition whitespace_encodings :: "string list" where
  "whitespace_encodings =
     map (\<lambda>n. [char_of (n :: nat)]) [9, 10, 11, 12, 13, 32]
     @ [[CHR 0xC2, CHR 0x85], [CHR 0xC2, CHR 0xA0], [CHR 0xE1, CHR 0x9A, CHR 0x80]]
     @ map (\<lambda>n. [CHR 0xE2, CHR 0x80, char_of (n :: nat)])
         [128, 129, 130, 131, 132, 133, 134, 135, 136, 137, 138, 168, 169, 175]
     @ [[CHR 0xE2, CHR 0x81, CHR 0x9F], [CHR 0xE3, CHR 0x80, CHR 0x80]]"

fun strip_encoding :: "string list \<Rightarrow> string \<Rightarrow> string option" where
  "strip_encoding [] s = None"
| "strip_encoding (w # ws) s =
     (if w \<noteq> [] \<and> starts_with s w then Some (drop (length w) s) else strip_encoding ws s)"

lemma strip_encoding_shorter: "strip_encoding ws s = Some r \<Longrightarrow> length r < length s"
  by (induction ws) (auto simp: starts_with_iff split: if_splits)

function trim_front :: "string list \<Rightarrow> string \<Rightarrow> string" where
  "trim_front ws s = (case strip_encoding ws s of None \<Rightarrow> s | Some r \<Rightarrow> trim_front ws r)"
  by pat_completeness auto
termination
  by (relation "measure (\<lambda>(ws, s). length s)") (auto dest: strip_encoding_shorter)

declare trim_front.simps [simp del]

definition trim :: "string \<Rightarrow> string" where
  "trim s = rev (trim_front (map rev whitespace_encodings)
                   (rev (trim_front whitespace_encodings s)))"


lemma trim_examples:
  "trim (''yes'' @ [CHR 0x0A]) = ''yes''" "trim '' yes '' = ''yes''" "trim ''yes!'' = ''yes!''"
  by code_simp+


section \<open>The prompt\<close>

definition ANSI_BOLD_RED :: string where
  "ANSI_BOLD_RED = CHR 0x1B # ''[1;31m''"
definition ANSI_BOLD_YELLOW :: string where
  "ANSI_BOLD_YELLOW = CHR 0x1B # ''[1;33m''"
definition ANSI_RESET :: string where
  "ANSI_RESET = CHR 0x1B # ''[0m''"

abbreviation newline :: string where
  "newline \<equiv> [CHR 0x0A]"

definition confirmation_text :: "string \<Rightarrow> bool \<Rightarrow> bool \<Rightarrow> string" where
  "confirmation_text target_display use_color whole_bucket =
     (if use_color then
        (if whole_bucket then
           newline @ ANSI_BOLD_RED @ ''WARNING:'' @ ANSI_RESET @ '' '' @ ANSI_BOLD_RED @ ''ALL''
             @ ANSI_RESET @ '' objects in bucket '' @ ANSI_BOLD_YELLOW @ target_display @ ANSI_RESET
             @ '' will be deleted (no prefix specified).'' @ newline
         else
           newline @ ANSI_BOLD_RED @ ''WARNING:'' @ ANSI_RESET @ '' All objects under prefix ''
             @ ANSI_BOLD_YELLOW @ target_display @ ANSI_RESET @ '' will be deleted.'' @ newline)
      else
        (if whole_bucket then
           newline @ ''WARNING: ALL objects in bucket '' @ target_display
             @ '' will be deleted (no prefix specified).'' @ newline
         else
           newline @ ''WARNING: All objects under prefix '' @ target_display
             @ '' will be deleted.'' @ newline))
     @ ''         If versioning is not enabled on the bucket, deleted objects cannot be recovered.''
     @ newline @ newline
     @ ''Use --dry-run to preview which objects would be deleted without actually removing them.''
     @ newline @ newline
     @ ''Type 'yes' to confirm deletion: ''"

text \<open>Printing the text and reading a line; a failing read is an error.\<close>

definition read_confirmation ::
  "'w env \<Rightarrow> string \<Rightarrow> bool \<Rightarrow> bool \<Rightarrow> ('w sys, string) prog" where
  "read_confirmation env target_display use_color whole_bucket = (\<lambda>s.
     let (r, w) = env_read_line env (confirmation_text target_display use_color whole_bucket) (world s)
     in (obind r (\<lambda>line. Ok (trim line)), s\<lparr> world := w \<rparr>))"


section \<open>Prompt handlers\<close>

text \<open>The trait \<open>PromptHandler\<close>, and its implementation over the standard streams.\<close>

record 'w prompt_handler =
  ph_read_confirmation :: "string \<Rightarrow> bool \<Rightarrow> bool \<Rightarrow> ('w sys, string) prog"
  ph_is_interactive :: bool

definition stdio_prompt_handler :: "'w env \<Rightarrow> 'w prompt_handler" where
  "stdio_prompt_handler env =
     \<lparr> ph_read_confirmation = read_confirmation env, ph_is_interactive = env_is_terminal env \<rparr>"

lemma stdio_prompt_handler_simps [simp]:
  "ph_read_confirmation (stdio_prompt_handler env) = read_confirmation env"
  "ph_is_interactive (stdio_prompt_handler env) = env_is_terminal env"
  by (simp_all add: stdio_prompt_handler_def)


section \<open>The checker\<close>

record 'w safety_checker =
  sc_dry_run :: bool
  sc_force :: bool
  sc_json_logging :: bool
  sc_disable_color :: bool
  sc_target_display :: string
  sc_whole_bucket :: bool
  sc_prompt_handler :: "'w prompt_handler"

definition format_target :: "storage_path \<Rightarrow> string" where
  "format_target t =
     (if sp_prefix t = [] then s3_scheme @ sp_bucket t @ ''/''
      else s3_scheme @ sp_bucket t @ ''/'' @ sp_prefix t)"

definition is_whole_bucket :: "storage_path \<Rightarrow> bool" where
  "is_whole_bucket t \<longleftrightarrow> sp_prefix t = []"

definition safety_checker_new :: "'w env \<Rightarrow> config \<Rightarrow> 'w safety_checker" where
  "safety_checker_new env cfg =
     \<lparr> sc_dry_run = dry_run cfg, sc_force = force cfg,
       sc_json_logging = (case tracing_config cfg of Some tc \<Rightarrow> tc_json_tracing tc | None \<Rightarrow> False),
       sc_disable_color =
         (case tracing_config cfg of Some tc \<Rightarrow> tc_disable_color_tracing tc | None \<Rightarrow> False),
       sc_target_display = format_target (target cfg),
       sc_whole_bucket = is_whole_bucket (target cfg),
       sc_prompt_handler = stdio_prompt_handler env \<rparr>"

definition with_prompt_handler :: "config \<Rightarrow> 'w prompt_handler \<Rightarrow> 'w safety_checker" where
  "with_prompt_handler cfg ph =
     \<lparr> sc_dry_run = dry_run cfg, sc_force = force cfg,
       sc_json_logging = (case tracing_config cfg of Some tc \<Rightarrow> tc_json_tracing tc | None \<Rightarrow> False),
       sc_disable_color =
         (case tracing_config cfg of Some tc \<Rightarrow> tc_disable_color_tracing tc | None \<Rightarrow> False),
       sc_target_display = format_target (target cfg),
       sc_whole_bucket = is_whole_bucket (target cfg),
       sc_prompt_handler = ph \<rparr>"

definition is_non_interactive :: "'w safety_checker \<Rightarrow> bool" where
  "is_non_interactive sc =
     (if sc_json_logging sc then True
      else if \<not> ph_is_interactive (sc_prompt_handler sc) then True
      else False)"

definition prompt_confirmation :: "'w safety_checker \<Rightarrow> ('w sys, unit) prog" where
  "prompt_confirmation sc =
     (let use_color = \<not> sc_disable_color sc in
      bind (ph_read_confirmation (sc_prompt_handler sc)
              (sc_target_display sc) use_color (sc_whole_bucket sc))
        (\<lambda>input. if input \<noteq> ''yes'' then throw (App Cancelled) else ret ()))"

definition non_interactive_message :: string where
  "non_interactive_message =
     ''Cannot run destructive operation without --force (-f) in a non-interactive environment (no TTY). ''
     @ ''Use --force to skip confirmation, or --dry-run to preview deletions.''"

definition check_before_deletion :: "'w safety_checker \<Rightarrow> ('w sys, unit) prog" where
  "check_before_deletion sc =
     (if sc_dry_run sc then ret ()
      else if sc_force sc then ret ()
      else if is_non_interactive sc then throw (App (InvalidConfig non_interactive_message))
      else prompt_confirmation sc)"

lemma safety_checker_new_handler:
  "safety_checker_new env cfg = with_prompt_handler cfg (stdio_prompt_handler env)"
  by (simp add: safety_checker_new_def with_prompt_handler_def)

lemma with_prompt_handler_handler [simp]:
  "sc_prompt_handler (with_prompt_handler cfg ph) = ph"
  "sc_prompt_handler (safety_checker_new env cfg) = stdio_prompt_handler env"
  by (simp_all add: safety_checker_new_def with_prompt_handler_def)


section \<open>The contract of a prompt handler\<close>

text \<open>
  All the checker relies on: a prompt may talk to the outside world, and touches nothing else of
  the run.
\<close>

locale confirmation_prompt =
  fixes ph :: "'w prompt_handler"
  assumes asks_only_the_world: "\<exists>w. snd (ph_read_confirmation ph t c b s) = s\<lparr> world := w \<rparr>"
begin

lemma check_changes_only_the_world:
  assumes "sc_prompt_handler sc = ph"
  shows "\<exists>w. snd (check_before_deletion sc s) = s\<lparr> world := w \<rparr>"
proof -
  have "\<exists>w. snd (prompt_confirmation sc s) = s\<lparr> world := w \<rparr>"
    using asks_only_the_world [of "sc_target_display sc" "\<not> sc_disable_color sc" "sc_whole_bucket sc" s]
    by (auto simp: prompt_confirmation_def assms bind_def Let_def split: prod.splits outcome.splits)
  moreover have "s = s\<lparr> world := world s \<rparr>" by simp
  ultimately show ?thesis by (auto simp: check_before_deletion_def intro: exI [of _ "world s"])
qed

end

interpretation stdio: confirmation_prompt "stdio_prompt_handler env" for env
  by unfold_locales (auto simp: read_confirmation_def split: prod.splits)


section \<open>Properties\<close>

text \<open>
  C22: the decision table of the safety check. A dry run and a forced run pass without touching
  anything. Otherwise, without a terminal or with JSON logging, the run is refused with an
  invalid-configuration error (exit code 2). Otherwise the user is asked once, and the run goes
  on exactly when the trimmed answer is \<open>yes\<close>; any other answer is a cancellation (exit code
  0), and a failing read is the error of the read.
\<close>

theorem safety_decision_table:
  "check_before_deletion (safety_checker_new env cfg) s =
     (if dry_run cfg \<or> force cfg then (Ok (), s)
      else if \<exists>tc. tracing_config cfg = Some tc \<and> tc_json_tracing tc
        then (Err (App (InvalidConfig non_interactive_message)), s)
      else if env_is_terminal env then
        let use_color = (\<nexists>tc. tracing_config cfg = Some tc \<and> tc_disable_color_tracing tc);
            (r, w) = env_read_line env
              (confirmation_text (format_target (target cfg)) use_color
                 (is_whole_bucket (target cfg))) (world s);
            s' = s\<lparr> world := w \<rparr>
        in (case r of
              Ok line \<Rightarrow> if trim line = ''yes'' then (Ok (), s') else (Err (App Cancelled), s')
            | Err e \<Rightarrow> (Err e, s')
            | Panic m \<Rightarrow> (Panic m, s'))
      else (Err (App (InvalidConfig non_interactive_message)), s))
   \<and> exit_code (InvalidConfig non_interactive_message) = 2 \<and> exit_code Cancelled = 0"
  by (cases "tracing_config cfg")
    (auto simp: check_before_deletion_def safety_checker_new_def is_non_interactive_def
      prompt_confirmation_def read_confirmation_def bind_def Let_def
      split: prod.splits outcome.splits)

end
