(* ===== verification/Filters.thy ===== *)
theory Filters
  imports Stage
begin

text \<open>
  The filter stages (\<open>src/filters/\<close>): the predicate of each filter, the receive-and-filter loop
  they share, and the stage of the user-defined filter callback. The arguments of the tracing
  macros are not modelled, the bindings computed outside them are.

  The contract of a filter is the locale \<open>object_filter\<close>; each of the eight filters of the
  program interprets it with its predicate and an abstract condition on listed objects.
\<close>

type_synonym filter_fn = "libs \<Rightarrow> s3_object \<Rightarrow> filter_config \<Rightarrow> bool result"

section \<open>The predicates\<close>

text \<open>Both time filters convert through milliseconds; a failing conversion gives no instant.\<close>

definition last_modified_chrono :: "libs \<Rightarrow> s3_object \<Rightarrow> chrono option result" where
  "last_modified_chrono lib x =
     obind (s3_last_modified x) (\<lambda>dt.
       case dt_to_millis lib dt of
         Inl _ \<Rightarrow> Ok None
       | Inr millis \<Rightarrow> (case millis_to_chrono lib millis of
             Inl _ \<Rightarrow> Ok None
           | Inr t \<Rightarrow> Ok (Some t)))"

definition is_before :: filter_fn where
  "is_before lib x fc = (case before_time fc of
       None \<Rightarrow> Ok False
     | Some t0 \<Rightarrow> obind (last_modified_chrono lib x) (\<lambda>lm. case lm of
           None \<Rightarrow> Ok False
         | Some last_modified \<Rightarrow>
             if t0 \<le> last_modified then obind (s3_key x) (\<lambda>_. Ok False) else Ok True))"

definition is_after_or_equal :: filter_fn where
  "is_after_or_equal lib x fc = (case after_time fc of
       None \<Rightarrow> Ok False
     | Some t0 \<Rightarrow> obind (last_modified_chrono lib x) (\<lambda>lm. case lm of
           None \<Rightarrow> Ok False
         | Some last_modified \<Rightarrow>
             if last_modified < t0 then obind (s3_key x) (\<lambda>_. Ok False) else Ok True))"

text \<open>An \<open>i64\<close> size is compared with its sign, then cast to \<open>u64\<close>, which keeps its bits.\<close>

definition is_smaller :: filter_fn where
  "is_smaller lib x fc =
     (if s3_is_delete_marker x then Ok False
      else case smaller_size fc of
        None \<Rightarrow> Ok False
      | Some limit \<Rightarrow> obind (s3_size x) (\<lambda>object_size.
          if sint object_size < 0 then Ok False
          else if limit \<le> object_size then obind (s3_key x) (\<lambda>_. Ok False)
          else Ok True))"

definition is_larger_or_equal :: filter_fn where
  "is_larger_or_equal lib x fc =
     (if s3_is_delete_marker x then Ok False
      else case larger_size fc of
        None \<Rightarrow> Ok False
      | Some limit \<Rightarrow> obind (s3_size x) (\<lambda>object_size.
          if sint object_size < 0 then Ok False
          else if object_size < limit then obind (s3_key x) (\<lambda>_. Ok False)
          else Ok True))"

definition is_match :: filter_fn where
  "is_match lib x fc = (case include_regex fc of
       None \<Rightarrow> Ok False
     | Some re \<Rightarrow> obind (s3_key x) (\<lambda>key. case regex_is_match lib re key of
           Inr matched \<Rightarrow> Ok matched
         | Inl _ \<Rightarrow> Ok False))"

definition is_not_match :: filter_fn where
  "is_not_match lib x fc = (case exclude_regex fc of
       None \<Rightarrow> Ok False
     | Some re \<Rightarrow> obind (s3_key x) (\<lambda>key. case regex_is_match lib re key of
           Inr matched \<Rightarrow> Ok (\<not> matched)
         | Inl _ \<Rightarrow> Ok False))"

definition is_not_latest :: filter_fn where
  "is_not_latest lib x fc = Ok (\<not> s3_is_latest x)"

definition is_delete_marker :: filter_fn where
  "is_delete_marker lib x fc = Ok (s3_is_delete_marker x)"


section \<open>The shared loop\<close>

definition fmt_last_modified :: "libs \<Rightarrow> s3_object \<Rightarrow> string result" where
  "fmt_last_modified lib x = obind (s3_last_modified x) (\<lambda>dt. Ok (unwrap_or (dt_fmt lib dt) []))"

definition filtered_event :: "libs \<Rightarrow> string \<Rightarrow> s3_object \<Rightarrow> event_data result" where
  "filtered_event lib message x =
     obind (s3_key x) (\<lambda>key. obind (s3_size x) (\<lambda>sz. obind (fmt_last_modified lib x) (\<lambda>lm.
       Ok ((event_data_new DELETE_FILTERED)
         \<lparr> ed_key := Some key, ed_version_id := s3_version_id x, ed_size := Some sz,
           ed_last_modified := Some lm, ed_message := Some message \<rparr>))))"

definition filter_skip :: "'w env \<Rightarrow> config \<Rightarrow> string \<Rightarrow> s3_object \<Rightarrow> ('w sys, unit) prog" where
  "filter_skip env cfg name x =
     bind (lift (s3_key x)) (\<lambda>key.
     seq (send_stats (DeleteSkip key))
       (if em_callback_registered (event_manager cfg)
        then bind (lift (filtered_event (env_libs env) (''Object filtered by '' @ name) x))
               (trigger env cfg)
        else ret ()))"

fun receive_and_filter ::
  "'w env \<Rightarrow> config \<Rightarrow> string \<Rightarrow> filter_fn \<Rightarrow> s3_object list \<Rightarrow> ('w sys, unit) prog" where
  "receive_and_filter env cfg name f [] = bind (is_cancelled env) (\<lambda>c. ret ())"
| "receive_and_filter env cfg name f (x # xs) =
     bind (is_cancelled env) (\<lambda>c.
       if c then ret ()
       else bind (lift (f (env_libs env) x (filter_config cfg))) (\<lambda>pass.
         if \<not> pass then
           seq (filter_skip env cfg name x) (receive_and_filter env cfg name f xs)
         else bind (stage_send env x) (\<lambda>r.
           if r = SendClosed then ret () else receive_and_filter env cfg name f xs)))"


section \<open>The user-defined filter stage\<close>

definition user_defined_skip :: "'w env \<Rightarrow> config \<Rightarrow> s3_object \<Rightarrow> ('w sys, unit) prog" where
  "user_defined_skip env cfg x =
     seq (if em_callback_registered (event_manager cfg)
          then bind (lift (filtered_event (env_libs env)
                 ''Object filtered by user defined filter'' x)) (trigger env cfg)
          else ret ())
       (bind (lift (s3_key x)) (\<lambda>key. send_stats (DeleteSkip key)))"

definition user_defined_error :: "'w env \<Rightarrow> config \<Rightarrow> anyhow \<Rightarrow> ('w sys, bool) prog" where
  "user_defined_error env cfg e =
     seq (if em_callback_registered (event_manager cfg)
          then trigger env cfg ((event_data_new PIPELINE_ERROR)
                 \<lparr> ed_message := Some (''User defined filter error: '' @ anyhow_display e) \<rparr>)
          else ret ())
       (seq cancel
         (throw (Message
            (''user defined filter worker cancelled with error: '' @ anyhow_display e))))"

definition user_defined_decision :: "'w env \<Rightarrow> config \<Rightarrow> s3_object \<Rightarrow> ('w sys, bool) prog" where
  "user_defined_decision env cfg x =
     (if fm_callback_registered (filter_manager cfg)
      then catch (execute_filter env (filter_manager cfg) x) ret (user_defined_error env cfg)
      else ret True)"

fun user_defined_filter_loop ::
  "'w env \<Rightarrow> config \<Rightarrow> s3_object list \<Rightarrow> ('w sys, unit) prog" where
  "user_defined_filter_loop env cfg [] = bind (select_cancelled env) (\<lambda>c. ret ())"
| "user_defined_filter_loop env cfg (x # xs) =
     bind (select_cancelled env) (\<lambda>c.
       if c then ret ()
       else bind (user_defined_decision env cfg x) (\<lambda>need_delete.
         if \<not> need_delete then
           seq (user_defined_skip env cfg x) (user_defined_filter_loop env cfg xs)
         else bind (stage_send env x) (\<lambda>r.
           if r = SendClosed then ret () else user_defined_filter_loop env cfg xs)))"


section \<open>What the predicates decide on listed objects\<close>

definition chrono_of :: "libs \<Rightarrow> s3_object \<Rightarrow> chrono option" where
  "chrono_of lib x = (case dt_to_millis lib (mtime_of x) of
       Inl _ \<Rightarrow> None
     | Inr millis \<Rightarrow> (case millis_to_chrono lib millis of Inl _ \<Rightarrow> None | Inr t \<Rightarrow> Some t))"

definition passes_before :: "libs \<Rightarrow> filter_config \<Rightarrow> s3_object \<Rightarrow> bool" where
  "passes_before lib fc x = (case (chrono_of lib x, before_time fc) of
       (Some t, Some t0) \<Rightarrow> t < t0 | _ \<Rightarrow> False)"

definition passes_after :: "libs \<Rightarrow> filter_config \<Rightarrow> s3_object \<Rightarrow> bool" where
  "passes_after lib fc x = (case (chrono_of lib x, after_time fc) of
       (Some t, Some t0) \<Rightarrow> t0 \<le> t | _ \<Rightarrow> False)"

definition passes_smaller :: "libs \<Rightarrow> filter_config \<Rightarrow> s3_object \<Rightarrow> bool" where
  "passes_smaller lib fc x \<longleftrightarrow> \<not> s3_is_delete_marker x \<and> (case smaller_size fc of
       Some n \<Rightarrow> 0 \<le> sint (size_of x) \<and> uint (size_of x) < uint n | None \<Rightarrow> False)"

definition passes_larger :: "libs \<Rightarrow> filter_config \<Rightarrow> s3_object \<Rightarrow> bool" where
  "passes_larger lib fc x \<longleftrightarrow> \<not> s3_is_delete_marker x \<and> (case larger_size fc of
       Some n \<Rightarrow> 0 \<le> sint (size_of x) \<and> uint n \<le> uint (size_of x) | None \<Rightarrow> False)"

definition passes_include :: "libs \<Rightarrow> filter_config \<Rightarrow> s3_object \<Rightarrow> bool" where
  "passes_include lib fc x = (case include_regex fc of
       Some re \<Rightarrow> regex_is_match lib re (key_of x) = Inr True | None \<Rightarrow> False)"

definition passes_exclude :: "libs \<Rightarrow> filter_config \<Rightarrow> s3_object \<Rightarrow> bool" where
  "passes_exclude lib fc x = (case exclude_regex fc of
       Some re \<Rightarrow> regex_is_match lib re (key_of x) = Inr False | None \<Rightarrow> False)"

definition passes_not_latest :: "libs \<Rightarrow> filter_config \<Rightarrow> s3_object \<Rightarrow> bool" where
  "passes_not_latest lib fc x \<longleftrightarrow> \<not> s3_is_latest x"

definition passes_delete_marker :: "libs \<Rightarrow> filter_config \<Rightarrow> s3_object \<Rightarrow> bool" where
  "passes_delete_marker lib fc x \<longleftrightarrow> s3_is_delete_marker x"

lemma wf_last_modified_chrono [wf_simps]:
  "wf_object x \<Longrightarrow> last_modified_chrono lib x = Ok (chrono_of lib x)"
  by (simp add: last_modified_chrono_def chrono_of_def wf_simps split: sum.splits)

lemma last_modified_chrono_not_Err [simp]: "last_modified_chrono lib x \<noteq> Err e"
  by (cases "s3_last_modified x") (auto simp: last_modified_chrono_def split: sum.splits)

lemma obind_Err_iff: "obind r f = Err e \<longleftrightarrow> r = Err e \<or> (\<exists>a. r = Ok a \<and> f a = Err e)"
  by (cases r) auto

section \<open>The contract of a filter\<close>

locale object_filter =
  fixes pred :: filter_fn
    and passes :: "libs \<Rightarrow> filter_config \<Rightarrow> s3_object \<Rightarrow> bool"
  assumes pred_wf: "wf_object x \<Longrightarrow> pred lib x fc = Ok (passes lib fc x)"
    and pred_no_error: "pred lib x fc \<noteq> Err e"

interpretation mtime_before: object_filter is_before passes_before
  by unfold_locales
    (auto simp: is_before_def passes_before_def wf_simps obind_Err_iff split: option.splits if_splits)

interpretation mtime_after: object_filter is_after_or_equal passes_after
  by unfold_locales
    (auto simp: is_after_or_equal_def passes_after_def wf_simps obind_Err_iff
      split: option.splits if_splits)

interpretation smaller: object_filter is_smaller passes_smaller
  by unfold_locales
    (auto simp: is_smaller_def passes_smaller_def wf_simps obind_Err_iff word_less_def word_le_def
      split: option.splits if_splits)

interpretation larger: object_filter is_larger_or_equal passes_larger
  by unfold_locales
    (auto simp: is_larger_or_equal_def passes_larger_def wf_simps obind_Err_iff word_less_def
      word_le_def split: option.splits if_splits)

interpretation include_re: object_filter is_match passes_include
  by unfold_locales
    (auto simp: is_match_def passes_include_def wf_simps obind_Err_iff split: option.splits sum.splits)

interpretation exclude_re: object_filter is_not_match passes_exclude
  by unfold_locales
    (auto simp: is_not_match_def passes_exclude_def wf_simps obind_Err_iff
      split: option.splits sum.splits)

interpretation keep_latest: object_filter is_not_latest passes_not_latest
  by unfold_locales (auto simp: is_not_latest_def passes_not_latest_def)

interpretation marker_only: object_filter is_delete_marker passes_delete_marker
  by unfold_locales (auto simp: is_delete_marker_def passes_delete_marker_def)

section \<open>The loop on every environment\<close>

lemma fmt_last_modified_wf [wf_simps]:
  "wf_object x \<Longrightarrow> fmt_last_modified lib x = Ok (unwrap_or (dt_fmt lib (mtime_of x)) [])"
  by (simp add: fmt_last_modified_def wf_simps)

lemma filtered_event_wf:
  "wf_object x \<Longrightarrow> \<exists>ed. filtered_event lib m x = Ok ed \<and> ed_event_type ed = DELETE_FILTERED"
  by (simp add: filtered_event_def wf_simps)

lemma filtered_event_not_Err: "filtered_event lib m x \<noteq> Err e"
  by (auto simp: filtered_event_def fmt_last_modified_def obind_Err_iff)

definition same_sent :: "'w sys \<Rightarrow> 'w sys \<Rightarrow> bool" where
  "same_sent s0 s \<longleftrightarrow> sent s = sent s0"

lemma keeps_sent_basic [keeps_intros]:
  "keeps (same_sent s0) cancel" "keeps (same_sent s0) (is_cancelled env)"
  "keeps (same_sent s0) (select_cancelled env)" "keeps (same_sent s0) (send_stats d)"
  "keeps (same_sent s0) set_warning" "keeps (same_sent s0) (trigger env cfg ed)"
  by (auto simp: keeps_def same_sent_def is_cancelled_def select_cancelled_def bind_def
      Let_def split: prod.splits)

lemma keeps_filter_skip [keeps_intros]:
  "keeps (same_counters s0) (filter_skip env cfg name x)"
  "keeps (same_sent s0) (filter_skip env cfg name x)"
  by (auto simp: filter_skip_def intro!: keeps_intros)

lemma filter_skip_not_Err: "fst (filter_skip env cfg name x s) \<noteq> Err e"
  by (cases "s3_key x"; cases "filtered_event (env_libs env) (''Object filtered by '' @ name) x")
    (auto simp: filter_skip_def filtered_event_not_Err)

text \<open>
  Whatever the world does, a filter stage forwards a subsequence of its input, in order, and
  only objects on which its predicate answered true.
\<close>

lemma receive_and_filter_forwards:
  "\<exists>ys. sent (snd (receive_and_filter env cfg name f xs s)) = sent s @ ys \<and> subseq ys xs
     \<and> (\<forall>y \<in> set ys. f (env_libs env) y (filter_config cfg) = Ok True)"
proof (induction xs arbitrary: s)
  case Nil
  obtain w c where "is_cancelled env s = (Ok c, s\<lparr> world := w, cancelled := c \<rparr>)"
    by (rule is_cancelled_cases)
  then show ?case by (simp add: bind_def)
next
  case (Cons x xs)
  obtain w c where c: "is_cancelled env s = (Ok c, s\<lparr> world := w, cancelled := c \<rparr>)"
    by (rule is_cancelled_cases)
  let ?s1 = "s\<lparr> world := w, cancelled := c \<rparr>"
  let ?run = "snd (receive_and_filter env cfg name f (x # xs) s)"
  let ?p = "f (env_libs env) x (filter_config cfg)"
  show ?case
  proof (cases "\<not> c \<and> is_ok ?p")
    case False
    then have "sent ?run = sent s"
      using c by (cases ?p) (auto simp: bind_def)
    then show ?thesis by (intro exI [of _ "[]"]) simp
  next
    case True
    then obtain pass where p: "?p = Ok pass" and "\<not> c" by (auto simp: is_ok_iff)
    show ?thesis
    proof (cases pass)
      case False
      obtain r s2 where sk: "filter_skip env cfg name x ?s1 = (r, s2)" by fastforce
      have "sent s2 = sent s"
        using keepsD [OF keeps_filter_skip(2) _ sk] by (simp add: same_sent_def)
      with sk p False \<open>\<not> c\<close> c Cons.IH [of s2] show ?thesis
        by (cases r) (auto simp: bind_def seq_def dest: subseq_Cons' intro: exI [of _ "[]"])
    next
      case True
      show ?thesis
      proof (cases "env_send env (sent s)")
        case Accepts
        from Cons.IH [of "?s1\<lparr> sent := sent s @ [x] \<rparr>"] obtain ys where
          "sent (snd (receive_and_filter env cfg name f xs (?s1\<lparr> sent := sent s @ [x] \<rparr>)))
             = sent s @ x # ys" "subseq ys xs"
          "\<forall>y \<in> set ys. f (env_libs env) y (filter_config cfg) = Ok True"
          by auto
        then show ?thesis
          using Accepts True p \<open>\<not> c\<close> c
          by (intro exI [of _ "x # ys"]) (simp add: bind_def stage_send_def)
      qed (use True p \<open>\<not> c\<close> c in \<open>auto simp: bind_def stage_send_def intro: exI [of _ "[]"]\<close>)
    qed
  qed
qed


section \<open>The loop on listed objects in a quiet environment\<close>

text \<open>
  What the other parts of the run must not notice of a filter: the world, its counters, flags and
  the openness of the statistics channel.
\<close>

definition same_flags :: "'w sys \<Rightarrow> 'w sys \<Rightarrow> bool" where
  "same_flags s0 s \<longleftrightarrow> world s = world s0 \<and> cancelled s = cancelled s0 \<and> has_warning s = has_warning s0
     \<and> stats_closed s = stats_closed s0 \<and> report s = report s0
     \<and> delete_counter s = delete_counter s0 \<and> rate_tokens s = rate_tokens s0"

lemma same_flags_refl [simp]: "same_flags s s"
  by (simp add: same_flags_def)

lemma same_flags_trans: "same_flags a b \<Longrightarrow> same_flags b c \<Longrightarrow> same_flags a c"
  by (simp add: same_flags_def)

definition skip_stats :: "s3_object list \<Rightarrow> deletion_statistics list" where
  "skip_stats xs = map (\<lambda>x. DeleteSkip (key_of x)) xs"

lemma skip_stats_simps [simp]:
  "skip_stats [] = []" "skip_stats (x # xs) = DeleteSkip (key_of x) # skip_stats xs"
  "skip_stats (xs @ ys) = skip_stats xs @ skip_stats ys"
  by (simp_all add: skip_stats_def)

lemma filter_skip_wf:
  assumes "wf_object x"
  obtains s' where "filter_skip env cfg name x s = (Ok (), s')" and "sent s' = sent s"
    and "same_flags s s'"
    and "\<not> stats_closed s \<Longrightarrow> stats_channel s' = stats_channel s @ [DeleteSkip (key_of x)]"
proof -
  from filtered_event_wf [OF assms, of "env_libs env" "''Object filtered by '' @ name"] obtain ed
    where "filtered_event (env_libs env) (''Object filtered by '' @ name) x = Ok ed"
      "ed_event_type ed = DELETE_FILTERED" by blast
  then show ?thesis
    using assms that
    by (cases "em_callback_registered (event_manager cfg)")
      (auto simp: filter_skip_def wf_simps same_flags_def world_trigger_event event_types_numerals)
qed

context object_filter begin

lemma receive_and_filter_wf:
  assumes "quiet env" and "\<not> cancelled s" and "list_all wf_object xs"
  shows "\<exists>s'. receive_and_filter env cfg name pred xs s = (Ok (), s') \<and> same_flags s s'
    \<and> sent s' = sent s @ filter (passes (env_libs env) (filter_config cfg)) xs
    \<and> (\<not> stats_closed s \<longrightarrow> stats_channel s' = stats_channel s @
          skip_stats (filter (\<lambda>x. \<not> passes (env_libs env) (filter_config cfg) x) xs))"
  using assms(2,3)
proof (induction xs arbitrary: s)
  case Nil
  then show ?case using assms(1) by (simp add: bind_def quiet_is_cancelled)
next
  case (Cons x xs)
  then have wf: "wf_object x" "list_all wf_object xs" by auto
  let ?p = "passes (env_libs env) (filter_config cfg)"
  note head = Cons.prems(1) assms(1) pred_wf [OF wf(1)]
  show ?case
  proof (cases "?p x")
    case True
    let ?s1 = "s\<lparr> sent := sent s @ [x] \<rparr>"
    have run: "receive_and_filter env cfg name pred (x # xs) s
        = receive_and_filter env cfg name pred xs ?s1"
      using True head by (simp add: bind_def quiet_is_cancelled quiet_stage_send)
    have "same_flags s ?s1" by (simp add: same_flags_def)
    with Cons.IH [of ?s1] Cons.prems(1) wf(2) True show ?thesis
      unfolding run by (auto intro: same_flags_trans)
  next
    case False
    obtain s1 where s1: "filter_skip env cfg name x s = (Ok (), s1)" "sent s1 = sent s"
      "same_flags s s1"
      "\<not> stats_closed s \<Longrightarrow> stats_channel s1 = stats_channel s @ [DeleteSkip (key_of x)]"
      using filter_skip_wf [OF wf(1)] by blast
    have run: "receive_and_filter env cfg name pred (x # xs) s
        = receive_and_filter env cfg name pred xs s1"
      using False head s1(1) by (simp add: bind_def quiet_is_cancelled seq_def)
    from s1(3) Cons.prems(1) have "\<not> cancelled s1" "stats_closed s1 = stats_closed s"
      by (simp_all add: same_flags_def)
    with Cons.IH [of s1] wf(2) s1 False show ?thesis
      unfolding run by (auto intro: same_flags_trans)
  qed
qed

end

section \<open>Properties of the filters\<close>

text \<open>
  The two modification-time filters, given the same threshold, are complementary: every
  listed object whose time converts passes exactly one of them, and one whose time does not
  convert passes neither.
\<close>

theorem mtime_filters_partition:
  assumes "wf_object x"
  shows "is_before lib x (fc\<lparr> before_time := Some t \<rparr>)
           = Ok (chrono_of lib x \<noteq> None \<and> is_after_or_equal lib x (fc'\<lparr> after_time := Some t \<rparr>) = Ok False)"
    (is "?before = Ok ?P")
proof -
  have "?before = Ok (passes_before lib (fc\<lparr> before_time := Some t \<rparr>) x)"
    by (rule mtime_before.pred_wf [OF assms])
  moreover have "is_after_or_equal lib x (fc'\<lparr> after_time := Some t \<rparr>)
      = Ok (passes_after lib (fc'\<lparr> after_time := Some t \<rparr>) x)"
    by (rule mtime_after.pred_wf [OF assms])
  ultimately show ?thesis
    by (auto simp: passes_before_def passes_after_def split: option.splits)
qed

theorem mtime_filters_partition_witness:
  "is_before demo_libs (s3_object_new ''k'' 1) (filter_config_default\<lparr> before_time := Some 5 \<rparr>)
     = Ok (chrono_of demo_libs (s3_object_new ''k'' 1) \<noteq> None \<and>
         is_after_or_equal demo_libs (s3_object_new ''k'' 1)
           (filter_config_default\<lparr> after_time := Some 5 \<rparr>) = Ok False)"
  by (rule mtime_filters_partition) simp

text \<open>
  The two size filters, given the same threshold, are complementary on objects with a size:
  a listed object with a non-negative size that is not a delete marker passes exactly one of
  them. A delete marker, and an object with a negative size, passes neither, whatever the
  thresholds.
\<close>

theorem size_filters_partition:
  assumes "wf_object x"
  shows "(if s3_is_delete_marker x \<or> sint (size_of x) < 0
          then is_smaller lib x fc = Ok False \<and> is_larger_or_equal lib x fc' = Ok False
          else is_smaller lib x (fc\<lparr> smaller_size := Some n \<rparr>) = Ok (uint (size_of x) < uint n)
             \<and> is_larger_or_equal lib x (fc'\<lparr> larger_size := Some n \<rparr>)
                 = Ok (uint n \<le> uint (size_of x)))"
  using smaller.pred_wf [OF assms] larger.pred_wf [OF assms]
  by (auto simp: passes_smaller_def passes_larger_def split: option.splits)

theorem size_filters_partition_witness:
  "(if s3_is_delete_marker (s3_object_new ''k'' 7) \<or> sint (size_of (s3_object_new ''k'' 7)) < 0
    then is_smaller demo_libs (s3_object_new ''k'' 7) filter_config_default = Ok False
      \<and> is_larger_or_equal demo_libs (s3_object_new ''k'' 7) filter_config_default = Ok False
    else is_smaller demo_libs (s3_object_new ''k'' 7) (filter_config_default\<lparr> smaller_size := Some 7 \<rparr>)
           = Ok (uint (size_of (s3_object_new ''k'' 7)) < uint (7::u64))
      \<and> is_larger_or_equal demo_libs (s3_object_new ''k'' 7) (filter_config_default\<lparr> larger_size := Some 7 \<rparr>)
           = Ok (uint (7::u64) \<le> uint (size_of (s3_object_new ''k'' 7))))"
  by (rule size_filters_partition) simp

end
