(* ===== verification/Storage.thy ===== *)
theory Storage
  imports Filters
begin

text \<open>
  The S3 storage (\<open>src/storage/mod.rs\<close>, \<open>src/storage/s3/mod.rs\<close>): its construction with the rate
  limiter, the single requests with their error context, the versioning check, and the listing,
  sequential and parallel.

  The listing loops run on fuel, one unit per page or recursive call; \<open>None\<close> means that the
  fuel ran out. The tasks a parallel listing spawns run here one after the other in spawning
  order, each to its end, and are joined in that order.
\<close>

section \<open>Construction\<close>

record rate_limiter =
  rl_max :: nat
  rl_initial :: nat
  rl_refill :: nat
  rl_fair :: bool

record s3_storage =
  st_config :: config
  st_bucket :: string
  st_prefix :: string
  st_has_client :: bool
  st_request_payer :: "request_payer option"
  st_rate_limiter :: "rate_limiter option"
  st_listing_permits :: nat

definition refill_per_interval_divider :: nat where
  "refill_per_interval_divider = 10"

definition make_rate_limiter :: "u32 \<Rightarrow> rate_limiter" where
  "make_rate_limiter v =
     (let n = unat v;
          refill = (if n \<le> refill_per_interval_divider then 1 else n div refill_per_interval_divider)
      in \<lparr> rl_max = n, rl_initial = n, rl_refill = refill, rl_fair = True \<rparr>)"

definition s3_storage_create ::
  "config \<Rightarrow> storage_path \<Rightarrow> client_config option \<Rightarrow> request_payer option
     \<Rightarrow> rate_limiter option \<Rightarrow> s3_storage" where
  "s3_storage_create cfg path cc payer limiter =
     \<lparr> st_config = cfg, st_bucket = sp_bucket path, st_prefix = sp_prefix path,
       st_has_client = (cc \<noteq> None), st_request_payer = payer, st_rate_limiter = limiter,
       st_listing_permits = unat (max_parallel_listings cfg) \<rparr>"

definition create_storage :: "config \<Rightarrow> s3_storage" where
  "create_storage cfg =
     (let limiter = map_option make_rate_limiter (rate_limit_objects cfg);
          cc = target_client_config cfg;
          payer = Option.bind cc cc_request_payer
      in s3_storage_create cfg (target cfg) cc payer limiter)"

definition is_express_onezone_bucket :: "string \<Rightarrow> bool" where
  "is_express_onezone_bucket b \<longleftrightarrow> ends_with b ''--x-s3''"

definition is_express_onezone_storage :: "s3_storage \<Rightarrow> bool" where
  "is_express_onezone_storage st = is_express_onezone_bucket (st_bucket st)"

definition is_versioned_status :: "versioning_status option \<Rightarrow> bool" where
  "is_versioned_status status \<longleftrightarrow> status = Some Enabled \<or> status = Some Suspended"

definition extract_sdk_error_details :: "sdk_error \<Rightarrow> string \<times> string" where
  "extract_sdk_error_details e = (case e of
       ServiceError op se d \<Rightarrow>
         (unwrap_or (se_code se) ''unknown'', unwrap_or (se_message se) ''no message'')
     | TransportError op d \<Rightarrow> (''N/A'', d))"


section \<open>Requests\<close>

definition exec_rate_limit :: "s3_storage \<Rightarrow> nat \<Rightarrow> ('w sys, unit) prog" where
  "exec_rate_limit st n =
     (case st_rate_limiter st of
        None \<Rightarrow> ret ()
      | Some rl \<Rightarrow> update (\<lambda>s. s\<lparr> rate_tokens := rate_tokens s + n \<rparr>))"

definition exec_rate_limit_one :: "s3_storage \<Rightarrow> ('w sys, unit) prog" where
  "exec_rate_limit_one st = exec_rate_limit st 1"

definition exec_rate_limit_n :: "s3_storage \<Rightarrow> nat \<Rightarrow> ('w sys, unit) prog" where
  "exec_rate_limit_n st n = (if n = 0 then ret () else exec_rate_limit st n)"

text \<open>A call of the client, its SDK error put behind a context message.\<close>

definition sdk_call ::
  "s3_storage \<Rightarrow> 'w env \<Rightarrow> string \<Rightarrow> ('w client \<Rightarrow> 'w \<Rightarrow> (sdk_error + 'a) \<times> 'w) \<Rightarrow> ('w sys, 'a) prog"
  where
  "sdk_call st env ctx f =
     (if st_has_client st
      then (\<lambda>s. case f (env_client env) (world s) of
          (Inr a, w) \<Rightarrow> (Ok a, s\<lparr> world := w \<rparr>)
        | (Inl e, w) \<Rightarrow> (Err (Context ctx (Sdk e)), s\<lparr> world := w \<rparr>))
      else panic ''S3 client not initialized'')"

definition storage_request :: "s3_storage \<Rightarrow> request" where
  "storage_request st = \<lparr> rq_payer = st_request_payer st, rq_bucket = st_bucket st \<rparr>"

definition head_object ::
  "s3_storage \<Rightarrow> 'w env \<Rightarrow> string \<Rightarrow> string option \<Rightarrow> ('w sys, head_output) prog" where
  "head_object st env key vid =
     seq (exec_rate_limit_one st)
       (sdk_call st env ''aws_sdk_s3::client::head_object() failed.''
          (\<lambda>cl. cl_head_object cl (storage_request st) key vid))"

definition get_object_tagging ::
  "s3_storage \<Rightarrow> 'w env \<Rightarrow> string \<Rightarrow> string option \<Rightarrow> ('w sys, tag list) prog" where
  "get_object_tagging st env key vid =
     seq (exec_rate_limit_one st)
       (sdk_call st env ''aws_sdk_s3::client::get_object_tagging() failed.''
          (\<lambda>cl. cl_get_object_tagging cl (storage_request st) key vid))"

definition delete_object ::
  "s3_storage \<Rightarrow> 'w env \<Rightarrow> string \<Rightarrow> string option \<Rightarrow> string option \<Rightarrow> ('w sys, unit) prog" where
  "delete_object st env key vid etag =
     seq (exec_rate_limit_one st)
       (sdk_call st env ''aws_sdk_s3::client::delete_object() failed.''
          (\<lambda>cl. cl_delete_object cl (storage_request st) key vid etag))"

definition delete_objects ::
  "s3_storage \<Rightarrow> 'w env \<Rightarrow> object_identifier list \<Rightarrow> ('w sys, delete_objects_output) prog" where
  "delete_objects st env ids =
     seq (exec_rate_limit_n st (length ids))
       (sdk_call st env ''aws_sdk_s3::client::delete_objects() failed.''
          (\<lambda>cl. cl_delete_objects cl (storage_request st) ids))"

definition is_versioning_enabled :: "s3_storage \<Rightarrow> 'w env \<Rightarrow> ('w sys, bool) prog" where
  "is_versioning_enabled st env =
     (if is_express_onezone_storage st then ret False
      else bind (sdk_call st env ''aws_sdk_s3::client::get_bucket_versioning() failed.''
                   (\<lambda>cl. cl_get_bucket_versioning cl (st_bucket st)))
             (\<lambda>status. ret (is_versioned_status status)))"


section \<open>Pages of a listing\<close>

datatype listing_mode = Objects | Versions

fun mode_label :: "listing_mode \<Rightarrow> string" where
  "mode_label Objects = ''object''"
| "mode_label Versions = ''object version''"

record list_page =
  lp_objects :: "s3_object list"
  lp_sub_prefixes :: "string list"
  lp_is_truncated :: bool
  lp_continuation_token :: "string option"
  lp_key_marker :: "string option"
  lp_version_id_marker :: "string option"

text \<open>Where the next page starts: the token of one API, the two markers of the other.\<close>

record cursor =
  cu_continuation_token :: "string option"
  cu_key_marker :: "string option"
  cu_version_id_marker :: "string option"

definition cursor_start :: cursor where
  "cursor_start = \<lparr> cu_continuation_token = None, cu_key_marker = None, cu_version_id_marker = None \<rparr>"

definition page_of_objects :: "list_objects_output \<Rightarrow> list_page" where
  "page_of_objects out =
     \<lparr> lp_objects = map NotVersioning (lo_contents out),
       lp_sub_prefixes = List.map_filter id (lo_common_prefixes out),
       lp_is_truncated = (lo_is_truncated out = Some True),
       lp_continuation_token = lo_next_continuation_token out,
       lp_key_marker = None, lp_version_id_marker = None \<rparr>"

definition page_of_versions :: "list_versions_output \<Rightarrow> list_page" where
  "page_of_versions out =
     \<lparr> lp_objects = map Versioning (lv_versions out) @ map DeleteMarker (lv_delete_markers out),
       lp_sub_prefixes = List.map_filter id (lv_common_prefixes out),
       lp_is_truncated = (lv_is_truncated out = Some True),
       lp_continuation_token = None,
       lp_key_marker = lv_next_key_marker out,
       lp_version_id_marker = lv_next_version_id_marker out \<rparr>"

definition s3_uri :: "s3_storage \<Rightarrow> string \<Rightarrow> string" where
  "s3_uri st p = s3_scheme @ st_bucket st @ slash # p"

definition fetch_list_page ::
  "s3_storage \<Rightarrow> 'w env \<Rightarrow> listing_mode \<Rightarrow> string \<Rightarrow> string option \<Rightarrow> i32 \<Rightarrow> cursor
     \<Rightarrow> ('w sys, list_page) prog" where
  "fetch_list_page st env mode p delim mk cur =
     (let rq = \<lparr> lr_base = storage_request st, lr_prefix = p, lr_delimiter = delim,
                 lr_max_keys = mk \<rparr> in
      case mode of
        Objects \<Rightarrow>
          bind (sdk_call st env
                 (''aws_sdk_s3::client::list_objects_v2() failed. '' @ s3_uri st p)
                 (\<lambda>cl. cl_list_objects_v2 cl rq (cu_continuation_token cur)))
            (\<lambda>out. ret (page_of_objects out))
      | Versions \<Rightarrow>
          bind (sdk_call st env
                 (''aws_sdk_s3::client::list_object_versions() failed. '' @ s3_uri st p)
                 (\<lambda>cl. cl_list_object_versions cl rq (cu_key_marker cur) (cu_version_id_marker cur)))
            (\<lambda>out. ret (page_of_versions out)))"

text \<open>\<open>True\<close>: the listing should stop, because it was cancelled or the channel is closed.\<close>

fun send_listed_objects :: "'w env \<Rightarrow> s3_object list \<Rightarrow> ('w sys, bool) prog" where
  "send_listed_objects env [] = ret False"
| "send_listed_objects env (x # xs) =
     bind (is_cancelled env) (\<lambda>c.
       if c then ret True
       else bind (stage_send env x) (\<lambda>r.
         if r = SendClosed then ret True else send_listed_objects env xs))"

text \<open>
  The position after a truncated page, or the error for a missing or a repeated position.
\<close>

definition next_cursor :: "s3_storage \<Rightarrow> string \<Rightarrow> listing_mode \<Rightarrow> list_page \<Rightarrow> cursor \<Rightarrow> cursor result"
  where
  "next_cursor st p mode page cur =
     (case mode of
        Objects \<Rightarrow>
          (let next = lp_continuation_token page in
           if next = None then
             Err (Message (''S3 returned truncated response but no continuation token for ''
                           @ s3_uri st p))
           else if next = cu_continuation_token cur then
             Err (Message (''S3 returned the same continuation token twice for '' @ s3_uri st p
               @ ''; refusing to loop. This is likely a bug in the S3-compatible endpoint.''))
           else Ok (cur\<lparr> cu_continuation_token := next \<rparr>))
      | Versions \<Rightarrow>
          (let nk = lp_key_marker page; nv = lp_version_id_marker page in
           if nk = None then
             Err (Message (''S3 returned truncated response but no next key marker for ''
                           @ s3_uri st p))
           else if nk = cu_key_marker cur \<and> nv = cu_version_id_marker cur then
             Err (Message (''S3 returned the same key/version marker twice for '' @ s3_uri st p
               @ ''; refusing to loop. This is likely a bug in the S3-compatible endpoint.''))
           else Ok (cur\<lparr> cu_key_marker := nk, cu_version_id_marker := nv \<rparr>)))"


text \<open>
  What the two listing loops do with the next page: look at the token, take a rate token, fetch
  the page and send its objects. \<open>None\<close> ends the listing early.
\<close>

definition list_page_step ::
  "s3_storage \<Rightarrow> 'w env \<Rightarrow> listing_mode \<Rightarrow> string \<Rightarrow> string option \<Rightarrow> i32 \<Rightarrow> cursor
     \<Rightarrow> ('w sys, list_page option) prog" where
  "list_page_step st env mode p delim mk cur =
     bind (is_cancelled env) (\<lambda>c.
       if c then ret None
       else seq (exec_rate_limit_one st)
         (bind (fetch_list_page st env mode p delim mk cur) (\<lambda>page.
          bind (send_listed_objects env (lp_objects page)) (\<lambda>stop.
            if stop then ret None else ret (Some page)))))"


section \<open>Sequential listing\<close>

fun list_sequential_from ::
  "nat \<Rightarrow> s3_storage \<Rightarrow> 'w env \<Rightarrow> listing_mode \<Rightarrow> i32 \<Rightarrow> cursor
     \<Rightarrow> 'w sys \<Rightarrow> (unit result \<times> 'w sys) option" where
  "list_sequential_from 0 st env mode mk cur s = None"
| "list_sequential_from (Suc n) st env mode mk cur s =
     (case list_page_step st env mode (st_prefix st) None mk cur s of
        (Ok None, s') \<Rightarrow> Some (Ok (), s')
      | (Ok (Some page), s') \<Rightarrow>
          if lp_is_truncated page then
            (case next_cursor st (st_prefix st) mode page cur of
               Ok cur' \<Rightarrow> list_sequential_from n st env mode mk cur' s'
             | Err e \<Rightarrow> Some (Err e, s')
             | Panic m \<Rightarrow> Some (Panic m, s'))
          else Some (Ok (), s')
      | (Err e, s') \<Rightarrow> Some (Err e, s')
      | (Panic m, s') \<Rightarrow> Some (Panic m, s'))"

definition list_sequential ::
  "nat \<Rightarrow> s3_storage \<Rightarrow> 'w env \<Rightarrow> listing_mode \<Rightarrow> i32
     \<Rightarrow> 'w sys \<Rightarrow> (unit result \<times> 'w sys) option" where
  "list_sequential n st env mode mk s =
     list_sequential_from n st env mode mk cursor_start s"


section \<open>Parallel listing\<close>

text \<open>Spawning the tasks of a page's sub-prefixes, with their results in spawning order.\<close>

fun run_subtasks ::
  "(string \<Rightarrow> 'w sys \<Rightarrow> (unit result \<times> 'w sys) option) \<Rightarrow> 'w env \<Rightarrow> string list
     \<Rightarrow> 'w sys \<Rightarrow> (unit result list \<times> 'w sys) option" where
  "run_subtasks task env [] s = Some ([], s)"
| "run_subtasks task env (p # ps) s =
     (case is_cancelled env s of (c, s0) \<Rightarrow>
        if c = Ok True then Some ([], s0)
        else case task p s0 of
            None \<Rightarrow> None
          | Some (r, s1) \<Rightarrow> (case run_subtasks task env ps s1 of
                None \<Rightarrow> None
              | Some (rs, s2) \<Rightarrow> Some (r # rs, s2)))"

text \<open>Joining them: the first failure cancels the run and is returned; a panic is a join error.\<close>

fun join_subtasks :: "'w env \<Rightarrow> listing_mode \<Rightarrow> unit result list \<Rightarrow> ('w sys, unit) prog" where
  "join_subtasks env mode [] = ret ()"
| "join_subtasks env mode (Ok u # rs) = join_subtasks env mode rs"
| "join_subtasks env mode (Err e # rs) = seq cancel (throw
     (Context (''Failed to list '' @ mode_label mode @ ''s in sub-prefix'') e))"
| "join_subtasks env mode (Panic m # rs) =
     seq cancel (throw (Message (join_error_text (env_libs env) m)))"

definition parallel_delimiter :: "s3_storage \<Rightarrow> nat \<Rightarrow> string option" where
  "parallel_delimiter st depth =
     (if depth \<le> unat (max_parallel_listing_max_depth (st_config st)) then Some ''/'' else None)"

definition effective_prefix :: "s3_storage \<Rightarrow> string \<Rightarrow> string" where
  "effective_prefix st p = (if p = [] then st_prefix st else p)"

text \<open>
  The loop of one task, from a position on; the permits of the semaphore bound how many of the
  tasks run at a time and do not show in a schedule that runs one.
\<close>

fun list_with_parallel_from ::
  "nat \<Rightarrow> s3_storage \<Rightarrow> 'w env \<Rightarrow> listing_mode \<Rightarrow> string \<Rightarrow> i32 \<Rightarrow> nat \<Rightarrow> cursor
     \<Rightarrow> 'w sys \<Rightarrow> (unit result \<times> 'w sys) option" where
  "list_with_parallel_from 0 st env mode p mk depth cur s = None"
| "list_with_parallel_from (Suc n) st env mode p mk depth cur s =
     (case list_page_step st env mode p (parallel_delimiter st depth) mk cur s of
        (Ok None, s') \<Rightarrow> Some (Ok (), s')
      | (Ok (Some page), s') \<Rightarrow>
          (case run_subtasks
                  (\<lambda>sub. list_with_parallel_from n st env mode (effective_prefix st sub) mk
                     (Suc depth) cursor_start)
                  env (lp_sub_prefixes page) s' of
             None \<Rightarrow> None
           | Some (rs, s2) \<Rightarrow>
               (case join_subtasks env mode rs s2 of
                  (Ok u, s3) \<Rightarrow>
                    if lp_is_truncated page then
                      (case next_cursor st p mode page cur of
                         Ok cur' \<Rightarrow>
                           list_with_parallel_from n st env mode p mk depth cur' s3
                       | Err e \<Rightarrow> Some (Err e, s3)
                       | Panic m \<Rightarrow> Some (Panic m, s3))
                    else Some (Ok (), s3)
                | (Err e, s3) \<Rightarrow> Some (Err e, s3)
                | (Panic m, s3) \<Rightarrow> Some (Panic m, s3)))
      | (Err e, s') \<Rightarrow> Some (Err e, s')
      | (Panic m, s') \<Rightarrow> Some (Panic m, s'))"

definition list_with_parallel ::
  "nat \<Rightarrow> s3_storage \<Rightarrow> 'w env \<Rightarrow> listing_mode \<Rightarrow> string \<Rightarrow> i32 \<Rightarrow> nat
     \<Rightarrow> 'w sys \<Rightarrow> (unit result \<times> 'w sys) option" where
  "list_with_parallel n st env mode p mk depth s =
     list_with_parallel_from n st env mode (effective_prefix st p) mk depth cursor_start s"

definition uses_parallel_listing :: "s3_storage \<Rightarrow> bool" where
  "uses_parallel_listing st \<longleftrightarrow>
     1 < max_parallel_listings (st_config st) \<and>
     (\<not> is_express_onezone_storage st
      \<or> allow_parallel_listings_in_express_one_zone (st_config st))"

definition list_dispatch ::
  "nat \<Rightarrow> s3_storage \<Rightarrow> 'w env \<Rightarrow> listing_mode \<Rightarrow> i32
     \<Rightarrow> 'w sys \<Rightarrow> (unit result \<times> 'w sys) option" where
  "list_dispatch n st env mode mk s =
     (if uses_parallel_listing st then
        (case list_with_parallel n st env mode [] mk 1 s of
           None \<Rightarrow> None
         | Some (r, s') \<Rightarrow> Some (map_err
             (Context (''Failed to parallel '' @ mode_label mode @ '' listing.'')) r, s'))
      else list_sequential n st env mode mk s)"

definition list_objects ::
  "nat \<Rightarrow> s3_storage \<Rightarrow> 'w env \<Rightarrow> i32 \<Rightarrow> 'w sys \<Rightarrow> (unit result \<times> 'w sys) option" where
  "list_objects n st env mk s = list_dispatch n st env Objects mk s"

definition list_object_versions ::
  "nat \<Rightarrow> s3_storage \<Rightarrow> 'w env \<Rightarrow> i32 \<Rightarrow> 'w sys \<Rightarrow> (unit result \<times> 'w sys) option" where
  "list_object_versions n st env mk s = list_dispatch n st env Versions mk s"


section \<open>What a service answers\<close>

text \<open>
  The abstract view of a listing: the pages the service answers, and the objects they hold. A
  chain is the answer without a delimiter, a tree the answer to the parallel listing, where each
  page may name sub-prefixes that are listed before the next page.
\<close>

definition fetch_answer ::
  "s3_storage \<Rightarrow> 'w env \<Rightarrow> listing_mode \<Rightarrow> string \<Rightarrow> string option \<Rightarrow> i32 \<Rightarrow> cursor
     \<Rightarrow> 'w \<Rightarrow> list_page result \<times> 'w" where
  "fetch_answer st env mode p delim mk cur w =
     (case fetch_list_page st env mode p delim mk cur (sys_new w) of (r, s) \<Rightarrow> (r, world s))"

inductive page_chain ::
  "s3_storage \<Rightarrow> 'w env \<Rightarrow> listing_mode \<Rightarrow> i32 \<Rightarrow> cursor \<Rightarrow> 'w \<Rightarrow> s3_object list \<Rightarrow> nat \<Rightarrow> 'w \<Rightarrow> bool"
  for st env mode mk where
  last_page:
    "fetch_answer st env mode (st_prefix st) None mk cur w = (Ok page, w') \<Longrightarrow>
     \<not> lp_is_truncated page \<Longrightarrow>
     page_chain st env mode mk cur w (lp_objects page) 1 w'"
| more_pages:
    "fetch_answer st env mode (st_prefix st) None mk cur w = (Ok page, w1) \<Longrightarrow>
     lp_is_truncated page \<Longrightarrow> next_cursor st (st_prefix st) mode page cur = Ok cur' \<Longrightarrow>
     page_chain st env mode mk cur' w1 xs k w' \<Longrightarrow>
     page_chain st env mode mk cur w (lp_objects page @ xs) (Suc k) w'"

inductive
  listing_tree :: "s3_storage \<Rightarrow> 'w env \<Rightarrow> listing_mode \<Rightarrow> i32 \<Rightarrow> string \<Rightarrow> nat \<Rightarrow> cursor \<Rightarrow> 'w
     \<Rightarrow> s3_object list \<Rightarrow> nat \<Rightarrow> 'w \<Rightarrow> bool"
  and listing_subtrees :: "s3_storage \<Rightarrow> 'w env \<Rightarrow> listing_mode \<Rightarrow> i32 \<Rightarrow> string list \<Rightarrow> nat \<Rightarrow> 'w
     \<Rightarrow> s3_object list \<Rightarrow> nat \<Rightarrow> 'w \<Rightarrow> bool"
  for st env mode mk where
  tree_last:
    "fetch_answer st env mode p (parallel_delimiter st d) mk cur w = (Ok page, w1) \<Longrightarrow>
     listing_subtrees st env mode mk (lp_sub_prefixes page) (Suc d) w1 ys j w2 \<Longrightarrow>
     \<not> lp_is_truncated page \<Longrightarrow>
     listing_tree st env mode mk p d cur w (lp_objects page @ ys) (Suc j) w2"
| tree_more:
    "fetch_answer st env mode p (parallel_delimiter st d) mk cur w = (Ok page, w1) \<Longrightarrow>
     listing_subtrees st env mode mk (lp_sub_prefixes page) (Suc d) w1 ys j w2 \<Longrightarrow>
     lp_is_truncated page \<Longrightarrow> next_cursor st p mode page cur = Ok cur' \<Longrightarrow>
     listing_tree st env mode mk p d cur' w2 xs k w3 \<Longrightarrow>
     listing_tree st env mode mk p d cur w (lp_objects page @ ys @ xs) (Suc (j + k)) w3"
| no_subtrees: "listing_subtrees st env mode mk [] d w [] 0 w"
| more_subtrees:
    "listing_tree st env mode mk (effective_prefix st p) d cursor_start w xs j w1 \<Longrightarrow>
     listing_subtrees st env mode mk ps d w1 ys k w2 \<Longrightarrow>
     listing_subtrees st env mode mk (p # ps) d w (xs @ ys) (j + k) w2"


section \<open>Facts about the requests\<close>

lemma exec_rate_limit_run:
  "exec_rate_limit st n s =
     (Ok (), if st_rate_limiter st = None then s else s\<lparr> rate_tokens := rate_tokens s + n \<rparr>)"
  by (simp add: exec_rate_limit_def split: option.splits)

lemma fetch_list_page_answer:
  "fetch_list_page st env mode p delim mk cur s =
     (case fetch_answer st env mode p delim mk cur (world s) of
        (r, w) \<Rightarrow> (r, s\<lparr> world := w \<rparr>))"
  by (cases mode)
    (auto simp: fetch_answer_def fetch_list_page_def sdk_call_def bind_def sys_new_def panic_def
      Let_def split: prod.splits sum.splits)

lemma send_listed_quiet:
  "quiet env \<Longrightarrow> \<not> cancelled s \<Longrightarrow>
     send_listed_objects env xs s = (Ok False, s\<lparr> sent := sent s @ xs \<rparr>)"
  by (induction xs arbitrary: s)
    (simp_all add: bind_def quiet_is_cancelled quiet_stage_send)

text \<open>What a listing changes: the world, the objects sent and the rate tokens.\<close>

definition rated :: "s3_storage \<Rightarrow> nat \<Rightarrow> nat" where
  "rated st n = (if st_rate_limiter st = None then 0 else n)"

definition listed :: "s3_storage \<Rightarrow> 'w \<Rightarrow> s3_object list \<Rightarrow> nat \<Rightarrow> 'w sys \<Rightarrow> 'w sys" where
  "listed st w xs n s =
     s\<lparr> world := w, sent := sent s @ xs, rate_tokens := rate_tokens s + rated st n \<rparr>"

lemma listed_simps [simp]:
  "world (listed st w xs n s) = w" "sent (listed st w xs n s) = sent s @ xs"
  "cancelled (listed st w xs n s) = cancelled s"
  "listed st w' ys m (listed st w xs n s) = listed st w' (xs @ ys) (n + m) s"
  "listed st (world s) [] 0 s = s"
  by (simp_all add: listed_def rated_def)

lemma list_page_step_quiet:
  assumes "quiet env" and "\<not> cancelled s"
    and "fetch_answer st env mode p delim mk cur (world s) = (Ok page, w)"
  shows "list_page_step st env mode p delim mk cur s =
     (Ok (Some page), listed st w (lp_objects page) 1 s)"
  using assms
  by (simp add: list_page_step_def bind_def seq_def quiet_is_cancelled exec_rate_limit_one_def
      exec_rate_limit_run fetch_list_page_answer send_listed_quiet listed_def rated_def)


section \<open>Completeness of the listings\<close>

lemma sequential_chain:
  assumes "quiet env" and "page_chain st env mode mk cur w xs k w'"
    and "world s = w" and "\<not> cancelled s" and "k \<le> n"
  shows "list_sequential_from n st env mode mk cur s = Some (Ok (), listed st w' xs k s)"
  using assms(2-)
proof (induction arbitrary: s n rule: page_chain.induct)
  case (last_page cur w page w')
  then show ?case
    by (cases n) (simp_all add: list_page_step_quiet [OF assms(1)])
next
  case (more_pages cur w page w1 cur' xs k w')
  then obtain m where n: "n = Suc m" "k \<le> m" by (cases n) auto
  from more_pages.IH [of "listed st w1 (lp_objects page) 1 s" m] more_pages n show ?case
    by (simp add: list_page_step_quiet [OF assms(1)])
qed

lemma run_subtasks_Cons:
  "quiet env \<Longrightarrow> \<not> cancelled s \<Longrightarrow> task p s = Some (r, s1) \<Longrightarrow>
     run_subtasks task env ps s1 = Some (rs, s2) \<Longrightarrow>
     run_subtasks task env (p # ps) s = Some (r # rs, s2)"
  by (simp add: quiet_is_cancelled)

lemma join_subtasks_ok: "set rs \<subseteq> {Ok ()} \<Longrightarrow> join_subtasks env mode rs = ret ()"
  by (induction env mode rs rule: join_subtasks.induct) auto

lemma parallel_tree:
  assumes "quiet env"
  shows "listing_tree st env mode mk p d cur w xs k w' \<Longrightarrow>
     \<forall>s n. world s = w \<longrightarrow> \<not> cancelled s \<longrightarrow> k \<le> n \<longrightarrow>
       list_with_parallel_from n st env mode p mk d cur s = Some (Ok (), listed st w' xs k s)"
    and "listing_subtrees st env mode mk ps d w xs k w' \<Longrightarrow>
     \<forall>s n. world s = w \<longrightarrow> \<not> cancelled s \<longrightarrow> k \<le> n \<longrightarrow>
       (\<exists>rs. set rs \<subseteq> {Ok ()} \<and>
         run_subtasks (\<lambda>sub. list_with_parallel_from n st env mode (effective_prefix st sub) mk d
           cursor_start) env ps s = Some (rs, listed st w' xs k s))"
proof (induction rule: listing_tree_listing_subtrees.inducts)
  case (tree_last p d cur w page w1 ys j w2)
  show ?case
  proof (intro allI impI)
    fix s :: "'a sys" and n
    assume s: "world s = w" "\<not> cancelled s" and "Suc j \<le> n"
    then obtain m where m: "n = Suc m" "j \<le> m" by (cases n) auto
    let ?s1 = "listed st w1 (lp_objects page) 1 s"
    from tree_last s m obtain rs where "set rs \<subseteq> {Ok ()}"
      "run_subtasks (\<lambda>sub. list_with_parallel_from m st env mode (effective_prefix st sub) mk
          (Suc d) cursor_start) env (lp_sub_prefixes page) ?s1 = Some (rs, listed st w2 ys j ?s1)"
      by (auto dest!: spec [of _ ?s1])
    with s m tree_last show "list_with_parallel_from n st env mode p mk d cur s
        = Some (Ok (), listed st w2 (lp_objects page @ ys) (Suc j) s)"
      by (auto simp: list_page_step_quiet [OF assms] join_subtasks_ok)
  qed
next
  case (tree_more p d cur w page w1 ys j w2 cur' xs k w3)
  show ?case
  proof (intro allI impI)
    fix s :: "'a sys" and n
    assume s: "world s = w" "\<not> cancelled s" and "Suc (j + k) \<le> n"
    then obtain m where m: "n = Suc m" "j \<le> m" "k \<le> m" by (cases n) auto
    let ?s1 = "listed st w1 (lp_objects page) 1 s"
    from tree_more s m obtain rs where "set rs \<subseteq> {Ok ()}"
      "run_subtasks (\<lambda>sub. list_with_parallel_from m st env mode (effective_prefix st sub) mk
          (Suc d) cursor_start) env (lp_sub_prefixes page) ?s1 = Some (rs, listed st w2 ys j ?s1)"
      by (auto dest!: spec [of _ ?s1])
    moreover have "list_with_parallel_from m st env mode p mk d cur' (listed st w2 ys j ?s1)
        = Some (Ok (), listed st w3 xs k (listed st w2 ys j ?s1))"
      using tree_more s m by simp
    ultimately show "list_with_parallel_from n st env mode p mk d cur s
        = Some (Ok (), listed st w3 (lp_objects page @ ys @ xs) (Suc (j + k)) s)"
      using s m tree_more
      by (auto simp: list_page_step_quiet [OF assms] join_subtasks_ok)
  qed
next
  case (no_subtrees d w)
  then show ?case by auto
next
  case (more_subtrees p d w xs j w1 ps ys k w2)
  show ?case
  proof (intro allI impI)
    fix s :: "'a sys" and n
    assume s: "world s = w" "\<not> cancelled s" and n: "j + k \<le> n"
    from n more_subtrees(4) s obtain rs where
      "set rs \<subseteq> {Ok ()}" "run_subtasks (\<lambda>sub. list_with_parallel_from n st env mode
          (effective_prefix st sub) mk d cursor_start) env ps (listed st w1 xs j s)
         = Some (rs, listed st w2 (xs @ ys) (j + k) s)"
      by (auto dest!: spec [of _ "listed st w1 xs j s"] spec [of _ n])
    moreover have "list_with_parallel_from n st env mode (effective_prefix st p) mk d cursor_start s
        = Some (Ok (), listed st w1 xs j s)"
      using more_subtrees s n by simp
    ultimately show "\<exists>rs. set rs \<subseteq> {Ok ()} \<and>
         run_subtasks (\<lambda>sub. list_with_parallel_from n st env mode (effective_prefix st sub) mk d
           cursor_start) env (p # ps) s = Some (rs, listed st w2 (xs @ ys) (j + k) s)"
      using run_subtasks_Cons [OF assms s(2)] by (intro exI [of _ "Ok () # rs"]) simp
  qed
qed


section \<open>Properties\<close>

text \<open>
  C23: the sequential listing is complete and terminates. When the service answers a chain of
  \<open>k\<close> pages, each truncated one naming a new position, the loop returns successfully after
  \<open>k\<close> rounds and has sent exactly the objects of the pages, in their order, taking one rate
  token per page.
\<close>

theorem list_sequential_complete:
  assumes "quiet env" and "\<not> cancelled s"
    and "page_chain st env mode mk cursor_start (world s) xs k w'" and "k \<le> n"
  shows "list_sequential n st env mode mk s = Some (Ok (), listed st w' xs k s)"
  using assms by (simp add: list_sequential_def sequential_chain)

abbreviation demo_listed :: "string list \<Rightarrow> s3_object list" where
  "demo_listed ks \<equiv> map (\<lambda>k. NotVersioning \<lparr> ob_key = Some k, ob_size = Some 1,
     ob_last_modified = Some (DateTime 0 0), ob_e_tag = None \<rparr>) ks"

abbreviation demo_page :: "string list \<Rightarrow> list_page" where
  "demo_page ks \<equiv> \<lparr> lp_objects = demo_listed ks, lp_sub_prefixes = [],
     lp_is_truncated = False, lp_continuation_token = None, lp_key_marker = None,
     lp_version_id_marker = None \<rparr>"

lemma demo_fetch:
  "fetch_answer (create_storage demo_config) demo_env Objects p delim mk cur w
     = (Ok (demo_page w), w)"
  by (simp add: fetch_answer_def fetch_list_page_def sdk_call_def create_storage_def
      s3_storage_create_def demo_config_def demo_client_def bind_def sys_new_def
      page_of_objects_def map_filter_simps comp_def)

lemma demo_chain:
  "page_chain (create_storage demo_config) demo_env Objects mk cur w (demo_listed w) 1 w"
  using page_chain.last_page [OF demo_fetch, of w] by simp

lemma demo_tree:
  "listing_tree (create_storage demo_config) demo_env Objects mk p d cur w (demo_listed w) 1 w"
  using tree_last [OF demo_fetch, where ys = "[]" and j = 0, simplified, OF no_subtrees] by simp

lemma sys_new_simps [simp]: "world (sys_new w) = w" "\<not> cancelled (sys_new w)"
  by (simp_all add: sys_new_def)

lemma quiet_demo [simp]: "quiet demo_env"
  by (simp add: quiet_def)

theorem list_sequential_complete_witness:
  "list_sequential 1 (create_storage demo_config) demo_env Objects 1000 (sys_new [''a/x'', ''a/y''])
   = Some (Ok (), listed (create_storage demo_config) [''a/x'', ''a/y'']
       (demo_listed [''a/x'', ''a/y'']) 1 (sys_new [''a/x'', ''a/y'']))"
  by (rule list_sequential_complete) (simp_all only: quiet_demo le_refl one_le_numeral sys_new_simps not_False_eq_True demo_chain)

text \<open>
  C8: the parallel listing is complete and terminates. When the answers of the service form a
  finite tree of \<open>k\<close> pages (with the delimiter on the levels up to the configured depth, each
  sub-prefix of a page having its own tree), the listing returns successfully within \<open>k\<close>
  rounds, has sent every object of the tree once, and took one rate token per page.
\<close>

theorem list_with_parallel_complete:
  assumes "quiet env" and "\<not> cancelled s"
    and "listing_tree st env mode mk (effective_prefix st p) d cursor_start (world s) xs k w'"
    and "k \<le> n"
  shows "list_with_parallel n st env mode p mk d s = Some (Ok (), listed st w' xs k s)"
  using assms by (simp add: list_with_parallel_def parallel_tree)

theorem list_with_parallel_complete_witness:
  "list_with_parallel 5 (create_storage demo_config) demo_env Objects ''a/'' 1000 1
     (sys_new [''a/x'', ''a/y''])
   = Some (Ok (), listed (create_storage demo_config) [''a/x'', ''a/y'']
       (demo_listed [''a/x'', ''a/y'']) 1 (sys_new [''a/x'', ''a/y'']))"
  by (rule list_with_parallel_complete) (simp_all only: quiet_demo le_refl one_le_numeral sys_new_simps not_False_eq_True demo_tree)

text \<open>
  Paging never stays in place. From a truncated page the loop goes on only from a position
  that differs from the one it just listed; the other truncated answers (no position, or the
  same one again) end the listing with an error.
\<close>

theorem next_cursor_progress:
  "(case next_cursor st p mode page cur of
      Ok cur' \<Rightarrow> cur' \<noteq> cur \<and>
        (case mode of
           Objects \<Rightarrow> cu_continuation_token cur' = lp_continuation_token page
             \<and> lp_continuation_token page \<noteq> None
         | Versions \<Rightarrow> cu_key_marker cur' = lp_key_marker page \<and> lp_key_marker page \<noteq> None
             \<and> cu_version_id_marker cur' = lp_version_id_marker page)
    | Err e \<Rightarrow> exit_code_from_error e = 1
    | Panic m \<Rightarrow> False)"
  by (cases mode) (auto simp: next_cursor_def Let_def exit_code_from_error_def dest: arg_cong
      [where f = cu_continuation_token] arg_cong [where f = cu_key_marker]
      arg_cong [where f = cu_version_id_marker])

end
