(* ===== verification/Deleter.thy ===== *)
theory Deleter
  imports Storage
begin

text \<open>
  The deletion stage (\<open>src/deleter/mod.rs\<close>, \<open>batch.rs\<close>, \<open>single.rs\<close>): the two deletion backends
  behind their common trait, the content-type, metadata and tag filters that need a request per
  object, the \<open>--max-delete\<close> threshold, the buffer of a worker and its loop.

  The worker's own state is its buffer; it is threaded through the operations as the result of
  each, and the shared state is the one of the run.
\<close>

section \<open>Results of a deletion\<close>

record deleted_key =
  dk_key :: string
  dk_version_id :: "string option"

record failed_key =
  fk_key :: string
  fk_version_id :: "string option"
  fk_error_code :: string
  fk_error_message :: string

record delete_result =
  dr_deleted :: "deleted_key list"
  dr_failed :: "failed_key list"

definition delete_result_default :: delete_result where
  "delete_result_default = \<lparr> dr_deleted = [], dr_failed = [] \<rparr>"

definition push_deleted :: "deleted_key \<Rightarrow> delete_result \<Rightarrow> delete_result" where
  "push_deleted d r = r\<lparr> dr_deleted := dr_deleted r @ [d] \<rparr>"

definition push_failed :: "failed_key \<Rightarrow> delete_result \<Rightarrow> delete_result" where
  "push_failed f r = r\<lparr> dr_failed := dr_failed r @ [f] \<rparr>"


section \<open>The batch backend\<close>

definition MAX_BATCH_SIZE :: nat where
  "MAX_BATCH_SIZE = 1000"

definition is_retryable_error_code :: "string \<Rightarrow> bool" where
  "is_retryable_error_code code \<longleftrightarrow>
     code \<in> {''InternalError'', ''SlowDown'', ''ServiceUnavailable'', ''RequestTimeout'', ''unknown''}"

text \<open>
  The attempts of the fallback, \<open>n\<close> of them left; an attempt after the first one sleeps first,
  which changes nothing here.
\<close>

fun retry_attempts ::
  "nat \<Rightarrow> s3_storage \<Rightarrow> 'w env \<Rightarrow> string \<Rightarrow> string option \<Rightarrow> string option \<Rightarrow> ('w sys, bool) prog"
  where
  "retry_attempts 0 st env key vid etag = ret False"
| "retry_attempts (Suc n) st env key vid etag =
     catch (delete_object st env key vid etag)
       (\<lambda>_. ret True)
       (\<lambda>e. retry_attempts n st env key vid etag)"

definition retry_failed_key_with_single_delete ::
  "s3_storage \<Rightarrow> 'w env \<Rightarrow> config \<Rightarrow> string \<Rightarrow> string option \<Rightarrow> string option \<Rightarrow> string \<Rightarrow> string
     \<Rightarrow> ('w sys, failed_key + deleted_key) prog" where
  "retry_failed_key_with_single_delete st env cfg key vid etag code message =
     bind (retry_attempts (Suc (unat (force_retry_count (force_retry_config cfg))))
             st env key vid etag)
       (\<lambda>ok. ret (if ok then Inr \<lparr> dk_key = key, dk_version_id = vid \<rparr>
                  else Inl \<lparr> fk_key = key, fk_version_id = vid, fk_error_code = code,
                             fk_error_message = message \<rparr>))"

text \<open>Building the request and the lookup reads every key, so an object without one panics.\<close>

fun read_keys :: "s3_object list \<Rightarrow> (string \<times> s3_object) list result" where
  "read_keys [] = Ok []"
| "read_keys (x # xs) =
     obind (s3_key x) (\<lambda>k. obind (read_keys xs) (\<lambda>kxs. Ok ((k, x) # kxs)))"

definition make_object_identifier :: "config \<Rightarrow> string \<times> s3_object \<Rightarrow> object_identifier" where
  "make_object_identifier cfg kx = (case kx of (k, x) \<Rightarrow>
     \<lparr> oi_key = k, oi_version_id = s3_version_id x,
       oi_e_tag = (if if_match cfg then s3_e_tag x else None) \<rparr>)"

definition object_lookup ::
  "(string \<times> s3_object) list \<Rightarrow> string \<times> string option \<Rightarrow> s3_object option" where
  "object_lookup kxs = collect_map (map (\<lambda>(k, x). ((k, s3_version_id x), x)) kxs)"

definition deleted_of_entry :: "deleted_entry \<Rightarrow> deleted_key" where
  "deleted_of_entry d =
     \<lparr> dk_key = unwrap_or (de_key d) [], dk_version_id = de_version_id d \<rparr>"

definition handle_delete_error ::
  "s3_storage \<Rightarrow> 'w env \<Rightarrow> config \<Rightarrow> (string \<times> string option \<Rightarrow> s3_object option)
     \<Rightarrow> error_entry \<Rightarrow> delete_result \<Rightarrow> ('w sys, delete_result) prog" where
  "handle_delete_error st env cfg lookup err result =
     (let key = unwrap_or (ee_key err) ''unknown'';
          vid = ee_version_id err;
          code = unwrap_or (ee_code err) ''unknown'';
          message = unwrap_or (ee_message err) ''no message'' in
      if is_retryable_error_code code then
        let etag = (if if_match cfg then Option.bind (lookup (key, vid)) s3_e_tag else None) in
        bind (retry_failed_key_with_single_delete st env cfg key vid etag code message)
          (\<lambda>r. case r of
             Inr d \<Rightarrow> ret (push_deleted d result)
           | Inl f \<Rightarrow> seq (send_stats (DeleteError key)) (ret (push_failed f result)))
      else
        seq (send_stats (DeleteError key))
          (ret (push_failed \<lparr> fk_key = key, fk_version_id = vid, fk_error_code = code,
                              fk_error_message = message \<rparr> result)))"

fun handle_delete_errors ::
  "s3_storage \<Rightarrow> 'w env \<Rightarrow> config \<Rightarrow> (string \<times> string option \<Rightarrow> s3_object option)
     \<Rightarrow> error_entry list \<Rightarrow> delete_result \<Rightarrow> ('w sys, delete_result) prog" where
  "handle_delete_errors st env cfg lookup [] result = ret result"
| "handle_delete_errors st env cfg lookup (e # es) result =
     bind (handle_delete_error st env cfg lookup e result)
       (handle_delete_errors st env cfg lookup es)"

definition delete_chunk ::
  "s3_storage \<Rightarrow> 'w env \<Rightarrow> config \<Rightarrow> s3_object list \<Rightarrow> delete_result \<Rightarrow> ('w sys, delete_result) prog"
  where
  "delete_chunk st env cfg chunk result =
     bind (lift (read_keys chunk)) (\<lambda>kxs.
     bind (delete_objects st env (map (make_object_identifier cfg) kxs)) (\<lambda>response.
       handle_delete_errors st env cfg (object_lookup kxs) (do_errors response)
         (result\<lparr> dr_deleted := dr_deleted result @ map deleted_of_entry (do_deleted response) \<rparr>)))"

fun delete_chunks ::
  "s3_storage \<Rightarrow> 'w env \<Rightarrow> config \<Rightarrow> s3_object list list \<Rightarrow> delete_result
     \<Rightarrow> ('w sys, delete_result) prog" where
  "delete_chunks st env cfg [] result = ret result"
| "delete_chunks st env cfg (c # cs) result =
     bind (delete_chunk st env cfg c result) (delete_chunks st env cfg cs)"

definition batch_delete ::
  "s3_storage \<Rightarrow> 'w env \<Rightarrow> config \<Rightarrow> s3_object list \<Rightarrow> ('w sys, delete_result) prog" where
  "batch_delete st env cfg objects =
     (if objects = [] then ret delete_result_default
      else let size = min (unat (batch_size cfg)) MAX_BATCH_SIZE in
        if size = 0 then panic ''chunk size must be non-zero''
        else delete_chunks st env cfg (chunks size objects) delete_result_default)"


section \<open>The single-object backend\<close>

text \<open>The first service error of the chain that is a \<open>DeleteObject\<close> error with a code.\<close>

fun delete_object_error_code :: "anyhow \<Rightarrow> string option" where
  "delete_object_error_code (Sdk e) = (case e of
       ServiceError op se d \<Rightarrow> if op = DeleteObjectOp then se_code se else None
     | TransportError op d \<Rightarrow> None)"
| "delete_object_error_code (Context c e) = delete_object_error_code e"
| "delete_object_error_code (App e) = None"
| "delete_object_error_code (Message m) = None"

definition extract_delete_object_error_code :: "anyhow \<Rightarrow> string" where
  "extract_delete_object_error_code e = unwrap_or (delete_object_error_code e) ''unknown''"

text \<open>
  The backend deletes the first object of its slice. The length assertion is a debug assertion,
  absent in a release build; indexing an empty slice panics.
\<close>

definition single_delete ::
  "s3_storage \<Rightarrow> 'w env \<Rightarrow> config \<Rightarrow> s3_object list \<Rightarrow> ('w sys, delete_result) prog" where
  "single_delete st env cfg objects = (case objects of
       [] \<Rightarrow> panic ''index out of bounds: the len is 0 but the index is 0''
     | obj # _ \<Rightarrow>
         bind (lift (s3_key obj)) (\<lambda>key.
         let vid = s3_version_id obj; etag = (if if_match cfg then s3_e_tag obj else None) in
         catch (delete_object st env key vid etag)
           (\<lambda>_. ret (push_deleted \<lparr> dk_key = key, dk_version_id = vid \<rparr> delete_result_default))
           (\<lambda>e. seq (send_stats (DeleteError key))
              (ret (push_failed \<lparr> fk_key = key, fk_version_id = vid,
                      fk_error_code = extract_delete_object_error_code e,
                      fk_error_message = anyhow_display e \<rparr> delete_result_default)))))"


section \<open>Formatting for the attribute filters\<close>

text \<open>Sorting strings byte by byte, as \<open>str::cmp\<close> does.\<close>

definition format_metadata :: "libs \<Rightarrow> (string \<times> string) list \<Rightarrow> string" where
  "format_metadata lib metadata =
     join '','' (map (\<lambda>(k, v). k @ ''='' @ url_encode lib v) (sort_key fst metadata))"

definition format_tags :: "libs \<Rightarrow> tag list \<Rightarrow> string" where
  "format_tags lib tags =
     join ''&'' (map (\<lambda>(k, v). url_encode lib k @ ''='' @ url_encode lib v) (sort_key fst tags))"

definition is_not_found_error :: "anyhow \<Rightarrow> bool" where
  "is_not_found_error e = (case downcast_sdk e of
       Some (ServiceError op se d) \<Rightarrow>
         (op = HeadObjectOp \<and> se_not_found_variant se) \<or>
         (op = GetObjectTaggingOp \<and>
            (se_code se = Some ''NoSuchKey'' \<or> se_code se = Some ''NotFound'' \<or> se_status se = 404))
     | _ \<Rightarrow> False)"


section \<open>The attribute filters\<close>

definition INCLUDE_CONTENT_TYPE_REGEX_FILTER_NAME :: string where
  "INCLUDE_CONTENT_TYPE_REGEX_FILTER_NAME = ''include_content_type_regex_filter''"
definition EXCLUDE_CONTENT_TYPE_REGEX_FILTER_NAME :: string where
  "EXCLUDE_CONTENT_TYPE_REGEX_FILTER_NAME = ''exclude_content_type_regex_filter''"
definition INCLUDE_METADATA_REGEX_FILTER_NAME :: string where
  "INCLUDE_METADATA_REGEX_FILTER_NAME = ''include_metadata_regex_filter''"
definition EXCLUDE_METADATA_REGEX_FILTER_NAME :: string where
  "EXCLUDE_METADATA_REGEX_FILTER_NAME = ''exclude_metadata_regex_filter''"
definition INCLUDE_TAG_REGEX_FILTER_NAME :: string where
  "INCLUDE_TAG_REGEX_FILTER_NAME = ''include_tag_regex_filter''"
definition EXCLUDE_TAG_REGEX_FILTER_NAME :: string where
  "EXCLUDE_TAG_REGEX_FILTER_NAME = ''exclude_tag_regex_filter''"
definition DELETE_MARKER_ATTRIBUTE_FILTER_NAME :: string where
  "DELETE_MARKER_ATTRIBUTE_FILTER_NAME = ''delete_marker_attribute_filter''"

abbreviation quote :: string where
  "quote \<equiv> [CHR 0x27]"

definition decide_delete_by_regex ::
  "libs \<Rightarrow> string \<Rightarrow> regex option \<Rightarrow> string option \<Rightarrow> string \<Rightarrow> bool \<Rightarrow> bool result" where
  "decide_delete_by_regex lib key re value name is_include = (case re of
       None \<Rightarrow> Ok True
     | Some r \<Rightarrow> (case value of
           None \<Rightarrow> Ok (\<not> is_include)
         | Some v \<Rightarrow> (case regex_is_match lib r v of
               Inl m \<Rightarrow> Err (Message (''regex match failed for filter '' @ quote @ name @ quote @ '', key ''
                                 @ quote @ key @ quote @ '': '' @ m))
             | Inr b \<Rightarrow> Ok (if is_include then b else \<not> b))))"

definition emit_filter_skip :: "'w env \<Rightarrow> config \<Rightarrow> s3_object \<Rightarrow> string \<Rightarrow> ('w sys, unit) prog" where
  "emit_filter_skip env cfg x name =
     bind (lift (s3_key x)) (\<lambda>key.
     seq (send_stats (DeleteSkip key))
       (if em_callback_registered (event_manager cfg)
        then bind (lift (filtered_event (env_libs env) (''Object filtered by '' @ name) x))
               (trigger env cfg)
        else ret ()))"

definition handle_api_error ::
  "'w env \<Rightarrow> anyhow \<Rightarrow> string \<Rightarrow> string \<Rightarrow> ('w sys, bool) prog" where
  "handle_api_error env e key operation =
     (if is_not_found_error e then seq (send_stats (DeleteSkip key)) (ret True)
      else seq cancel (throw (Context (operation @ '' failed for key: '' @ key)
                                (Message (anyhow_display_alt e)))))"

text \<open>
  One regex decision: \<open>True\<close> when the object is filtered out, after the skip has been emitted.
\<close>

definition regex_rejects ::
  "'w env \<Rightarrow> config \<Rightarrow> s3_object \<Rightarrow> string \<Rightarrow> regex option \<Rightarrow> string option \<Rightarrow> string \<Rightarrow> bool
     \<Rightarrow> ('w sys, bool) prog" where
  "regex_rejects env cfg x key re value name is_include =
     bind (lift (decide_delete_by_regex (env_libs env) key re value name is_include)) (\<lambda>ok.
       if ok then ret False else seq (emit_filter_skip env cfg x name) (ret True))"

definition or_else :: "('s, bool) prog \<Rightarrow> ('s, bool) prog \<Rightarrow> ('s, bool) prog" where
  "or_else m n = bind m (\<lambda>b. if b then ret True else n)"

definition needs_head_object :: "filter_config \<Rightarrow> bool" where
  "needs_head_object fc \<longleftrightarrow>
     include_content_type_regex fc \<noteq> None \<or> exclude_content_type_regex fc \<noteq> None \<or>
     include_metadata_regex fc \<noteq> None \<or> exclude_metadata_regex fc \<noteq> None"

definition metadata_value :: "libs \<Rightarrow> head_output \<Rightarrow> string option" where
  "metadata_value lib out = (case ho_metadata out of
       Some m \<Rightarrow> if m = [] then None else Some (format_metadata lib m)
     | None \<Rightarrow> None)"

definition apply_head_object_filters ::
  "s3_storage \<Rightarrow> 'w env \<Rightarrow> config \<Rightarrow> s3_object \<Rightarrow> ('w sys, bool) prog" where
  "apply_head_object_filters st env cfg x =
     (let fc = filter_config cfg in
      if \<not> needs_head_object fc then ret False
      else bind (lift (s3_key x)) (\<lambda>key.
        if s3_is_delete_marker x then
          seq (emit_filter_skip env cfg x DELETE_MARKER_ATTRIBUTE_FILTER_NAME) (ret True)
        else catch (head_object st env key (s3_version_id x))
          (\<lambda>out.
            let ct = ho_content_type out; md = metadata_value (env_libs env) out in
            or_else (regex_rejects env cfg x key (include_content_type_regex fc) ct
                       INCLUDE_CONTENT_TYPE_REGEX_FILTER_NAME True)
            (or_else (regex_rejects env cfg x key (exclude_content_type_regex fc) ct
                        EXCLUDE_CONTENT_TYPE_REGEX_FILTER_NAME False)
            (or_else (regex_rejects env cfg x key (include_metadata_regex fc) md
                        INCLUDE_METADATA_REGEX_FILTER_NAME True)
               (regex_rejects env cfg x key (exclude_metadata_regex fc) md
                  EXCLUDE_METADATA_REGEX_FILTER_NAME False))))
          (\<lambda>e. handle_api_error env e key ''head_object'')))"

definition needs_tagging :: "filter_config \<Rightarrow> bool" where
  "needs_tagging fc \<longleftrightarrow> include_tag_regex fc \<noteq> None \<or> exclude_tag_regex fc \<noteq> None"

definition apply_tag_filters ::
  "s3_storage \<Rightarrow> 'w env \<Rightarrow> config \<Rightarrow> s3_object \<Rightarrow> ('w sys, bool) prog" where
  "apply_tag_filters st env cfg x =
     (let fc = filter_config cfg in
      if \<not> needs_tagging fc then ret False
      else bind (lift (s3_key x)) (\<lambda>key.
        if s3_is_delete_marker x then
          seq (emit_filter_skip env cfg x DELETE_MARKER_ATTRIBUTE_FILTER_NAME) (ret True)
        else catch (get_object_tagging st env key (s3_version_id x))
          (\<lambda>tags.
            let value = Some (format_tags (env_libs env) tags) in
            or_else (regex_rejects env cfg x key (include_tag_regex fc) value
                       INCLUDE_TAG_REGEX_FILTER_NAME True)
               (regex_rejects env cfg x key (exclude_tag_regex fc) value
                  EXCLUDE_TAG_REGEX_FILTER_NAME False))
          (\<lambda>e. handle_api_error env e key ''get_object_tagging'')))"


section \<open>Deleting the buffer\<close>

definition use_single_deleter :: "config \<Rightarrow> bool" where
  "use_single_deleter cfg \<longleftrightarrow> batch_size cfg \<le> 1"

definition effective_batch_size :: "config \<Rightarrow> nat" where
  "effective_batch_size cfg =
     (if batch_size cfg \<le> 1 then 1 else min (unat (batch_size cfg)) MAX_BATCH_SIZE)"

definition deleter_delete ::
  "s3_storage \<Rightarrow> 'w env \<Rightarrow> config \<Rightarrow> s3_object list \<Rightarrow> ('w sys, delete_result) prog" where
  "deleter_delete st env cfg objects =
     (if use_single_deleter cfg then single_delete st env cfg objects
      else batch_delete st env cfg objects)"

definition dry_run_result :: "(string \<times> s3_object) list \<Rightarrow> delete_result" where
  "dry_run_result kxs =
     \<lparr> dr_deleted = map (\<lambda>(k, x). \<lparr> dk_key = k, dk_version_id = s3_version_id x \<rparr>) kxs,
       dr_failed = [] \<rparr>"

definition deleted_size ::
  "(string \<times> string option \<Rightarrow> s3_object option) \<Rightarrow> deleted_key \<Rightarrow> u64 result" where
  "deleted_size lookup dk = (case lookup (dk_key dk, dk_version_id dk) of
       None \<Rightarrow> Ok 0
     | Some x \<Rightarrow> s3_size x)"

definition deleted_last_modified ::
  "libs \<Rightarrow> (string \<times> string option \<Rightarrow> s3_object option) \<Rightarrow> deleted_key \<Rightarrow> string result" where
  "deleted_last_modified lib lookup dk = (case lookup (dk_key dk, dk_version_id dk) of
       None \<Rightarrow> Ok []
     | Some x \<Rightarrow> fmt_last_modified lib x)"

definition record_deleted ::
  "'w env \<Rightarrow> config \<Rightarrow> (string \<times> string option \<Rightarrow> s3_object option) \<Rightarrow> deleted_key
     \<Rightarrow> ('w sys, unit) prog" where
  "record_deleted env cfg lookup dk =
     bind (lift (deleted_size lookup dk)) (\<lambda>size.
     bind (lift (deleted_last_modified (env_libs env) lookup dk)) (\<lambda>lm.
     seq (update (\<lambda>s. s\<lparr> report := increment_deleted size (report s) \<rparr>))
     (seq (send_stats (DeleteComplete (dk_key dk)))
     (seq (send_stats (DeleteBytes size))
        (trigger env cfg ((event_data_new DELETE_COMPLETE)
           \<lparr> ed_dry_run := dry_run cfg, ed_key := Some (dk_key dk),
             ed_version_id := dk_version_id dk, ed_size := Some size,
             ed_last_modified := Some lm \<rparr>))))))"

definition record_failed ::
  "'w env \<Rightarrow> config \<Rightarrow> failed_key \<Rightarrow> ('w sys, unit) prog" where
  "record_failed env cfg fk =
     seq (update (\<lambda>s. s\<lparr> report := increment_failed (report s) \<rparr>))
       (trigger env cfg ((event_data_new DELETE_FAILED)
          \<lparr> ed_dry_run := dry_run cfg, ed_key := Some (fk_key fk),
            ed_version_id := fk_version_id fk,
            ed_error_message := Some (fk_error_code fk @ '': '' @ fk_error_message fk) \<rparr>))"

text \<open>Forwarding the batch; a closed channel ends it without an error.\<close>

fun forward_batch :: "'w env \<Rightarrow> s3_object list \<Rightarrow> ('w sys, unit) prog" where
  "forward_batch env [] = ret ()"
| "forward_batch env (x # xs) =
     bind (stage_send env x) (\<lambda>r. if r = SendClosed then ret () else forward_batch env xs)"

definition run_deleter ::
  "s3_storage \<Rightarrow> 'w env \<Rightarrow> config \<Rightarrow> (string \<times> s3_object) list \<Rightarrow> s3_object list
     \<Rightarrow> ('w sys, delete_result) prog" where
  "run_deleter st env cfg kxs batch =
     (if dry_run cfg then ret (dry_run_result kxs)
      else catch (deleter_delete st env cfg batch) ret
        (\<lambda>e. seq cancel (throw (Context ''delete worker has been cancelled with error.'' e))))"

text \<open>
  \<open>delete_buffered_objects\<close> on the taken batch; the result is the buffer afterwards. A
  cancelled run returns early and keeps the buffer.
\<close>

definition delete_batch ::
  "s3_storage \<Rightarrow> 'w env \<Rightarrow> config \<Rightarrow> s3_object list \<Rightarrow> ('w sys, unit) prog" where
  "delete_batch st env cfg batch =
     bind (lift (read_keys batch)) (\<lambda>kxs.
     bind (run_deleter st env cfg kxs batch) (\<lambda>result.
     seq (for_each (record_deleted env cfg (object_lookup kxs)) (dr_deleted result))
     (seq (for_each (record_failed env cfg) (dr_failed result))
       (if dr_failed result \<noteq> [] then
          seq set_warning
            (if warn_as_error cfg then cancel else forward_batch env batch)
        else forward_batch env batch))))"

definition delete_buffered_objects ::
  "s3_storage \<Rightarrow> 'w env \<Rightarrow> config \<Rightarrow> s3_object list \<Rightarrow> ('w sys, s3_object list) prog" where
  "delete_buffered_objects st env cfg buffer =
     (if buffer = [] then ret []
      else bind (is_cancelled env) (\<lambda>c.
        if c then ret buffer
        else seq (delete_batch st env cfg buffer) (ret [])))"


section \<open>One object\<close>

definition max_delete_message :: string where
  "max_delete_message = ''--max-delete has been reached. delete operation has been cancelled.''"

text \<open>The object that passes the threshold: flush what was allowed, warn, and cancel the run.\<close>

definition max_delete_exceeded ::
  "s3_storage \<Rightarrow> 'w env \<Rightarrow> config \<Rightarrow> s3_object \<Rightarrow> s3_object list
     \<Rightarrow> ('w sys, bool \<times> s3_object list) prog" where
  "max_delete_exceeded st env cfg x buffer =
     bind (delete_buffered_objects st env cfg buffer) (\<lambda>buffer'.
     bind (lift (s3_key x)) (\<lambda>key.
     seq (send_stats (DeleteError key))
     (seq set_warning
     (seq (trigger env cfg ((event_data_new DELETE_FAILED)
             \<lparr> ed_key := Some key, ed_message := Some max_delete_message \<rparr>))
     (seq cancel (ret (True, buffer')))))))"

text \<open>\<open>True\<close>: the threshold was passed and the run cancelled.\<close>

definition check_max_delete ::
  "s3_storage \<Rightarrow> 'w env \<Rightarrow> config \<Rightarrow> s3_object \<Rightarrow> s3_object list
     \<Rightarrow> ('w sys, bool \<times> s3_object list) prog" where
  "check_max_delete st env cfg x buffer =
     bind (gets delete_counter) (\<lambda>previous.
     seq (update (\<lambda>s. s\<lparr> delete_counter := previous + 1 \<rparr>))
       (case max_delete cfg of
          None \<Rightarrow> ret (False, buffer)
        | Some limit \<Rightarrow>
            if previous + 1 \<le> limit then ret (False, buffer)
            else max_delete_exceeded st env cfg x buffer))"

definition buffer_and_delete ::
  "s3_storage \<Rightarrow> 'w env \<Rightarrow> config \<Rightarrow> s3_object \<Rightarrow> s3_object list
     \<Rightarrow> ('w sys, s3_object list) prog" where
  "buffer_and_delete st env cfg x buffer =
     (let buffer' = buffer @ [x] in
      if effective_batch_size cfg \<le> length buffer'
      then delete_buffered_objects st env cfg buffer' else ret buffer')"

definition process_object ::
  "s3_storage \<Rightarrow> 'w env \<Rightarrow> config \<Rightarrow> s3_object \<Rightarrow> s3_object list
     \<Rightarrow> ('w sys, s3_object list) prog" where
  "process_object st env cfg x buffer =
     bind (apply_head_object_filters st env cfg x) (\<lambda>skip.
       if skip then ret buffer
       else bind (apply_tag_filters st env cfg x) (\<lambda>skip.
         if skip then ret buffer
         else bind (check_max_delete st env cfg x buffer) (\<lambda>(reached, buffer').
           if reached then ret buffer'
           else buffer_and_delete st env cfg x buffer')))"


section \<open>The loop of a worker\<close>

text \<open>The objects it receives, after which the channel is closed; the result is its buffer.\<close>

fun receive_and_delete ::
  "s3_storage \<Rightarrow> 'w env \<Rightarrow> config \<Rightarrow> s3_object list \<Rightarrow> s3_object list
     \<Rightarrow> ('w sys, s3_object list) prog" where
  "receive_and_delete st env cfg [] buffer =
     bind (select_cancelled env) (\<lambda>c.
       if c then ret buffer else delete_buffered_objects st env cfg buffer)"
| "receive_and_delete st env cfg (x # xs) buffer =
     bind (select_cancelled env) (\<lambda>c.
       if c then ret buffer
       else bind (process_object st env cfg x buffer) (\<lambda>buffer'.
         bind (is_cancelled env) (\<lambda>c.
           if c then ret buffer' else receive_and_delete st env cfg xs buffer')))"

definition object_deleter_delete ::
  "s3_storage \<Rightarrow> 'w env \<Rightarrow> config \<Rightarrow> s3_object list \<Rightarrow> ('w sys, s3_object list) prog" where
  "object_deleter_delete st env cfg xs = receive_and_delete st env cfg xs []"


section \<open>The contract of a deletion backend\<close>

text \<open>What a backend leaves alone: everything but the world, the statistics and the rate tokens.\<close>

definition backend_frame :: "'w sys \<Rightarrow> 'w sys \<Rightarrow> bool" where
  "backend_frame s0 s \<longleftrightarrow> report s = report s0 \<and> delete_counter s = delete_counter s0
     \<and> cancelled s = cancelled s0 \<and> has_warning s = has_warning s0 \<and> sent s = sent s0
     \<and> events s = events s0 \<and> pipeline_stats s = pipeline_stats s0
     \<and> stats_closed s = stats_closed s0"

lemma keeps_frame_basic [keeps_intros]:
  "keeps (backend_frame s0) (send_stats d)" "keeps (backend_frame s0) (exec_rate_limit st n)"
  "keeps (backend_frame s0) (sdk_call st env ctx f)"
  by (auto simp: keeps_def backend_frame_def exec_rate_limit_run sdk_call_def panic_def
      split: prod.splits sum.splits)

lemma keeps_frame_requests [keeps_intros]:
  "keeps (backend_frame s0) (delete_object st env k v e)"
  "keeps (backend_frame s0) (delete_objects st env ids)"
  by (auto simp: delete_object_def delete_objects_def exec_rate_limit_one_def
      exec_rate_limit_n_def intro!: keeps_intros)

text \<open>The identities a result reports, deleted or failed, with their multiplicities.\<close>

definition result_idents :: "delete_result \<Rightarrow> (string \<times> string option) multiset" where
  "result_idents r = mset (map (\<lambda>d. (dk_key d, dk_version_id d)) (dr_deleted r))
     + mset (map (\<lambda>f. (fk_key f, fk_version_id f)) (dr_failed r))"

lemma result_idents_simps [simp]:
  "result_idents delete_result_default = {#}"
  "result_idents (push_deleted d r) = add_mset (dk_key d, dk_version_id d) (result_idents r)"
  "result_idents (push_failed f r) = add_mset (fk_key f, fk_version_id f) (result_idents r)"
  by (simp_all add: result_idents_def delete_result_default_def push_deleted_def push_failed_def)

text \<open>
  The documented behaviour of \<open>DeleteObjects\<close> in verbose mode, which the program uses: a
  successful response reports every identifier of the request, once each, as deleted or as an
  error.
\<close>

definition response_idents :: "delete_objects_output \<Rightarrow> (string \<times> string option) multiset" where
  "response_idents out =
     mset (map (\<lambda>d. (unwrap_or (de_key d) [], de_version_id d)) (do_deleted out))
     + mset (map (\<lambda>e. (unwrap_or (ee_key e) ''unknown'', ee_version_id e)) (do_errors out))"

definition reports_every_key :: "'w client \<Rightarrow> bool" where
  "reports_every_key cl \<longleftrightarrow> (\<forall>rq ids w out w'. cl_delete_objects cl rq ids w = (Inr out, w') \<longrightarrow>
     response_idents out = mset (map (\<lambda>i. (oi_key i, oi_version_id i)) ids))"

locale deletion_backend =
  fixes del :: "s3_storage \<Rightarrow> 'w env \<Rightarrow> config \<Rightarrow> s3_object list \<Rightarrow> ('w sys, delete_result) prog"
    and admits :: "config \<Rightarrow> s3_object list \<Rightarrow> bool"
  assumes frame: "keeps (backend_frame s0) (del st env cfg objs)"
    and accounts: "reports_every_key (env_client env) \<Longrightarrow> admits cfg objs \<Longrightarrow>
      del st env cfg objs s = (Ok r, s') \<Longrightarrow> result_idents r = mset (map ident_of objs)"
begin

lemma result_length:
  assumes "reports_every_key (env_client env)" and "admits cfg objs"
    and "del st env cfg objs s = (Ok r, s')"
  shows "length (dr_deleted r) + length (dr_failed r) = length objs"
  using arg_cong [OF accounts [OF assms], of size] by (simp add: result_idents_def)

lemma deleted_are_objects:
  assumes "reports_every_key (env_client env)" and "admits cfg objs"
    and "del st env cfg objs s = (Ok r, s')" and "d \<in> set (dr_deleted r)"
  shows "(dk_key d, dk_version_id d) \<in> ident_of ` set objs"
proof -
  have "(dk_key d, dk_version_id d) \<in># result_idents r"
    using assms(4) by (force simp: result_idents_def)
  then show ?thesis by (simp add: accounts [OF assms(1-3)])
qed

lemma run_frame: "del st env cfg objs s = (r, s') \<Longrightarrow> backend_frame s s'"
  by (rule keepsD [OF frame]) (simp_all add: backend_frame_def)

end


section \<open>The backends satisfy it\<close>

lemma keeps_frame_retry [keeps_intros]:
  "keeps (backend_frame s0) (retry_attempts n st env k v e)"
  by (induction n) (auto intro!: keeps_intros)

lemma keeps_frame_handle_error [keeps_intros]:
  "keeps (backend_frame s0) (handle_delete_error st env cfg lookup err result)"
  by (auto simp: handle_delete_error_def retry_failed_key_with_single_delete_def Let_def
      split: sum.splits intro!: keeps_intros)

lemma keeps_frame_handle_errors [keeps_intros]:
  "keeps (backend_frame s0) (handle_delete_errors st env cfg lookup errs result)"
  by (induction errs arbitrary: result) (auto intro!: keeps_intros)

lemma keeps_frame_chunks [keeps_intros]:
  "keeps (backend_frame s0) (delete_chunks st env cfg cs result)"
  by (induction cs arbitrary: result) (auto simp: delete_chunk_def intro!: keeps_intros)

lemma read_keys_Ok:
  "read_keys xs = Ok kxs \<Longrightarrow> map snd kxs = xs \<and> list_all (\<lambda>(k, x). s3_key x = Ok k) kxs"
proof (induction xs arbitrary: kxs)
  case (Cons x xs)
  then show ?case by (auto simp: obind_eq_Ok)
qed simp

lemma read_keys_wf: "list_all wf_object xs \<Longrightarrow> read_keys xs = Ok (map (\<lambda>x. (key_of x, x)) xs)"
  by (induction xs) (simp_all add: wf_simps)

lemma handle_delete_error_accounts:
  assumes "handle_delete_error st env cfg lookup err result s = (Ok r, s')"
  shows "result_idents r =
    add_mset (unwrap_or (ee_key err) ''unknown'', ee_version_id err) (result_idents result)"
  using assms
  by (auto simp: handle_delete_error_def retry_failed_key_with_single_delete_def Let_def bind_eq_Ok
      ret_def split: if_splits sum.splits)

lemma handle_delete_errors_accounts:
  "handle_delete_errors st env cfg lookup errs result s = (Ok r, s') \<Longrightarrow>
   result_idents r = mset (map (\<lambda>e. (unwrap_or (ee_key e) ''unknown'', ee_version_id e)) errs)
     + result_idents result"
proof (induction errs arbitrary: result s)
  case Nil
  then show ?case by (simp add: ret_def)
next
  case (Cons e errs)
  then show ?case by (auto simp: bind_eq_Ok dest!: handle_delete_error_accounts)
qed

lemma sdk_call_Ok:
  "sdk_call st env ctx f s = (Ok a, s') \<Longrightarrow> \<exists>w. f (env_client env) (world s) = (Inr a, w)"
  by (auto simp: sdk_call_def panic_def split: if_splits prod.splits sum.splits)

lemma delete_objects_Ok:
  assumes "delete_objects st env ids s = (Ok out, s')"
  shows "\<exists>w w'. cl_delete_objects (env_client env) (storage_request st) ids w = (Inr out, w')"
  using assms
  by (auto simp: delete_objects_def seq_def bind_eq_Ok dest!: sdk_call_Ok)

lemma idents_of_keys:
  "list_all (\<lambda>(k, x). s3_key x = Ok k) kxs \<Longrightarrow>
   map (\<lambda>i. (oi_key i, oi_version_id i)) (map (make_object_identifier cfg) kxs)
     = map ident_of (map snd kxs)"
  by (induction kxs) (auto simp: make_object_identifier_def key_of_ok)

lemma delete_chunk_accounts:
  assumes "reports_every_key (env_client env)"
    and "delete_chunk st env cfg chunk result s = (Ok r, s')"
  shows "result_idents r = mset (map ident_of chunk) + result_idents result"
proof -
  from assms(2) obtain kxs out s1 s2 where
    keys: "read_keys chunk = Ok kxs" and
    out: "delete_objects st env (map (make_object_identifier cfg) kxs) s1 = (Ok out, s2)" and
    rest: "handle_delete_errors st env cfg (object_lookup kxs) (do_errors out)
      (result\<lparr> dr_deleted := dr_deleted result @ map deleted_of_entry (do_deleted out) \<rparr>) s2
      = (Ok r, s')"
    by (auto simp: delete_chunk_def bind_eq_Ok)
  from delete_objects_Ok [OF out] assms(1)
  have "response_idents out = mset (map (\<lambda>i. (oi_key i, oi_version_id i))
      (map (make_object_identifier cfg) kxs))"
    unfolding reports_every_key_def by blast
  also have "\<dots> = mset (map ident_of chunk)"
    using read_keys_Ok [OF keys] idents_of_keys [of kxs cfg] by simp
  finally show ?thesis
    using handle_delete_errors_accounts [OF rest]
    by (simp add: result_idents_def response_idents_def deleted_of_entry_def comp_def ac_simps)
qed

lemma delete_chunks_accounts:
  assumes "reports_every_key (env_client env)"
  shows "delete_chunks st env cfg cs result s = (Ok r, s') \<Longrightarrow>
    result_idents r = mset (map ident_of (concat cs)) + result_idents result"
proof (induction cs arbitrary: result s)
  case Nil
  then show ?case by (simp add: ret_def)
next
  case (Cons c cs)
  then show ?case
    by (auto simp: bind_eq_Ok dest!: delete_chunk_accounts [OF assms])
qed

interpretation batch: deletion_backend batch_delete "\<lambda>cfg objs. batch_size cfg \<noteq> 0"
proof unfold_locales
  show "keeps (backend_frame s0) (batch_delete st env cfg objs)"
    for s0 :: "'a sys" and st env cfg objs
    by (auto simp: batch_delete_def Let_def intro!: keeps_intros)
next
  fix env :: "'a env" and cfg objs st s r s'
  assume hyps: "reports_every_key (env_client env)" "batch_size cfg \<noteq> 0"
    "batch_delete st env cfg objs s = (Ok r, s')"
  have "unat (batch_size cfg) \<noteq> 0" using hyps(2) by (simp add: unat_eq_0)
  then have "0 < min (unat (batch_size cfg)) MAX_BATCH_SIZE" by (simp add: MAX_BATCH_SIZE_def)
  from concat_chunks [OF this, of objs] hyps show "result_idents r = mset (map ident_of objs)"
    by (auto simp: batch_delete_def Let_def ret_def dest!: delete_chunks_accounts split: if_splits)
qed

interpretation single: deletion_backend single_delete "\<lambda>cfg objs. length objs = 1"
proof unfold_locales
  show "keeps (backend_frame s0) (single_delete st env cfg objs)"
    for s0 :: "'a sys" and st env cfg objs
    by (auto simp: single_delete_def Let_def split: list.splits intro!: keeps_intros)
next
  fix env :: "'a env" and cfg objs st s r s'
  assume "length (objs :: s3_object list) = 1" "single_delete st env cfg objs s = (Ok r, s')"
  then show "result_idents r = mset (map ident_of objs)"
    by (cases objs)
      (auto simp: single_delete_def bind_eq_Ok catch_eq_Ok Let_def key_of_ok)
qed

interpretation backend: deletion_backend deleter_delete
  "\<lambda>cfg objs. objs \<noteq> [] \<and> length objs \<le> effective_batch_size cfg"
proof unfold_locales
  show "keeps (backend_frame s0) (deleter_delete st env cfg objs)"
    for s0 :: "'a sys" and st env cfg objs
    by (simp add: deleter_delete_def batch.frame single.frame)
next
  fix env :: "'a env" and cfg objs st s r s'
  assume hyps: "reports_every_key (env_client env)"
    "objs \<noteq> [] \<and> length objs \<le> effective_batch_size cfg"
    "deleter_delete st env cfg objs s = (Ok r, s')"
  show "result_idents r = mset (map ident_of objs)"
  proof (cases "use_single_deleter cfg")
    case True
    with hyps(2) have "length objs = 1"
      by (cases objs) (auto simp: use_single_deleter_def effective_batch_size_def)
    with True hyps single.accounts show ?thesis by (simp add: deleter_delete_def)
  next
    case False
    then have "batch_size cfg \<noteq> 0" by (auto simp: use_single_deleter_def)
    with False hyps batch.accounts show ?thesis by (simp add: deleter_delete_def)
  qed
qed

end
