(* ===== verification/Deleter_Facts.thy ===== *)
theory Deleter_Facts
  imports Deleter
begin

text \<open>
  The properties of the deletion stage: what the batch backend sends, dry runs, the fallback
  attempts, the attribute filters, the threshold check of one object, and the accounting of a
  whole worker. They rest on the contract \<open>deletion_backend\<close> of the deletion backends.
\<close>


section \<open>Requests of the batch backend\<close>

text \<open>The same environment with another \<open>DeleteObjects\<close> function, or other deletion functions.\<close>

definition with_delete_objects ::
  "(request \<Rightarrow> object_identifier list \<Rightarrow> 'w \<Rightarrow> (sdk_error + delete_objects_output) \<times> 'w)
     \<Rightarrow> 'w env \<Rightarrow> 'w env" where
  "with_delete_objects f env = env\<lparr> env_client := (env_client env)\<lparr> cl_delete_objects := f \<rparr> \<rparr>"

definition with_delete_object ::
  "(request \<Rightarrow> string \<Rightarrow> string option \<Rightarrow> string option \<Rightarrow> 'w \<Rightarrow> (sdk_error + unit) \<times> 'w)
     \<Rightarrow> 'w env \<Rightarrow> 'w env" where
  "with_delete_object f env = env\<lparr> env_client := (env_client env)\<lparr> cl_delete_object := f \<rparr> \<rparr>"

lemma with_delete_simps [simp]:
  "env_libs (with_delete_objects f env) = env_libs env"
  "env_cancel (with_delete_objects f env) = env_cancel env"
  "env_select (with_delete_objects f env) = env_select env"
  "env_send (with_delete_objects f env) = env_send env"
  "env_libs (with_delete_object g env) = env_libs env"
  "env_cancel (with_delete_object g env) = env_cancel env"
  "env_select (with_delete_object g env) = env_select env"
  "env_send (with_delete_object g env) = env_send env"
  "env_now (with_delete_objects f env) = env_now env"
  "env_now (with_delete_object g env) = env_now env"
  "cl_delete_object (env_client (with_delete_objects f env)) = cl_delete_object (env_client env)"
  "cl_delete_objects (env_client (with_delete_objects f env)) = f"
  "cl_head_object (env_client (with_delete_objects f env)) = cl_head_object (env_client env)"
  "cl_get_object_tagging (env_client (with_delete_objects f env)) =
     cl_get_object_tagging (env_client env)"
  "cl_delete_objects (env_client (with_delete_object g env)) = cl_delete_objects (env_client env)"
  "cl_delete_object (env_client (with_delete_object g env)) = g"
  "cl_head_object (env_client (with_delete_object g env)) = cl_head_object (env_client env)"
  "cl_get_object_tagging (env_client (with_delete_object g env)) =
     cl_get_object_tagging (env_client env)"
  by (simp_all add: with_delete_objects_def with_delete_object_def)

lemma trigger_event_with [simp]:
  "trigger_event (with_delete_objects f env) em ed = trigger_event env em ed"
  "trigger_event (with_delete_object g env) em ed = trigger_event env em ed"
  by (simp_all add: fun_eq_iff trigger_event_def update_pipeline_stats_def Let_def
      split: option.splits prod.splits)

lemma trigger_with [simp]:
  "trigger (with_delete_objects f env) cfg = trigger env cfg"
  "trigger (with_delete_object g env) cfg = trigger env cfg"
  by (simp_all add: fun_eq_iff trigger_def)

lemma stage_with [simp]:
  "is_cancelled (with_delete_objects f env) = is_cancelled env"
  "select_cancelled (with_delete_objects f env) = select_cancelled env"
  "stage_send (with_delete_objects f env) = stage_send env"
  "is_cancelled (with_delete_object g env) = is_cancelled env"
  "select_cancelled (with_delete_object g env) = select_cancelled env"
  "stage_send (with_delete_object g env) = stage_send env"
  by (simp_all add: fun_eq_iff is_cancelled_def select_cancelled_def stage_send_def)

lemma requests_with [simp]:
  "delete_object st (with_delete_objects f env) = delete_object st env"
  "head_object st (with_delete_objects f env) = head_object st env"
  "get_object_tagging st (with_delete_objects f env) = get_object_tagging st env"
  "head_object st (with_delete_object g env) = head_object st env"
  "get_object_tagging st (with_delete_object g env) = get_object_tagging st env"
  by (simp_all add: fun_eq_iff delete_object_def head_object_def get_object_tagging_def sdk_call_def)

lemma retry_attempts_with [simp]:
  "retry_attempts n st (with_delete_objects f env) k v e = retry_attempts n st env k v e"
  by (induction n) simp_all

lemma handle_delete_errors_with [simp]:
  "handle_delete_errors st (with_delete_objects f env) cfg lookup errs result
     = handle_delete_errors st env cfg lookup errs result"
proof (induction errs arbitrary: result)
  case (Cons e errs)
  have "handle_delete_error st (with_delete_objects f env) cfg lookup e result
      = handle_delete_error st env cfg lookup e result"
    by (simp add: handle_delete_error_def retry_failed_key_with_single_delete_def Let_def)
  with Cons show ?case by (simp add: Cons.IH [abs_def] bind_def)
qed simp

text \<open>
  A request the batch backend may send for a list of objects: at least one and at most the
  smaller of the configured size and 1000 identifiers, each naming one of the objects, with its
  version, and with its ETag exactly when \<open>--if-match\<close> is set and the listing had one.
\<close>

definition admissible_request :: "config \<Rightarrow> s3_object list \<Rightarrow> object_identifier list \<Rightarrow> bool" where
  "admissible_request cfg objs ids \<longleftrightarrow>
     ids \<noteq> [] \<and> length ids \<le> min (unat (batch_size cfg)) 1000 \<and>
     (\<forall>i \<in> set ids. \<exists>x \<in> set objs. s3_key x = Ok (oi_key i) \<and> oi_version_id i = s3_version_id x
        \<and> oi_e_tag i = (if if_match cfg then s3_e_tag x else None))"

lemma sdk_call_cong:
  assumes "\<And>w. f (env_client env) w = f' (env_client env') w"
  shows "sdk_call st env ctx f = sdk_call st env' ctx f'"
  using assms by (simp add: sdk_call_def)

lemma delete_chunk_with:
  assumes "\<And>rq ids w. admissible_request cfg objs ids \<Longrightarrow>
      f rq ids w = cl_delete_objects (env_client env) rq ids w"
    and "c \<noteq> []" and "length c \<le> min (unat (batch_size cfg)) 1000" and "set c \<subseteq> set objs"
  shows "delete_chunk st (with_delete_objects f env) cfg c result s = delete_chunk st env cfg c result s"
proof (cases "read_keys c")
  case (Ok kxs)
  note keys = read_keys_Ok [OF Ok]
  have "length kxs = length c" using keys by (metis length_map)
  moreover have "\<exists>x \<in> set objs. s3_key x = Ok (oi_key i) \<and> oi_version_id i = s3_version_id x
      \<and> oi_e_tag i = (if if_match cfg then s3_e_tag x else None)"
    if i: "i \<in> set (map (make_object_identifier cfg) kxs)" for i
  proof -
    from i obtain k x where kx: "(k, x) \<in> set kxs" "i = make_object_identifier cfg (k, x)" by auto
    then have "x \<in> set c" using keys by (metis set_map image_eqI snd_conv)
    with kx keys assms(4) show ?thesis
      by (intro bexI [of _ x]) (auto simp: make_object_identifier_def list_all_iff)
  qed
  ultimately have "admissible_request cfg objs (map (make_object_identifier cfg) kxs)"
    using assms(2,3) by (auto simp: admissible_request_def)
  then have "sdk_call st (with_delete_objects f env) ctx
       (\<lambda>cl. cl_delete_objects cl rq (map (make_object_identifier cfg) kxs))
     = sdk_call st env ctx (\<lambda>cl. cl_delete_objects cl rq (map (make_object_identifier cfg) kxs))" for ctx rq
    using assms(1) by (intro sdk_call_cong) simp
  then have "delete_objects st (with_delete_objects f env) (map (make_object_identifier cfg) kxs)
      = delete_objects st env (map (make_object_identifier cfg) kxs)"
    by (simp add: delete_objects_def)
  with Ok show ?thesis by (simp add: delete_chunk_def)
qed (simp_all add: delete_chunk_def)

lemma set_chunks: "c \<in> set (chunks n xs) \<Longrightarrow> set c \<subseteq> set xs"
proof (induction n xs rule: chunks.induct)
  case (1 n xs)
  then have "c = take n xs \<or> c \<in> set (chunks n (drop n xs))" and "\<not> (n = 0 \<or> xs = [])"
    by (auto simp: chunks.simps [of n xs] split: if_splits)
  with "1.IH" show ?case by (meson order_trans set_drop_subset set_take_subset)
qed

lemma delete_chunks_with:
  assumes "\<And>rq ids w. admissible_request cfg objs ids \<Longrightarrow>
      f rq ids w = cl_delete_objects (env_client env) rq ids w"
  shows "\<forall>c \<in> set cs. c \<noteq> [] \<and> length c \<le> min (unat (batch_size cfg)) 1000 \<and> set c \<subseteq> set objs \<Longrightarrow>
    delete_chunks st (with_delete_objects f env) cfg cs result s = delete_chunks st env cfg cs result s"
proof (induction cs arbitrary: result s)
  case (Cons c cs)
  then show ?case
    by (simp add: bind_def delete_chunk_with [OF assms] split: prod.splits outcome.splits)
qed simp




section \<open>Dry runs\<close>

definition without_deletions ::
  "(request \<Rightarrow> string \<Rightarrow> string option \<Rightarrow> string option \<Rightarrow> 'w \<Rightarrow> (sdk_error + unit) \<times> 'w)
   \<Rightarrow> (request \<Rightarrow> object_identifier list \<Rightarrow> 'w \<Rightarrow> (sdk_error + delete_objects_output) \<times> 'w)
   \<Rightarrow> 'w env \<Rightarrow> 'w env" where
  "without_deletions g f env = with_delete_object g (with_delete_objects f env)"

lemma without_stage [simp]:
  "env_libs (without_deletions g f env) = env_libs env"
  "trigger (without_deletions g f env) cfg = trigger env cfg"
  "is_cancelled (without_deletions g f env) = is_cancelled env"
  "select_cancelled (without_deletions g f env) = select_cancelled env"
  "stage_send (without_deletions g f env) = stage_send env"
  "head_object st (without_deletions g f env) = head_object st env"
  "get_object_tagging st (without_deletions g f env) = get_object_tagging st env"
  by (simp_all add: without_deletions_def)

lemma forward_batch_without [simp]:
  "forward_batch (without_deletions g f env) xs = forward_batch env xs"
  by (induction xs) (simp_all cong: if_cong)

lemma delete_buffered_dry_run:
  assumes "dry_run cfg"
  shows "delete_buffered_objects st (without_deletions g f env) cfg buf
    = delete_buffered_objects st env cfg buf"
  using assms
  by (simp add: delete_buffered_objects_def delete_batch_def run_deleter_def record_deleted_def
      [abs_def] record_failed_def [abs_def] cong: if_cong)

lemma attribute_filters_without:
  "apply_head_object_filters st (without_deletions g f env) cfg x
     = apply_head_object_filters st env cfg x"
  "apply_tag_filters st (without_deletions g f env) cfg x = apply_tag_filters st env cfg x"
  by (simp_all add: apply_head_object_filters_def apply_tag_filters_def
      regex_rejects_def emit_filter_skip_def handle_api_error_def Let_def cong: if_cong)

lemma process_object_dry_run:
  assumes "dry_run cfg"
  shows "process_object st (without_deletions g f env) cfg x buf = process_object st env cfg x buf"
  unfolding process_object_def check_max_delete_def max_delete_exceeded_def buffer_and_delete_def
  by (simp add: attribute_filters_without delete_buffered_dry_run [OF assms] Let_def
      cong: if_cong option.case_cong)

text \<open>
  C5: a dry run never calls a deletion API. Whatever the two deletion functions of the service
  would do, the worker of a dry run behaves the same: same result, same events and statistics,
  same world afterwards.
\<close>

theorem dry_run_never_deletes:
  assumes "dry_run cfg"
  shows "object_deleter_delete st (without_deletions g f env) cfg xs s
    = object_deleter_delete st env cfg xs s"
proof -
  have "receive_and_delete st (without_deletions g f env) cfg xs buf
      = receive_and_delete st env cfg xs buf" for buf
  proof (induction xs arbitrary: buf)
    case Nil
    then show ?case
      by (simp add: delete_buffered_dry_run [OF assms] cong: if_cong)
  next
    case (Cons x xs)
    then show ?case
      by (simp add: process_object_dry_run [OF assms] Cons.IH cong: if_cong)
  qed
  then show ?thesis by (simp add: object_deleter_delete_def)
qed

theorem dry_run_never_deletes_witness:
  "object_deleter_delete (create_storage demo_config)
     (without_deletions (\<lambda>rq k v e w. (Inr (), [])) (\<lambda>rq ids w. (Inl (TransportError DeleteObjectsOp []), []))
        demo_env)
     (demo_config\<lparr> dry_run := True \<rparr>) [demo_object ''a''] (sys_new [''a''])
   = object_deleter_delete (create_storage demo_config) demo_env (demo_config\<lparr> dry_run := True \<rparr>)
       [demo_object ''a''] (sys_new [''a''])"
  by (rule dry_run_never_deletes) simp


section \<open>The fallback attempts\<close>

lemma sdk_call_tokens: "rate_tokens (snd (sdk_call st env ctx f s)) = rate_tokens s"
  by (auto simp: sdk_call_def panic_def split: prod.splits sum.splits)

lemma delete_object_tokens:
  assumes "delete_object st env k v e s = (r, s')"
  shows "rate_tokens s' = rate_tokens s + rated st 1"
proof -
  let ?s1 = "if st_rate_limiter st = None then s else s\<lparr> rate_tokens := rate_tokens s + 1 \<rparr>"
  have "delete_object st env k v e s = sdk_call st env ''aws_sdk_s3::client::delete_object() failed.''
      (\<lambda>cl. cl_delete_object cl (storage_request st) k v e) ?s1"
    by (simp add: delete_object_def seq_def bind_def exec_rate_limit_one_def exec_rate_limit_run)
  then have "rate_tokens s' = rate_tokens ?s1"
    using assms sdk_call_tokens by (metis snd_conv)
  then show ?thesis by (simp add: rated_def)
qed

lemma rated_add: "rated st m + rated st n = rated st (m + n)"
  by (simp add: rated_def)

lemma retry_attempts_Suc:
  "retry_attempts (Suc n) st env k v e s =
     (case delete_object st env k v e s of
        (Ok _, s1) \<Rightarrow> (Ok True, s1)
      | (Err _, s1) \<Rightarrow> retry_attempts n st env k v e s1
      | (Panic p, s1) \<Rightarrow> (Panic p, s1))"
  by (simp add: catch_def split: prod.splits outcome.splits)

definition retry_outcome :: "s3_storage \<Rightarrow> nat \<Rightarrow> 'w sys \<Rightarrow> bool result \<times> 'w sys \<Rightarrow> bool" where
  "retry_outcome st n s out = (case out of
       (Ok ok, s') \<Rightarrow> (\<exists>i \<le> n. (\<not> ok \<longrightarrow> i = n) \<and> rate_tokens s' = rate_tokens s + rated st (Suc i))
     | (Err err, s') \<Rightarrow> False
     | (Panic m, s') \<Rightarrow> True)"

lemma retry_attempts_bound:
  "retry_outcome st n s (retry_attempts (Suc n) st env k v e s)"
proof (induction n arbitrary: s)
  case 0
  obtain r s1 where d: "delete_object st env k v e s = (r, s1)" by fastforce
  with delete_object_tokens [OF d] show ?case
    by (cases r) (auto simp: retry_attempts_Suc retry_outcome_def simp del: retry_attempts.simps(2))
next
  case (Suc n)
  obtain r s1 where d: "delete_object st env k v e s = (r, s1)" by fastforce
  note t = delete_object_tokens [OF d]
  show ?case
  proof (cases r)
    case (Ok u)
    with d t show ?thesis by (auto simp: retry_attempts_Suc [of "Suc n"] retry_outcome_def
        simp del: retry_attempts.simps)
  next
    case (Err err)
    have step: "retry_attempts (Suc (Suc n)) st env k v e s = retry_attempts (Suc n) st env k v e s1"
      using d Err by (simp add: retry_attempts_Suc [of "Suc n"] del: retry_attempts.simps)
    have "retry_outcome st (Suc n) s (ok, s')" if "retry_outcome st n s1 (ok, s')" for ok s'
      using that t
      by (cases ok) (auto simp: retry_outcome_def rated_add [of st 1, simplified] add.assoc
          intro: exI [of _ "Suc _"])
    with Suc.IH [of s1] show ?thesis unfolding step by (metis surj_pair)
  next
    case (Panic p)
    with d show ?thesis by (simp add: retry_attempts_Suc [of "Suc n"] retry_outcome_def
        del: retry_attempts.simps)
  qed
qed



section \<open>The formatted values\<close>

lemma filter_same_key:
  "distinct (map f zs) \<Longrightarrow> k \<in> set zs \<Longrightarrow> filter (\<lambda>x. f k = f x) zs = [k]"
proof (induction zs)
  case (Cons z zs)
  show ?case
  proof (cases "k = z")
    case True
    with Cons.prems show ?thesis by (auto simp: filter_empty_conv)
  next
    case False
    with Cons.prems have "k \<in> set zs" "f k \<noteq> f z" by (auto intro: rev_image_eqI)
    with Cons show ?thesis by simp
  qed
qed simp

lemma sort_key_unique:
  assumes "mset xs = mset ys" and "distinct (map f xs)"
  shows "sort_key f xs = sort_key f ys"
proof (rule properties_for_sort_key)
  show "mset (sort_key f ys) = mset xs" by (simp add: assms(1))
  have "distinct (map f ys)"
    using assms by (metis mset_map mset_eq_imp_distinct_iff)
  moreover have "mset (map f (sort_key f ys)) = mset (map f ys)" by simp
  ultimately have "distinct (map f (sort_key f ys))" using mset_eq_imp_distinct_iff by blast
  moreover have "set xs = set ys" using assms(1) by (rule mset_eq_setD)
  ultimately show "filter (\<lambda>x. f k = f x) (sort_key f ys) = filter (\<lambda>x. f k = f x) xs"
    if "k \<in> set (sort_key f ys)" for k
    using that assms(2) by (simp add: filter_same_key)
qed simp

text \<open>
  What the tag and metadata filters match on does not depend on the order in which the
  service returns the tags, or the hash map yields the metadata entries.
\<close>

theorem format_order_independent:
  assumes "mset kvs = mset kvs'" and "distinct (map fst kvs)"
  shows "format_tags lib kvs = format_tags lib kvs' \<and> format_metadata lib kvs = format_metadata lib kvs'"
  using sort_key_unique [OF assms] by (simp add: format_tags_def format_metadata_def)

theorem format_order_independent_witness:
  "format_tags demo_libs [(''team'', ''a''), (''env'', ''b'')]
     = format_tags demo_libs [(''env'', ''b''), (''team'', ''a'')]
   \<and> format_metadata demo_libs [(''team'', ''a''), (''env'', ''b'')]
     = format_metadata demo_libs [(''env'', ''b''), (''team'', ''a'')]"
  by (rule format_order_independent) simp_all


section \<open>The attribute filters\<close>

text \<open>What a regex pair decides on a value; a value that is absent satisfies no include pattern.\<close>

definition regex_verdict :: "libs \<Rightarrow> regex option \<Rightarrow> string option \<Rightarrow> bool \<Rightarrow> bool" where
  "regex_verdict lib re value is_include = (case re of
       None \<Rightarrow> True
     | Some r \<Rightarrow> (case value of
           None \<Rightarrow> \<not> is_include
         | Some v \<Rightarrow> (regex_is_match lib r v = Inr True) = is_include))"

definition regexes_total :: "libs \<Rightarrow> bool" where
  "regexes_total lib \<longleftrightarrow> (\<forall>r v. \<exists>b. regex_is_match lib r v = Inr b)"

lemma decide_total:
  "regexes_total lib \<Longrightarrow>
     decide_delete_by_regex lib key re value name inc = Ok (regex_verdict lib re value inc)"
  unfolding regexes_total_def
  by (auto simp: decide_delete_by_regex_def regex_verdict_def split: option.splits sum.splits)
    (metis sum.distinct(1))+

definition skip_frame :: "'w sys \<Rightarrow> 'w sys \<Rightarrow> bool" where
  "skip_frame s0 s \<longleftrightarrow> world s = world s0 \<and> sent s = sent s0 \<and> same_flags s0 s"

lemma skip_frame_refl [simp]: "skip_frame s s"
  by (simp add: skip_frame_def)

lemma emit_filter_skip_wf:
  assumes "wf_object x"
  obtains s' where "emit_filter_skip env cfg x name s = (Ok (), s')" and "skip_frame s s'"
    and "\<not> stats_closed s \<Longrightarrow> stats_channel s' = stats_channel s @ [DeleteSkip (key_of x)]"
proof -
  from filtered_event_wf [OF assms, of "env_libs env" "''Object filtered by '' @ name"] obtain ed
    where "filtered_event (env_libs env) (''Object filtered by '' @ name) x = Ok ed"
      "ed_event_type ed = DELETE_FILTERED" by blast
  then show ?thesis
    using assms that
    by (cases "em_callback_registered (event_manager cfg)")
      (auto simp: emit_filter_skip_def wf_simps same_flags_def skip_frame_def world_trigger_event
        event_types_numerals)
qed

lemma regex_rejects_wf:
  assumes "wf_object x" and "regexes_total (env_libs env)"
  shows "\<exists>s'. regex_rejects env cfg x key re value name inc s
      = (Ok (\<not> regex_verdict (env_libs env) re value inc), s') \<and> skip_frame s s'"
proof (cases "regex_verdict (env_libs env) re value inc")
  case False
  obtain s' where "emit_filter_skip env cfg x name s = (Ok (), s')" "skip_frame s s'"
    using emit_filter_skip_wf [OF assms(1)] by blast
  with False show ?thesis
    by (auto simp: regex_rejects_def decide_total [OF assms(2)] seq_Ok)
qed (simp add: regex_rejects_def decide_total [OF assms(2)])

lemma or_else_wf:
  assumes "m s = (Ok b, s1)" and "skip_frame s s1"
    and "\<And>t. skip_frame s t \<Longrightarrow> \<exists>s'. n t = (Ok c, s') \<and> skip_frame s s'"
  shows "\<exists>s'. or_else m n s = (Ok (b \<or> c), s') \<and> skip_frame s s'"
  using assms by (cases b) (auto simp: or_else_def bind_Ok)


definition head_verdict :: "libs \<Rightarrow> filter_config \<Rightarrow> head_output \<Rightarrow> bool" where
  "head_verdict lib fc out \<longleftrightarrow>
     regex_verdict lib (include_content_type_regex fc) (ho_content_type out) True
   \<and> regex_verdict lib (exclude_content_type_regex fc) (ho_content_type out) False
   \<and> regex_verdict lib (include_metadata_regex fc) (metadata_value lib out) True
   \<and> regex_verdict lib (exclude_metadata_regex fc) (metadata_value lib out) False"

definition tag_verdict :: "libs \<Rightarrow> filter_config \<Rightarrow> tag list \<Rightarrow> bool" where
  "tag_verdict lib fc tags \<longleftrightarrow>
     regex_verdict lib (include_tag_regex fc) (Some (format_tags lib tags)) True
   \<and> regex_verdict lib (exclude_tag_regex fc) (Some (format_tags lib tags)) False"

lemma skip_frame_trans: "skip_frame a b \<Longrightarrow> skip_frame b c \<Longrightarrow> skip_frame a c"
  by (auto simp: skip_frame_def same_flags_def)

lemma or_else_rejects:
  assumes "wf_object x" and "regexes_total (env_libs env)"
    and "\<And>t. \<exists>s'. n t = (Ok c, s') \<and> skip_frame t s'"
  shows "\<exists>s'. or_else (regex_rejects env cfg x key re val name inc) n s
    = (Ok (\<not> regex_verdict (env_libs env) re val inc \<or> c), s') \<and> skip_frame s s'"
proof -
  obtain s1 where s1: "regex_rejects env cfg x key re val name inc s
      = (Ok (\<not> regex_verdict (env_libs env) re val inc), s1)" "skip_frame s s1"
    using regex_rejects_wf [OF assms(1,2)] by blast
  obtain s2 where "n s1 = (Ok c, s2)" "skip_frame s1 s2" using assms(3) by blast
  with s1 show ?thesis
    by (auto simp: or_else_def bind_Ok intro: skip_frame_trans)
qed

lemma head_filters_verdict:
  assumes "wf_object x" and "regexes_total (env_libs env)" and "\<not> s3_is_delete_marker x"
    and "needs_head_object (filter_config cfg)"
    and "head_object st env (key_of x) (s3_version_id x) s = (Ok out, s1)"
  shows "\<exists>s'. apply_head_object_filters st env cfg x s
    = (Ok (\<not> head_verdict (env_libs env) (filter_config cfg) out), s') \<and> skip_frame s1 s'"
proof -
  note step = or_else_rejects [OF assms(1,2)] and last = regex_rejects_wf [OF assms(1,2)]
  let ?fc = "filter_config cfg" and ?ct = "ho_content_type out"
    and ?md = "metadata_value (env_libs env) out"
  have "\<exists>s'. or_else (regex_rejects env cfg x (key_of x) (include_content_type_regex ?fc) ?ct
               INCLUDE_CONTENT_TYPE_REGEX_FILTER_NAME True)
            (or_else (regex_rejects env cfg x (key_of x) (exclude_content_type_regex ?fc) ?ct
                        EXCLUDE_CONTENT_TYPE_REGEX_FILTER_NAME False)
            (or_else (regex_rejects env cfg x (key_of x) (include_metadata_regex ?fc) ?md
                        INCLUDE_METADATA_REGEX_FILTER_NAME True)
               (regex_rejects env cfg x (key_of x) (exclude_metadata_regex ?fc) ?md
                  EXCLUDE_METADATA_REGEX_FILTER_NAME False))) s1
     = (Ok (\<not> regex_verdict (env_libs env) (include_content_type_regex ?fc) ?ct True
          \<or> \<not> regex_verdict (env_libs env) (exclude_content_type_regex ?fc) ?ct False
          \<or> \<not> regex_verdict (env_libs env) (include_metadata_regex ?fc) ?md True
          \<or> \<not> regex_verdict (env_libs env) (exclude_metadata_regex ?fc) ?md False), s')
       \<and> skip_frame s1 s'"
    by (intro step last)
  then show ?thesis
    using assms by (simp add: apply_head_object_filters_def Let_def wf_simps catch_def head_verdict_def)
qed

lemma tag_filters_verdict:
  assumes "wf_object x" and "regexes_total (env_libs env)" and "\<not> s3_is_delete_marker x"
    and "needs_tagging (filter_config cfg)"
    and "get_object_tagging st env (key_of x) (s3_version_id x) s = (Ok tags, s1)"
  shows "\<exists>s'. apply_tag_filters st env cfg x s
    = (Ok (\<not> tag_verdict (env_libs env) (filter_config cfg) tags), s') \<and> skip_frame s1 s'"
proof -
  note step = or_else_rejects [OF assms(1,2)] and last = regex_rejects_wf [OF assms(1,2)]
  let ?fc = "filter_config cfg" and ?v = "Some (format_tags (env_libs env) tags)"
  have "\<exists>s'. or_else (regex_rejects env cfg x (key_of x) (include_tag_regex ?fc) ?v
               INCLUDE_TAG_REGEX_FILTER_NAME True)
             (regex_rejects env cfg x (key_of x) (exclude_tag_regex ?fc) ?v
                  EXCLUDE_TAG_REGEX_FILTER_NAME False) s1
     = (Ok (\<not> regex_verdict (env_libs env) (include_tag_regex ?fc) ?v True
          \<or> \<not> regex_verdict (env_libs env) (exclude_tag_regex ?fc) ?v False), s')
       \<and> skip_frame s1 s'"
    by (intro step last)
  then show ?thesis
    using assms by (simp add: apply_tag_filters_def Let_def wf_simps catch_def tag_verdict_def)
qed


definition demo_attribute_config :: config where
  "demo_attribute_config = demo_config\<lparr> filter_config := filter_config_default
     \<lparr> include_content_type_regex := Some ''text/plain'', exclude_tag_regex := Some ''keep=1'' \<rparr> \<rparr>"

lemma demo_head: "head_object (create_storage demo_config) demo_env k v (sys_new w)
    = (Ok \<lparr> ho_content_type = Some ''text/plain'', ho_metadata = None \<rparr>, sys_new w)"
  by (simp add: head_object_def exec_rate_limit_one_def exec_rate_limit_def create_storage_def
      s3_storage_create_def demo_config_def config_for_target_def config_default_def
      sdk_call_def demo_client_def sys_new_def)

lemma demo_tagging: "get_object_tagging (create_storage demo_config) demo_env k v (sys_new w)
    = (Ok [], sys_new w)"
  by (simp add: get_object_tagging_def exec_rate_limit_one_def exec_rate_limit_def create_storage_def
      s3_storage_create_def demo_config_def config_for_target_def config_default_def
      sdk_call_def demo_client_def sys_new_def)


text \<open>
  A delete marker is never deleted by a run with an attribute filter: without any request,
  the marker is skipped, the buffer and the \<open>--max-delete\<close> counter stay as they are, and the
  skip is counted.
\<close>

theorem markers_skip_attribute_runs:
  assumes "wf_object x" and "s3_is_delete_marker x"
    and "needs_head_object (filter_config cfg) \<or> needs_tagging (filter_config cfg)"
    and "\<not> stats_closed s"
  shows "\<exists>s'. process_object st env cfg x buffer s = (Ok buffer, s') \<and> skip_frame s s'
    \<and> stats_channel s' = stats_channel s @ [DeleteSkip (key_of x)]"
proof -
  obtain s' where s': "emit_filter_skip env cfg x DELETE_MARKER_ATTRIBUTE_FILTER_NAME s = (Ok (), s')"
    "skip_frame s s'" "stats_channel s' = stats_channel s @ [DeleteSkip (key_of x)]"
    using emit_filter_skip_wf [OF assms(1)] assms(4) by blast
  show ?thesis
  proof (cases "needs_head_object (filter_config cfg)")
    case True
    then have "apply_head_object_filters st env cfg x s = (Ok True, s')"
      using assms s' by (simp add: apply_head_object_filters_def Let_def wf_simps seq_Ok)
    with s' show ?thesis by (simp add: process_object_def bind_Ok)
  next
    case False
    then have "apply_tag_filters st env cfg x s = (Ok True, s')"
      using assms s' by (simp add: apply_tag_filters_def Let_def wf_simps seq_Ok)
    with False s' show ?thesis by (simp add: process_object_def bind_Ok apply_head_object_filters_def)
  qed
qed

theorem markers_skip_attribute_runs_witness:
  "let x = DeleteMarker \<lparr> dm_key = Some ''a'', dm_version_id = Some ''v1'',
             dm_is_latest = Some True, dm_last_modified = Some (DateTime 0 0) \<rparr> in
   \<exists>s'. process_object (create_storage demo_config) demo_env demo_attribute_config x []
          (sys_new [''a'']) = (Ok [], s') \<and> skip_frame (sys_new [''a'']) s'
    \<and> stats_channel s' = stats_channel (sys_new [''a'']) @ [DeleteSkip (key_of x)]"
  unfolding Let_def
  by (rule markers_skip_attribute_runs)
    (simp_all add: wf_object_def demo_attribute_config_def needs_head_object_def sys_new_def)

text \<open>
  A failing attribute request. When the head request of an object fails with a not-found
  error, the object is skipped and the run goes on; with any other error the run is cancelled
  and the error returned, its message naming the request and the key.
\<close>

theorem head_request_errors:
  assumes "wf_object x" and "\<not> s3_is_delete_marker x" and "needs_head_object (filter_config cfg)"
    and "head_object st env (key_of x) (s3_version_id x) s = (Err e, s1)"
  shows "process_object st env cfg x buffer s =
    (if is_not_found_error e
     then (Ok buffer, if stats_closed s1 then s1
             else s1\<lparr> stats_channel := stats_channel s1 @ [DeleteSkip (key_of x)] \<rparr>)
     else (Err (Context (''head_object failed for key: '' @ key_of x)
              (Message (anyhow_display_alt e))), s1\<lparr> cancelled := True \<rparr>))"
  using assms
  by (simp add: process_object_def apply_head_object_filters_def Let_def wf_simps bind_def catch_def
      handle_api_error_def)

definition failing_head :: "sdk_error \<Rightarrow> 'w env \<Rightarrow> 'w env" where
  "failing_head err env = env\<lparr> env_client := (env_client env)
     \<lparr> cl_head_object := (\<lambda>rq k v w. (Inl err, w)) \<rparr> \<rparr>"

theorem head_request_errors_witness:
  "let err = Context ''aws_sdk_s3::client::head_object() failed.'' (Sdk (TransportError HeadObjectOp ''timeout'')) in
   process_object (create_storage demo_config)
     (failing_head (TransportError HeadObjectOp ''timeout'') demo_env) demo_attribute_config
     (demo_object ''a'') [] (sys_new [''a'']) =
    (if is_not_found_error err
     then (Ok [], if stats_closed (sys_new [''a'']) then sys_new [''a'']
             else (sys_new [''a''])\<lparr> stats_channel := stats_channel (sys_new [''a'']) @ [DeleteSkip (key_of (demo_object ''a''))] \<rparr>)
     else (Err (Context (''head_object failed for key: '' @ key_of (demo_object ''a''))
              (Message (anyhow_display_alt err))), (sys_new [''a''])\<lparr> cancelled := True \<rparr>))"
  unfolding Let_def
  by (rule head_request_errors)
    (simp_all add: demo_attribute_config_def needs_head_object_def failing_head_def
      head_object_def exec_rate_limit_one_def exec_rate_limit_def create_storage_def
      s3_storage_create_def demo_config_def config_for_target_def config_default_def
      sdk_call_def sys_new_def)


section \<open>The threshold\<close>

text \<open>
  The threshold check of one object. The counter is incremented on every path. Below the
  threshold (or without one) nothing else happens. The first object beyond it flushes the
  buffer, is itself not deleted, sets the warning flag and cancels the run.
\<close>

theorem max_delete_check:
  assumes "check_max_delete st env cfg x buffer s = (Ok (reached, buffer'), s')"
  shows "reached = (case max_delete cfg of None \<Rightarrow> False | Some m \<Rightarrow> m < delete_counter s + 1)
    \<and> (if reached
       then cancelled s' \<and> has_warning s'
         \<and> fst (delete_buffered_objects st env cfg buffer
                  (s\<lparr> delete_counter := delete_counter s + 1 \<rparr>)) = Ok buffer'
       else s' = s\<lparr> delete_counter := delete_counter s + 1 \<rparr> \<and> buffer' = buffer)"
  using assms
  by (auto simp: check_max_delete_def max_delete_exceeded_def bind_eq_Ok ret_def seq_eq_Ok Let_def not_le
      split: option.splits if_splits)

lemma demo_counters [simp]: "delete_counter (sys_new w) = 0" "\<not> stats_closed (sys_new w)"
  by (simp_all add: sys_new_def)

theorem max_delete_check_witness:
  "\<exists>s'. check_max_delete (create_storage demo_config) demo_env (demo_config\<lparr> max_delete := Some 0 \<rparr>)
      (demo_object ''a'') [] (sys_new [''a'']) = (Ok (True, []), s') \<and> cancelled s' \<and> has_warning s'"
proof -
  let ?run = "check_max_delete (create_storage demo_config) demo_env
    (demo_config\<lparr> max_delete := Some 0 \<rparr>) (demo_object ''a'') [] (sys_new [''a''])"
  obtain s' where "?run = (Ok (True, []), s')"
    by (simp add: check_max_delete_def max_delete_exceeded_def delete_buffered_objects_def)
  moreover from max_delete_check [OF this] have "cancelled s' \<and> has_warning s'" by simp
  ultimately show ?thesis by blast
qed


section \<open>Deleting a batch of listed objects\<close>

definition record_frame :: "'w sys \<Rightarrow> 'w sys \<Rightarrow> bool" where
  "record_frame s0 s \<longleftrightarrow> world s = world s0 \<and> sent s = sent s0 \<and> cancelled s = cancelled s0
     \<and> has_warning s = has_warning s0 \<and> stats_closed s = stats_closed s0
     \<and> delete_counter s = delete_counter s0 \<and> rate_tokens s = rate_tokens s0"

lemma record_frame_refl [simp]: "record_frame s s"
  by (simp add: record_frame_def)

lemma record_frame_trans: "record_frame a b \<Longrightarrow> record_frame b c \<Longrightarrow> record_frame a c"
  by (simp add: record_frame_def)

definition accounted :: "'w sys \<Rightarrow> u64" where
  "accounted s = sr_deleted_objects (report s) + sr_failed_objects (report s)"

definition lookup_wf :: "(string \<times> string option \<Rightarrow> s3_object option) \<Rightarrow> bool" where
  "lookup_wf lookup \<longleftrightarrow> (\<forall>k x. lookup k = Some x \<longrightarrow> wf_object x)"

lemma object_lookup_wf:
  assumes "list_all wf_object (map snd kxs)"
  shows "lookup_wf (object_lookup kxs)"
  using assms unfolding lookup_wf_def object_lookup_def
  by (fastforce simp: list_all_iff dest!: collect_map_SomeD)

lemma record_deleted_wf:
  assumes "lookup_wf lookup"
  shows "\<exists>s' n. record_deleted env cfg lookup dk s = (Ok (), s') \<and> record_frame s s'
    \<and> report s' = increment_deleted n (report s)"
proof -
  obtain n lm where "deleted_size lookup dk = Ok n"
    "deleted_last_modified (env_libs env) lookup dk = Ok lm"
    using assms unfolding lookup_wf_def
    by (cases "lookup (dk_key dk, dk_version_id dk)")
      (auto simp: deleted_size_def deleted_last_modified_def wf_simps)
  then show ?thesis
    by (auto simp: record_deleted_def record_frame_def world_trigger_event event_types_numerals)
qed

lemma record_failed_run:
  "\<exists>s'. record_failed env cfg fk s = (Ok (), s') \<and> record_frame s s'
    \<and> report s' = increment_failed (report s)"
  by (simp add: record_failed_def record_frame_def world_trigger_event event_types_numerals)

lemma for_each_deleted:
  assumes "lookup_wf lookup"
  shows "\<exists>s'. for_each (record_deleted env cfg lookup) ds s = (Ok (), s') \<and> record_frame s s'
    \<and> sr_deleted_objects (report s') = sr_deleted_objects (report s) + of_nat (length ds)
    \<and> sr_failed_objects (report s') = sr_failed_objects (report s)"
proof (induction ds arbitrary: s)
  case (Cons d ds)
  obtain s1 n where s1: "record_deleted env cfg lookup d s = (Ok (), s1)" "record_frame s s1"
    "report s1 = increment_deleted n (report s)"
    using record_deleted_wf [OF assms] by blast
  from Cons.IH [of s1] s1 show ?case
    by (auto simp: seq_Ok increment_deleted_def intro: record_frame_trans)
qed simp

lemma for_each_failed:
  "\<exists>s'. for_each (record_failed env cfg) fs s = (Ok (), s') \<and> record_frame s s'
    \<and> sr_deleted_objects (report s') = sr_deleted_objects (report s)
    \<and> sr_failed_objects (report s') = sr_failed_objects (report s) + of_nat (length fs)"
proof (induction fs arbitrary: s)
  case (Cons f fs)
  obtain s1 where s1: "record_failed env cfg f s = (Ok (), s1)" "record_frame s s1"
    "report s1 = increment_failed (report s)"
    using record_failed_run by blast
  from Cons.IH [of s1] s1 show ?case
    by (auto simp: seq_Ok increment_failed_def intro: record_frame_trans)
qed simp

lemma forward_batch_quiet:
  "quiet env \<Longrightarrow> forward_batch env xs s = (Ok (), s\<lparr> sent := sent s @ xs \<rparr>)"
  by (induction xs arbitrary: s) (simp_all add: bind_def quiet_stage_send)

text \<open>What the service must promise for the accounting: nothing in a dry run.\<close>

definition accountable :: "'w env \<Rightarrow> config \<Rightarrow> bool" where
  "accountable env cfg \<longleftrightarrow> dry_run cfg \<or> reports_every_key (env_client env)"

lemma run_deleter_ok:
  assumes "accountable env cfg" and "batch \<noteq> []" and "length batch \<le> effective_batch_size cfg"
    and "length kxs = length batch" and "run_deleter st env cfg kxs batch s = (Ok r, s')"
  shows "backend_frame s s' \<and> length (dr_deleted r) + length (dr_failed r) = length batch"
proof (cases "dry_run cfg")
  case True
  with assms(4,5) show ?thesis
    by (auto simp: run_deleter_def ret_def dry_run_result_def backend_frame_def)
next
  case False
  then have "deleter_delete st env cfg batch s = (Ok r, s')"
    using assms(5) by (auto simp: run_deleter_def catch_eq_Ok ret_def seq_eq_Ok throw_def)
  with False assms(1-3) backend.result_length backend.run_frame show ?thesis
    by (metis accountable_def)
qed

lemma delete_batch_ok:
  assumes "quiet env" and "accountable env cfg" and "list_all wf_object batch" and "batch \<noteq> []"
    and "length batch \<le> effective_batch_size cfg" and "\<not> warn_as_error cfg"
    and "delete_batch st env cfg batch s = (Ok u, s')"
  shows "accounted s' = accounted s + of_nat (length batch) \<and> sent s' = sent s @ batch
    \<and> cancelled s' = cancelled s \<and> delete_counter s' = delete_counter s"
proof -
  let ?kxs = "map (\<lambda>x. (key_of x, x)) batch"
  note keys = read_keys_wf [OF assms(3)]
  from assms(7) obtain r s1 where run: "run_deleter st env cfg ?kxs batch s = (Ok r, s1)"
    and rest: "seq (for_each (record_deleted env cfg (object_lookup ?kxs)) (dr_deleted r))
     (seq (for_each (record_failed env cfg) (dr_failed r))
       (if dr_failed r \<noteq> [] then
          seq set_warning (if warn_as_error cfg then cancel else forward_batch env batch)
        else forward_batch env batch)) s1 = (Ok u, s')"
    by (auto simp: delete_batch_def keys bind_eq_Ok)
  have frame: "backend_frame s s1" and len: "length (dr_deleted r) + length (dr_failed r) = length batch"
    using run_deleter_ok [OF assms(2,4,5) _ run] by auto
  have "list_all wf_object (map snd ?kxs)" using assms(3) by (simp add: comp_def)
  then obtain s2 where s2:
    "for_each (record_deleted env cfg (object_lookup ?kxs)) (dr_deleted r) s1 = (Ok (), s2)"
    "record_frame s1 s2"
    "sr_deleted_objects (report s2) = sr_deleted_objects (report s1) + of_nat (length (dr_deleted r))"
    "sr_failed_objects (report s2) = sr_failed_objects (report s1)"
    using for_each_deleted [OF object_lookup_wf] by blast
  obtain s3 where s3: "for_each (record_failed env cfg) (dr_failed r) s2 = (Ok (), s3)"
    "record_frame s2 s3" "sr_deleted_objects (report s3) = sr_deleted_objects (report s2)"
    "sr_failed_objects (report s3) = sr_failed_objects (report s2) + of_nat (length (dr_failed r))"
    using for_each_failed by blast
  have "s' = s3\<lparr> has_warning := has_warning s3 \<or> dr_failed r \<noteq> [], sent := sent s3 @ batch \<rparr>"
    using rest assms(6) by (simp add: seq_Ok s2(1) s3(1)
        forward_batch_quiet [OF assms(1)] split: if_splits)
  moreover have "(of_nat (length (dr_deleted r)) + of_nat (length (dr_failed r)) :: u64)
      = of_nat (length batch)"
    using len by (metis of_nat_add)
  ultimately show ?thesis
    using frame s2 s3
    by (simp add: accounted_def backend_frame_def record_frame_def algebra_simps)
qed


section \<open>The loop of a worker\<close>

definition plain_deletion :: "config \<Rightarrow> bool" where
  "plain_deletion cfg \<longleftrightarrow> \<not> needs_head_object (filter_config cfg) \<and> \<not> needs_tagging (filter_config cfg)
     \<and> max_delete cfg = None"

lemma process_object_plain:
  "plain_deletion cfg \<Longrightarrow> process_object st env cfg x buffer s
     = buffer_and_delete st env cfg x buffer (s\<lparr> delete_counter := delete_counter s + 1 \<rparr>)"
  by (simp add: process_object_def plain_deletion_def apply_head_object_filters_def
      apply_tag_filters_def check_max_delete_def bind_def gets_def)

lemma effective_batch_size_pos [simp]: "0 < effective_batch_size cfg"
  by (auto simp: effective_batch_size_def MAX_BATCH_SIZE_def unat_gt_0 intro: gr0I)

lemma delete_buffered_ok:
  assumes "quiet env" and "accountable env cfg" and "list_all wf_object buffer"
    and "length buffer \<le> effective_batch_size cfg" and "\<not> warn_as_error cfg" and "\<not> cancelled s"
    and "delete_buffered_objects st env cfg buffer s = (Ok b, s')"
  shows "b = [] \<and> accounted s' = accounted s + of_nat (length buffer) \<and> sent s' = sent s @ buffer
    \<and> \<not> cancelled s'"
proof (cases "buffer = []")
  case False
  then have "b = [] \<and> delete_batch st env cfg buffer s = (Ok (), s')"
    using assms(1,6,7)
    by (auto simp: delete_buffered_objects_def bind_def quiet_is_cancelled seq_def ret_def
        split: prod.splits outcome.splits)
  with delete_batch_ok [OF assms(1-3) False assms(4,5)] assms(6) show ?thesis by blast
qed (use assms in \<open>simp_all add: delete_buffered_objects_def ret_def\<close>)

lemma receive_and_delete_ok:
  assumes "quiet env" and "accountable env cfg" and "plain_deletion cfg" and "\<not> warn_as_error cfg"
  shows "list_all wf_object (buffer @ xs) \<Longrightarrow> length buffer < effective_batch_size cfg \<Longrightarrow>
    \<not> cancelled s \<Longrightarrow> receive_and_delete st env cfg xs buffer s = (Ok b, s') \<Longrightarrow>
    b = [] \<and> accounted s' = accounted s + of_nat (length (buffer @ xs))
      \<and> sent s' = sent s @ buffer @ xs \<and> \<not> cancelled s'"
proof (induction xs arbitrary: buffer s)
  case Nil
  then show ?case
    using delete_buffered_ok [OF assms(1,2) _ _ assms(4)]
    by (simp add: bind_def quiet_select_cancelled [OF assms(1)])
next
  case (Cons x xs)
  let ?s0 = "s\<lparr> delete_counter := delete_counter s + 1 \<rparr>"
  from Cons.prems(4) obtain buffer1 s1 where
    p: "buffer_and_delete st env cfg x buffer ?s0 = (Ok buffer1, s1)" and
    rest: "(if cancelled s1 then ret buffer1 else receive_and_delete st env cfg xs buffer1) s1
      = (Ok b, s')"
    by (auto simp: bind_eq_Ok quiet_select_cancelled [OF assms(1)] quiet_is_cancelled [OF assms(1)]
        process_object_plain [OF assms(3)])
  show ?case
  proof (cases "effective_batch_size cfg \<le> length (buffer @ [x])")
    case True
    then have "delete_buffered_objects st env cfg (buffer @ [x]) ?s0 = (Ok buffer1, s1)"
      using p by (simp add: buffer_and_delete_def)
    moreover have "list_all wf_object (buffer @ [x])" "length (buffer @ [x]) \<le> effective_batch_size cfg"
      "\<not> cancelled ?s0"
      using Cons.prems by simp_all
    ultimately have b: "buffer1 = []" "accounted s1 = accounted ?s0 + of_nat (length (buffer @ [x]))"
      "sent s1 = sent ?s0 @ buffer @ [x]" "\<not> cancelled s1"
      using delete_buffered_ok [OF assms(1,2) _ _ assms(4)] by blast+
    with rest have "receive_and_delete st env cfg xs [] s1 = (Ok b, s')" by simp
    from Cons.IH [OF _ _ b(4) this] Cons.prems(1) b show ?thesis
      by (simp add: accounted_def algebra_simps)
  next
    case False
    then have b: "buffer1 = buffer @ [x]" "s1 = ?s0"
      using p by (simp_all add: buffer_and_delete_def ret_def)
    with rest Cons.prems(3) have "receive_and_delete st env cfg xs (buffer @ [x]) ?s0 = (Ok b, s')"
      by simp
    from Cons.IH [OF _ _ _ this] Cons.prems False show ?thesis
      by (simp add: accounted_def algebra_simps)
  qed
qed



lemma demo_reports: "reports_every_key demo_client"
  by (auto simp: reports_every_key_def demo_client_def response_idents_def unwrap_or_def
      multiset.map_comp comp_def)

lemma demo_plain: "plain_deletion demo_config" "\<not> warn_as_error demo_config"
  by (simp_all add: plain_deletion_def needs_head_object_def needs_tagging_def demo_config_def
      filter_config_default_def)


section \<open>Dry runs return\<close>

lemma delete_batch_dry_run:
  assumes "quiet env" and "dry_run cfg" and "list_all wf_object batch"
  shows "\<exists>s'. delete_batch st env cfg batch s = (Ok (), s') \<and> world s' = world s
    \<and> sent s' = sent s @ batch \<and> cancelled s' = cancelled s
    \<and> sr_deleted_objects (report s') = sr_deleted_objects (report s) + of_nat (length batch)
    \<and> sr_failed_objects (report s') = sr_failed_objects (report s)"
proof -
  let ?kxs = "map (\<lambda>x. (key_of x, x)) batch"
  have "list_all wf_object (map snd ?kxs)" using assms(3) by (simp add: comp_def)
  then obtain s1 where
    "for_each (record_deleted env cfg (object_lookup ?kxs)) (dr_deleted (dry_run_result ?kxs)) s
       = (Ok (), s1)" "record_frame s s1"
    "sr_deleted_objects (report s1) = sr_deleted_objects (report s) + of_nat (length batch)"
    "sr_failed_objects (report s1) = sr_failed_objects (report s)"
    using for_each_deleted [OF object_lookup_wf, of ?kxs env cfg
        "dr_deleted (dry_run_result ?kxs)" s] by (auto simp: dry_run_result_def)
  then show ?thesis
    using assms by (simp add: delete_batch_def read_keys_wf run_deleter_def seq_Ok
        forward_batch_quiet record_frame_def) (simp add: dry_run_result_def forward_batch_quiet)
qed

lemma receive_and_delete_dry_run:
  assumes "quiet env" and "dry_run cfg" and "plain_deletion cfg"
  shows "list_all wf_object (buffer @ xs) \<Longrightarrow> \<not> cancelled s \<Longrightarrow>
    \<exists>s'. receive_and_delete st env cfg xs buffer s = (Ok [], s') \<and> world s' = world s
      \<and> sr_deleted_objects (report s') = sr_deleted_objects (report s) + of_nat (length (buffer @ xs))
      \<and> sr_failed_objects (report s') = sr_failed_objects (report s)
      \<and> sent s' = sent s @ buffer @ xs"
proof (induction xs arbitrary: buffer s)
  case Nil
  then show ?case
    using delete_batch_dry_run [OF assms(1,2), of buffer st s]
    by (auto simp: bind_def quiet_select_cancelled [OF assms(1)] delete_buffered_objects_def
        quiet_is_cancelled [OF assms(1)] seq_Ok)
next
  case (Cons x xs)
  let ?s0 = "s\<lparr> delete_counter := delete_counter s + 1 \<rparr>"
  note run = bind_def quiet_select_cancelled [OF assms(1)] quiet_is_cancelled [OF assms(1)]
    process_object_plain [OF assms(3)] buffer_and_delete_def Let_def
  show ?case
  proof (cases "effective_batch_size cfg \<le> length (buffer @ [x])")
    case True
    obtain s1 where s1: "delete_batch st env cfg (buffer @ [x]) ?s0 = (Ok (), s1)"
      "world s1 = world s" "sent s1 = sent s @ buffer @ [x]" "\<not> cancelled s1"
      "sr_deleted_objects (report s1) = sr_deleted_objects (report s) + of_nat (length (buffer @ [x]))"
      "sr_failed_objects (report s1) = sr_failed_objects (report s)"
      using delete_batch_dry_run [OF assms(1,2), of "buffer @ [x]" st ?s0] Cons.prems by auto
    from Cons.IH [of "[]" s1] Cons.prems s1 True show ?thesis
      by (auto simp: run delete_buffered_objects_def seq_Ok algebra_simps)
  next
    case False
    from Cons.IH [of "buffer @ [x]" ?s0] Cons.prems False show ?thesis
      by (auto simp: run algebra_simps)
  qed
qed

text \<open>
  A dry run reports what a run would delete. On listed objects the worker of a dry run
  returns successfully, the outside world is as before, and the report has counted every
  object it received as deleted and none as failed.
\<close>

theorem dry_run_reports_all:
  assumes "quiet env" and "dry_run cfg" and "plain_deletion cfg" and "\<not> cancelled s"
    and "list_all wf_object xs"
  shows "\<exists>s'. object_deleter_delete st env cfg xs s = (Ok [], s') \<and> world s' = world s
    \<and> sr_deleted_objects (report s') = sr_deleted_objects (report s) + of_nat (length xs)
    \<and> sr_failed_objects (report s') = sr_failed_objects (report s) \<and> sent s' = sent s @ xs"
  using receive_and_delete_dry_run [OF assms(1-3), of "[]" xs s st] assms
  by (simp add: object_deleter_delete_def)

theorem dry_run_reports_all_witness:
  "\<exists>s'. object_deleter_delete (create_storage demo_config) demo_env
         (demo_config\<lparr> dry_run := True \<rparr>) [demo_object ''a'', demo_object ''b'']
         (sys_new [''a'', ''b'']) = (Ok [], s') \<and> world s' = world (sys_new [''a'', ''b''])
    \<and> sr_deleted_objects (report s') = sr_deleted_objects (report (sys_new [''a'', ''b'']))
        + of_nat (length [demo_object ''a'', demo_object ''b''])
    \<and> sr_failed_objects (report s') = sr_failed_objects (report (sys_new [''a'', ''b'']))
    \<and> sent s' = sent (sys_new [''a'', ''b'']) @ [demo_object ''a'', demo_object ''b'']"
  by (rule dry_run_reports_all)
    (use demo_plain in \<open>simp_all add: plain_deletion_def\<close>)

lemma delete_batch_returns:
  assumes "quiet env" and "list_all wf_object batch" and "\<not> warn_as_error cfg"
    and "run_deleter st env cfg (map (\<lambda>x. (key_of x, x)) batch) batch s = (Ok r, s1)"
  shows "\<exists>s'. delete_batch st env cfg batch s = (Ok (), s')"
proof -
  let ?kxs = "map (\<lambda>x. (key_of x, x)) batch"
  have "list_all wf_object (map snd ?kxs)" using assms(2) by (simp add: comp_def)
  then obtain s2 where s2:
    "for_each (record_deleted env cfg (object_lookup ?kxs)) (dr_deleted r) s1 = (Ok (), s2)"
    using for_each_deleted [OF object_lookup_wf] by blast
  obtain s3 where s3: "for_each (record_failed env cfg) (dr_failed r) s2 = (Ok (), s3)"
    using for_each_failed by blast
  show ?thesis
    using assms s2 s3
    by (simp add: delete_batch_def read_keys_wf bind_Ok seq_Ok forward_batch_quiet)
qed

lemma demo_delete_objects:
  "delete_objects (create_storage demo_config) demo_env ids s =
     (Ok \<lparr> do_deleted = map (\<lambda>i. \<lparr> de_key = Some (oi_key i), de_version_id = oi_version_id i \<rparr>) ids,
           do_errors = [] \<rparr>,
      s\<lparr> world := filter (\<lambda>x. x \<notin> oi_key ` set ids) (world s) \<rparr>)"
  by (simp add: delete_objects_def exec_rate_limit_n_def exec_rate_limit_def create_storage_def
      s3_storage_create_def demo_config_def config_for_target_def config_default_def
      sdk_call_def demo_client_def)

lemma demo_batch_size [simp]: "batch_size demo_config = 200" "\<not> dry_run demo_config"
  "\<not> (200 :: u16) \<le> 1"
  by (simp_all add: demo_config_def word_le_nat_alt)

lemma demo_worker_returns:
  assumes "\<not> cancelled s0"
  shows "\<exists>s'. object_deleter_delete (create_storage demo_config) demo_env demo_config
     [demo_object ''a'', demo_object ''b''] s0 = (Ok [], s')"
proof -
  let ?batch = "[demo_object ''a'', demo_object ''b'']"
  let ?kxs = "map (\<lambda>x. (key_of x, x)) ?batch"
  let ?s2 = "s0\<lparr> delete_counter := 2 + delete_counter s0 \<rparr>"
  have ex: "\<exists>r s1. run_deleter (create_storage demo_config) demo_env demo_config ?kxs ?batch ?s2
      = (Ok r, s1)"
    by (simp add: run_deleter_def deleter_delete_def use_single_deleter_def batch_delete_def
        MAX_BATCH_SIZE_def chunks.simps [of 200] delete_chunk_def demo_delete_objects catch_def
        bind_def)
  then obtain s' where "delete_batch (create_storage demo_config) demo_env demo_config ?batch ?s2
      = (Ok (), s')"
    using delete_batch_returns [of demo_env ?batch demo_config] demo_plain by force
  then show ?thesis
    using assms by (simp add: object_deleter_delete_def process_object_plain demo_plain bind_def
        buffer_and_delete_def effective_batch_size_def MAX_BATCH_SIZE_def quiet_select_cancelled
        quiet_is_cancelled delete_buffered_objects_def seq_Ok)
qed


end
