(* ===== verification/Workers.thy ===== *)
theory Workers
  imports Deleter_Facts
begin

text \<open>
  The deletion workers of a run, interleaved. The pipeline spawns several \<open>ObjectDeleter\<close>s
  that take objects from one channel and share the deletion counter, the report and the
  token. Between two steps of one worker any others may run, and so may the other tasks of the
  program. The steps of a worker are the operations of its code: receive, the attribute
  filters, the threshold check, and buffering; each is taken from the theory \<open>Deleter\<close> as it is.

  The objects submitted for deletion are recorded in \<open>ws_submitted\<close>, which no step reads.
\<close>

section \<open>The state of the workers\<close>

datatype phase =
    Receiving
  | Received s3_object
  | Selected s3_object
  | Granted s3_object
  | Finished

record worker =
  wk_phase :: phase
  wk_buffer :: "s3_object list"

record 'w workers =
  ws_sys :: "'w sys"
  ws_queue :: "s3_object list"
  ws_workers :: "worker list"
  ws_submitted :: "s3_object list"

definition workers_start :: "nat \<Rightarrow> s3_object list \<Rightarrow> 'w sys \<Rightarrow> 'w workers" where
  "workers_start n xs s =
     \<lparr> ws_sys = s, ws_queue = xs,
       ws_workers = replicate n \<lparr> wk_phase = Receiving, wk_buffer = [] \<rparr>, ws_submitted = [] \<rparr>"


section \<open>The steps\<close>

text \<open>The objects a call of \<open>delete_buffered_objects\<close> hands to the deletion of a batch.\<close>

definition submits :: "'w env \<Rightarrow> s3_object list \<Rightarrow> 'w sys \<Rightarrow> s3_object list" where
  "submits env buffer s = (if fst (is_cancelled env s) = Ok True then [] else buffer)"

definition set_worker :: "nat \<Rightarrow> phase \<Rightarrow> s3_object list \<Rightarrow> 'w workers \<Rightarrow> 'w workers" where
  "set_worker i ph buffer w =
     w\<lparr> ws_workers := (ws_workers w)[i := \<lparr> wk_phase = ph, wk_buffer = buffer \<rparr>] \<rparr>"

definition set_sys :: "'w sys \<Rightarrow> 'w workers \<Rightarrow> 'w workers" where
  "set_sys s w = w\<lparr> ws_sys := s \<rparr>"

definition submit :: "s3_object list \<Rightarrow> 'w workers \<Rightarrow> 'w workers" where
  "submit xs w = w\<lparr> ws_submitted := ws_submitted w @ xs \<rparr>"

text \<open>After an object, the worker looks at the token and goes on or returns.\<close>

definition after_object ::
  "'w env \<Rightarrow> nat \<Rightarrow> s3_object list \<Rightarrow> 'w sys \<Rightarrow> 'w workers \<Rightarrow> 'w workers" where
  "after_object env i buffer s w =
     (case is_cancelled env s of (r, s') \<Rightarrow>
        set_sys s' (set_worker i (if r = Ok True then Finished else Receiving) buffer w))"

definition receive_step ::
  "s3_storage \<Rightarrow> 'w env \<Rightarrow> config \<Rightarrow> nat \<Rightarrow> s3_object list \<Rightarrow> 'w workers \<Rightarrow> 'w workers" where
  "receive_step st env cfg i buffer w =
     (case select_cancelled env (ws_sys w) of (r, s) \<Rightarrow>
        if r = Ok True then set_sys s (set_worker i Finished buffer w)
        else (case ws_queue w of
            x # q \<Rightarrow> (set_sys s (set_worker i (Received x) buffer w))\<lparr> ws_queue := q \<rparr>
          | [] \<Rightarrow> (case delete_buffered_objects st env cfg buffer s of
                (Ok b, s') \<Rightarrow>
                  submit (submits env buffer s) (set_sys s' (set_worker i Finished b w))
              | (_, s') \<Rightarrow>
                  submit (submits env buffer s) (set_sys s' (set_worker i Finished [] w)))))"

definition filter_step ::
  "s3_storage \<Rightarrow> 'w env \<Rightarrow> config \<Rightarrow> nat \<Rightarrow> s3_object \<Rightarrow> s3_object list \<Rightarrow> 'w workers \<Rightarrow> 'w workers"
  where
  "filter_step st env cfg i x buffer w =
     (case or_else (apply_head_object_filters st env cfg x) (apply_tag_filters st env cfg x)
             (ws_sys w) of
        (Ok True, s) \<Rightarrow> after_object env i buffer s w
      | (Ok False, s) \<Rightarrow> set_sys s (set_worker i (Selected x) buffer w)
      | (_, s) \<Rightarrow> set_sys s (set_worker i Finished buffer w))"

text \<open>What the threshold check submits: the buffer, when this object passes the threshold.\<close>

definition check_submits ::
  "'w env \<Rightarrow> config \<Rightarrow> s3_object list \<Rightarrow> 'w sys \<Rightarrow> s3_object list" where
  "check_submits env cfg buffer s = (case max_delete cfg of
       None \<Rightarrow> []
     | Some m \<Rightarrow> if delete_counter s + 1 \<le> m then []
                 else submits env buffer (s\<lparr> delete_counter := delete_counter s + 1 \<rparr>))"

definition check_step ::
  "s3_storage \<Rightarrow> 'w env \<Rightarrow> config \<Rightarrow> nat \<Rightarrow> s3_object \<Rightarrow> s3_object list \<Rightarrow> 'w workers \<Rightarrow> 'w workers"
  where
  "check_step st env cfg i x buffer w =
     submit (check_submits env cfg buffer (ws_sys w))
       (case check_max_delete st env cfg x buffer (ws_sys w) of
          (Ok (True, b), s) \<Rightarrow> after_object env i b s w
        | (Ok (False, b), s) \<Rightarrow> set_sys s (set_worker i (Granted x) b w)
        | (_, s) \<Rightarrow> set_sys s (set_worker i Finished [] w))"

definition push_submits ::
  "'w env \<Rightarrow> config \<Rightarrow> s3_object \<Rightarrow> s3_object list \<Rightarrow> 'w sys \<Rightarrow> s3_object list" where
  "push_submits env cfg x buffer s =
     (if effective_batch_size cfg \<le> length (buffer @ [x]) then submits env (buffer @ [x]) s else [])"

definition push_step ::
  "s3_storage \<Rightarrow> 'w env \<Rightarrow> config \<Rightarrow> nat \<Rightarrow> s3_object \<Rightarrow> s3_object list \<Rightarrow> 'w workers \<Rightarrow> 'w workers"
  where
  "push_step st env cfg i x buffer w =
     submit (push_submits env cfg x buffer (ws_sys w))
       (case buffer_and_delete st env cfg x buffer (ws_sys w) of
          (Ok b, s) \<Rightarrow> after_object env i b s w
        | (_, s) \<Rightarrow> set_sys s (set_worker i Finished [] w))"

definition worker_step ::
  "s3_storage \<Rightarrow> 'w env \<Rightarrow> config \<Rightarrow> nat \<Rightarrow> 'w workers \<Rightarrow> 'w workers option" where
  "worker_step st env cfg i w =
     (if length (ws_workers w) \<le> i then None
      else let buffer = wk_buffer (ws_workers w ! i) in
        case wk_phase (ws_workers w ! i) of
          Finished \<Rightarrow> None
        | Receiving \<Rightarrow> Some (receive_step st env cfg i buffer w)
        | Received x \<Rightarrow> Some (filter_step st env cfg i x buffer w)
        | Selected x \<Rightarrow> Some (check_step st env cfg i x buffer w)
        | Granted x \<Rightarrow> Some (push_step st env cfg i x buffer w))"

text \<open>
  A step of the run: some worker moves, or another task changes the shared state, which leaves
  the deletion counter to the workers and never takes a cancellation back.
\<close>

inductive run_step ::
  "s3_storage \<Rightarrow> 'w env \<Rightarrow> config \<Rightarrow> 'w workers \<Rightarrow> 'w workers \<Rightarrow> bool" for st env cfg where
  worker_moves: "worker_step st env cfg i w = Some w' \<Longrightarrow> run_step st env cfg w w'"
| other_task: "delete_counter s = delete_counter (ws_sys w) \<Longrightarrow> (cancelled (ws_sys w) \<longrightarrow> cancelled s) \<Longrightarrow>
    run_step st env cfg w (set_sys s w)"

inductive reachable ::
  "s3_storage \<Rightarrow> 'w env \<Rightarrow> config \<Rightarrow> 'w workers \<Rightarrow> 'w workers \<Rightarrow> bool" for st env cfg w0 where
  start: "reachable st env cfg w0 w0"
| step: "reachable st env cfg w0 w \<Longrightarrow> run_step st env cfg w w' \<Longrightarrow> reachable st env cfg w0 w'"

text \<open>A schedule: the workers that move, in order; a worker that cannot move is skipped.\<close>

fun run_schedule ::
  "s3_storage \<Rightarrow> 'w env \<Rightarrow> config \<Rightarrow> nat list \<Rightarrow> 'w workers \<Rightarrow> 'w workers" where
  "run_schedule st env cfg [] w = w"
| "run_schedule st env cfg (i # is) w = (case worker_step st env cfg i w of
       None \<Rightarrow> run_schedule st env cfg is w
     | Some w' \<Rightarrow> run_schedule st env cfg is w')"

lemma run_schedule_reachable:
  "reachable st env cfg w0 w \<Longrightarrow> reachable st env cfg w0 (run_schedule st env cfg is w)"
  by (induction "is" arbitrary: w) (auto split: option.splits, meson reachable.step worker_moves)


section \<open>Facts of the shared state that survive the operations\<close>

text \<open>
  A condition on the shared state that every basic effect of a worker keeps is kept by all of
  its operations, on every way out. Reporting a deleted object is one of the effects, and so
  is reporting the failures of a batch together with the warning that follows them.
\<close>

locale shared_state =
  fixes P :: "'w sys \<Rightarrow> bool"
  assumes basic [keeps_intros]:
      "keeps P cancel" "keeps P (is_cancelled env)" "keeps P (select_cancelled env)"
      "keeps P (stage_send env obj)" "keeps P (send_stats (DeleteSkip key))"
      "keeps P (send_stats (DeleteError key))" "keeps P set_warning"
      "keeps P (trigger env cfg ed)" "keeps P (exec_rate_limit st n)"
    and world_ok: "P s \<Longrightarrow> P (s\<lparr> world := w \<rparr>)"

locale run_fact = shared_state P for P :: "'w sys \<Rightarrow> bool" +
  assumes recorded [keeps_intros]: "keeps P (record_deleted env cfg lookup dk)"
    and failures: "fs \<noteq> [] \<Longrightarrow> keeps P (seq (for_each (record_failed env cfg) fs) set_warning)"
begin

lemma sdk_call_kept [keeps_intros]: "keeps P (sdk_call st env ctx f)"
  by (auto simp: keeps_def sdk_call_def panic_def world_ok split: prod.splits sum.splits)

lemma filter_skip_kept [keeps_intros]: "keeps P (emit_filter_skip env cfg x name)"
  by (auto simp: emit_filter_skip_def intro!: keeps_intros)

lemma regex_rejects_kept [keeps_intros]:
  "keeps P (regex_rejects env cfg x key re val name inc)"
  by (auto simp: regex_rejects_def intro!: keeps_intros)

lemma handle_api_error_kept [keeps_intros]: "keeps P (handle_api_error env e key operation)"
  by (auto simp: handle_api_error_def intro!: keeps_intros)

lemma or_else_kept [keeps_intros]: "keeps P m \<Longrightarrow> keeps P n \<Longrightarrow> keeps P (or_else m n)"
  by (auto simp: or_else_def intro!: keeps_intros)

lemma requests_kept [keeps_intros]:
  "keeps P (head_object st env k v)" "keeps P (get_object_tagging st env k v)"
  "keeps P (delete_object st env k v e)" "keeps P (delete_objects st env ids)"
  by (auto simp: head_object_def get_object_tagging_def delete_object_def delete_objects_def
      exec_rate_limit_one_def exec_rate_limit_n_def intro!: keeps_intros)

lemma attribute_filters_kept [keeps_intros]:
  "keeps P (apply_head_object_filters st env cfg x)" "keeps P (apply_tag_filters st env cfg x)"
  by (auto simp: apply_head_object_filters_def apply_tag_filters_def Let_def intro!: keeps_intros)

lemma retry_kept [keeps_intros]: "keeps P (retry_attempts n st env k v e)"
  by (induction n) (auto intro!: keeps_intros)

lemma delete_errors_kept [keeps_intros]:
  "keeps P (handle_delete_errors st env cfg lookup errs result)"
  by (induction errs arbitrary: result)
    (auto simp: handle_delete_error_def retry_failed_key_with_single_delete_def Let_def
      split: sum.splits intro!: keeps_intros)

lemma delete_chunks_kept [keeps_intros]: "keeps P (delete_chunks st env cfg cs result)"
  by (induction cs arbitrary: result) (auto simp: delete_chunk_def intro!: keeps_intros)

lemma deleter_kept [keeps_intros]: "keeps P (deleter_delete st env cfg objs)"
  by (auto simp: deleter_delete_def single_delete_def batch_delete_def Let_def split: list.splits
      intro!: keeps_intros)

lemma forward_kept [keeps_intros]: "keeps P (forward_batch env xs)"
  by (induction xs) (auto intro!: keeps_intros)

lemma delete_batch_kept [keeps_intros]: "keeps P (delete_batch st env cfg batch)"
proof -
  have rest: "keeps P (seq (for_each (record_failed env cfg) fs)
      (if fs \<noteq> [] then seq set_warning (if warn_as_error cfg then cancel else forward_batch env batch)
       else forward_batch env batch))" for fs
  proof (cases "fs = []")
    case False
    then have "keeps P (seq (seq (for_each (record_failed env cfg) fs) set_warning)
        (if warn_as_error cfg then cancel else forward_batch env batch))"
      by (intro keeps_seq failures) (auto intro!: keeps_intros)
    with False show ?thesis by (simp only: seq_assoc if_True not_False_eq_True)
  qed (auto intro!: keeps_intros)
  show ?thesis
    unfolding delete_batch_def run_deleter_def by (intro keeps_intros rest)
qed

lemma delete_buffered_kept [keeps_intros]: "keeps P (delete_buffered_objects st env cfg buf)"
  by (auto simp: delete_buffered_objects_def intro!: keeps_intros)

lemma buffer_and_delete_kept [keeps_intros]: "keeps P (buffer_and_delete st env cfg x buf)"
  by (auto simp: buffer_and_delete_def Let_def intro!: keeps_intros)

lemma exceeded_kept: "keeps P (max_delete_exceeded st env cfg x buffer)"
  by (auto simp: max_delete_exceeded_def intro!: keeps_intros)

end

text \<open>A condition that does not look at the report.\<close>

locale shared_fact = shared_state P for P :: "'w sys \<Rightarrow> bool" +
  assumes report_ok: "P s \<Longrightarrow> P (s\<lparr> report := r \<rparr>)"
    and stats_ok: "keeps P (send_stats d)"

sublocale shared_fact \<subseteq> run_fact
proof
  have r: "keeps P (update (\<lambda>s. s\<lparr> report := f (report s) \<rparr>))" for f
    by (rule keeps_update) (rule report_ok)
  show "keeps P (record_deleted env cfg lookup dk)" for env cfg lookup dk
    unfolding record_deleted_def by (intro keeps_intros r stats_ok)
  show "keeps P (seq (for_each (record_failed env cfg) fs) set_warning)" for env cfg fs
    unfolding record_failed_def by (intro keeps_intros r)
qed

definition same_counter :: "u64 \<Rightarrow> 'w sys \<Rightarrow> bool" where
  "same_counter c s \<longleftrightarrow> delete_counter s = c"

definition still_cancelled :: "'w sys \<Rightarrow> bool" where
  "still_cancelled s \<longleftrightarrow> cancelled s"

interpretation counter: shared_fact "same_counter c"
  by unfold_locales
    (auto simp: keeps_def same_counter_def is_cancelled_def select_cancelled_def bind_def panic_def
      stage_send_def Let_def exec_rate_limit_run sdk_call_def
      split: prod.splits send_env.splits sum.splits)

interpretation token: shared_fact still_cancelled
  by unfold_locales
    (auto simp: keeps_def still_cancelled_def is_cancelled_def select_cancelled_def bind_def panic_def
      stage_send_def Let_def exec_rate_limit_run sdk_call_def
      split: prod.splits send_env.splits sum.splits)


section \<open>After a cancellation\<close>

lemma submits_cancelled: "cancelled s \<Longrightarrow> submits env buffer s = []"
  by (auto simp: submits_def is_cancelled_def Let_def split: prod.splits)

lemma shared_step:
  assumes "keeps P m" and "m s = (r, s')" and "P s"
  shows "P s'"
  using assms keepsD by fast

lemma check_max_delete_cancelled:
  assumes "still_cancelled s" and "check_max_delete st env cfg x buffer s = (r, s')"
  shows "still_cancelled s'"
proof -
  let ?s1 = "s\<lparr> delete_counter := delete_counter s + 1 \<rparr>"
  have s1: "still_cancelled ?s1" using assms(1) by (simp add: still_cancelled_def)
  show ?thesis
    using assms(2) s1 shared_step [OF token.exceeded_kept, of st env cfg x buffer ?s1]
    by (auto simp: check_max_delete_def ret_def split: option.splits if_splits)
qed

lemma after_object_simps [simp]:
  "ws_submitted (after_object env i b s w) = ws_submitted w"
  "ws_queue (after_object env i b s w) = ws_queue w"
  by (simp_all add: after_object_def set_sys_def set_worker_def split: prod.splits)

lemma update_simps [simp]:
  "ws_submitted (set_sys s w) = ws_submitted w" "ws_submitted (set_worker i ph b w) = ws_submitted w"
  "ws_submitted (submit xs w) = ws_submitted w @ xs"
  "ws_queue (set_sys s w) = ws_queue w" "ws_queue (set_worker i ph b w) = ws_queue w"
  "ws_queue (submit xs w) = ws_queue w"
  "ws_sys (set_sys s w) = s" "ws_sys (set_worker i ph b w) = ws_sys w"
  "ws_sys (submit xs w) = ws_sys w"
  "ws_workers (set_sys s w) = ws_workers w"
  "ws_workers (set_worker i ph b w) = (ws_workers w)[i := \<lparr> wk_phase = ph, wk_buffer = b \<rparr>]"
  "ws_workers (submit xs w) = ws_workers w"
  by (simp_all add: set_sys_def set_worker_def submit_def)

lemma after_object_kept:
  assumes "shared_state P" and "P s"
  shows "P (ws_sys (after_object env i b s w))"
proof -
  obtain r s' where c: "is_cancelled env s = (r, s')" by fastforce
  have "keeps P (is_cancelled env)" using shared_state.basic(2) [OF assms(1)] .
  from shared_step [OF this c assms(2)] c show ?thesis by (simp add: after_object_def)
qed

lemmas token_shared = token.shared_state_axioms

lemma cancelled_worker_step:
  assumes "worker_step st env cfg i w = Some w'" and "still_cancelled (ws_sys w)"
  shows "still_cancelled (ws_sys w') \<and> ws_submitted w' = ws_submitted w"
proof -
  let ?b = "wk_buffer (ws_workers w ! i)"
  note s = assms(2) and c = assms(2) [unfolded still_cancelled_def]
  show ?thesis
  proof (cases "wk_phase (ws_workers w ! i)")
    case Receiving
    obtain r s1 where sel: "select_cancelled env (ws_sys w) = (r, s1)" by fastforce
    from shared_step [OF token.basic(3) sel s] have s1: "still_cancelled s1" .
    obtain r2 s2 where fl: "delete_buffered_objects st env cfg ?b s1 = (r2, s2)" by fastforce
    from shared_step [OF token.delete_buffered_kept fl s1] have "still_cancelled s2" .
    with Receiving sel s1 fl assms(1) submits_cancelled [of s1 env ?b] show ?thesis
      by (auto simp: worker_step_def receive_step_def Let_def still_cancelled_def
          split: if_splits list.splits outcome.splits)
  next
    case (Received x)
    obtain r s1 where f: "or_else (apply_head_object_filters st env cfg x)
        (apply_tag_filters st env cfg x) (ws_sys w) = (r, s1)" by fastforce
    have "keeps still_cancelled (or_else (apply_head_object_filters st env cfg x)
        (apply_tag_filters st env cfg x))"
      by (intro token.or_else_kept token.attribute_filters_kept)
    from shared_step [OF this f s] have "still_cancelled s1" .
    with Received f assms(1) after_object_kept [OF token_shared] show ?thesis
      by (auto simp: worker_step_def filter_step_def Let_def
          split: if_splits outcome.splits bool.splits)
  next
    case (Selected x)
    obtain r s1 where f: "check_max_delete st env cfg x ?b (ws_sys w) = (r, s1)" by fastforce
    have "check_submits env cfg ?b (ws_sys w) = []"
      using c by (simp add: check_submits_def submits_cancelled split: option.splits)
    with Selected f assms(1) check_max_delete_cancelled [OF s f] after_object_kept [OF token_shared]
    show ?thesis
      by (auto simp: worker_step_def check_step_def Let_def
          split: if_splits outcome.splits prod.splits bool.splits)
  next
    case (Granted x)
    obtain r s1 where f: "buffer_and_delete st env cfg x ?b (ws_sys w) = (r, s1)" by fastforce
    have "push_submits env cfg x ?b (ws_sys w) = []"
      using c by (simp add: push_submits_def submits_cancelled)
    with Granted f assms(1) shared_step [OF token.buffer_and_delete_kept f s]
      after_object_kept [OF token_shared] show ?thesis
      by (auto simp: worker_step_def push_step_def Let_def split: if_splits outcome.splits)
  next
    case Finished
    with assms(1) show ?thesis by (simp add: worker_step_def Let_def split: if_splits)
  qed
qed



section \<open>Where the objects are\<close>

fun phase_objects :: "phase \<Rightarrow> s3_object list" where
  "phase_objects (Received x) = [x]"
| "phase_objects (Selected x) = [x]"
| "phase_objects (Granted x) = [x]"
| "phase_objects Receiving = []"
| "phase_objects Finished = []"

fun phase_unchecked :: "phase \<Rightarrow> nat" where
  "phase_unchecked (Received x) = 1"
| "phase_unchecked (Selected x) = 1"
| "phase_unchecked _ = 0"

fun phase_granted :: "phase \<Rightarrow> nat" where
  "phase_granted (Granted x) = 1"
| "phase_granted _ = 0"

definition wk_objects :: "worker \<Rightarrow> s3_object multiset" where
  "wk_objects k = mset (wk_buffer k) + mset (phase_objects (wk_phase k))"

definition wk_granted :: "worker \<Rightarrow> nat" where
  "wk_granted k = length (wk_buffer k) + phase_granted (wk_phase k)"

definition wk_unchecked :: "worker \<Rightarrow> nat" where
  "wk_unchecked k = phase_unchecked (wk_phase k)"

lemma sum_list_update_add:
  fixes f :: "'b \<Rightarrow> 'a::comm_monoid_add"
  assumes "i < length ks"
  shows "sum_list (map f (ks[i := k])) + f (ks ! i) = sum_list (map f ks) + f k"
  using assms
proof (induction ks arbitrary: i)
  case (Cons a ks)
  then show ?case by (cases i) (auto simp: ac_simps)
qed simp


section \<open>What a step of one worker moves\<close>

definition left_over :: "s3_object list result \<Rightarrow> s3_object list" where
  "left_over r = (case r of Ok b \<Rightarrow> b | _ \<Rightarrow> [])"

text \<open>A flush either submits the whole buffer or keeps it.\<close>

lemma flush_splits:
  assumes "delete_buffered_objects st env cfg buffer s = (r, s')"
  shows "submits env buffer s @ left_over r = buffer"
proof (cases "buffer = []")
  case True
  with assms show ?thesis
    by (auto simp: delete_buffered_objects_def submits_def left_over_def ret_def)
next
  case False
  obtain w c where "is_cancelled env s = (Ok c, s\<lparr> world := w, cancelled := c \<rparr>)"
    by (rule is_cancelled_cases)
  with False assms show ?thesis
    by (cases c) (auto simp: delete_buffered_objects_def submits_def left_over_def bind_def seq_def
        ret_def split: prod.splits outcome.splits)
qed

lemma push_splits:
  assumes "buffer_and_delete st env cfg x buffer s = (r, s')"
  shows "push_submits env cfg x buffer s @ left_over r = buffer @ [x]"
proof (cases "effective_batch_size cfg \<le> length (buffer @ [x])")
  case True
  then have "delete_buffered_objects st env cfg (buffer @ [x]) s = (r, s')"
    using assms by (simp add: buffer_and_delete_def)
  from flush_splits [OF this] True show ?thesis by (simp add: push_submits_def)
next
  case False
  with assms show ?thesis
    by (auto simp: buffer_and_delete_def push_submits_def left_over_def ret_def)
qed

definition grants :: "config \<Rightarrow> 'w sys \<Rightarrow> bool" where
  "grants cfg s = (case max_delete cfg of None \<Rightarrow> True | Some m \<Rightarrow> delete_counter s + 1 \<le> m)"

lemma exceeded_result:
  assumes "max_delete_exceeded st env cfg x buffer s = (r, s')"
  shows "r = Ok (True, left_over (fst (delete_buffered_objects st env cfg buffer s)))
    \<or> (\<forall>a. r \<noteq> Ok a)"
  using assms
  by (cases r) (auto simp: max_delete_exceeded_def bind_eq_Ok seq_eq_Ok ret_def left_over_def)

lemma check_counter:
  assumes "check_max_delete st env cfg x buffer s = (r, s')"
  shows "delete_counter s' = delete_counter s + 1"
proof -
  let ?s1 = "s\<lparr> delete_counter := delete_counter s + 1 \<rparr>"
  have "same_counter (delete_counter s + 1) ?s1" by (simp add: same_counter_def)
  with assms shared_step [OF counter.exceeded_kept, of st env cfg x buffer ?s1 r s'
      "delete_counter s + 1"] show ?thesis
    by (auto simp: check_max_delete_def ret_def same_counter_def split: option.splits if_splits)
qed

lemma check_splits:
  assumes "check_max_delete st env cfg x buffer s = (r, s')"
  shows "if grants cfg s then r = Ok (False, buffer) \<and> check_submits env cfg buffer s = []
    else (\<exists>b. r = Ok (True, b) \<and> check_submits env cfg buffer s @ b = buffer)
      \<or> ((\<forall>a. r \<noteq> Ok a) \<and> set (check_submits env cfg buffer s) \<subseteq> set buffer
         \<and> (check_submits env cfg buffer s = [] \<or> check_submits env cfg buffer s = buffer))"
proof (cases "grants cfg s")
  case True
  with assms show ?thesis
    by (auto simp: grants_def check_max_delete_def check_submits_def ret_def split: option.splits)
next
  case False
  let ?s1 = "s\<lparr> delete_counter := delete_counter s + 1 \<rparr>"
  have ex: "max_delete_exceeded st env cfg x buffer ?s1 = (r, s')"
    and sub: "check_submits env cfg buffer s = submits env buffer ?s1"
    using False assms
    by (auto simp: grants_def check_max_delete_def check_submits_def split: option.splits)
  obtain r2 s2 where fl: "delete_buffered_objects st env cfg buffer ?s1 = (r2, s2)" by fastforce
  from exceeded_result [OF ex] flush_splits [OF fl] False fl show ?thesis
    unfolding sub by (auto simp: submits_def)
qed

text \<open>
  One step of a worker, seen from outside: which worker entry it replaces, what it takes from
  the queue, what it submits, and whether it asked the counter.
\<close>

definition moves ::
  "config \<Rightarrow> nat \<Rightarrow> worker \<Rightarrow> s3_object list \<Rightarrow> s3_object list \<Rightarrow> bool \<Rightarrow> 'w workers \<Rightarrow> 'w workers \<Rightarrow> bool"
  where
  "moves cfg i k took sub asked w w' \<longleftrightarrow>
     i < length (ws_workers w) \<and> ws_workers w' = (ws_workers w)[i := k]
   \<and> ws_queue w = took @ ws_queue w' \<and> ws_submitted w' = ws_submitted w @ sub
   \<and> delete_counter (ws_sys w') = delete_counter (ws_sys w) + (if asked then 1 else 0)
   \<and> mset sub + wk_objects k \<subseteq># wk_objects (ws_workers w ! i) + mset took
   \<and> wk_unchecked k + (if asked then 1 else 0) \<le> wk_unchecked (ws_workers w ! i) + length took
   \<and> length sub + wk_granted k \<le> wk_granted (ws_workers w ! i)
        + (if asked \<and> grants cfg (ws_sys w) then 1 else 0)"

lemma after_object_moves:
  "\<exists>ph s'. after_object env i b s w = set_sys s' (set_worker i ph b w)
     \<and> (ph = Finished \<or> ph = Receiving) \<and> delete_counter s' = delete_counter s"
proof -
  obtain w' c where "is_cancelled env s = (Ok c, s\<lparr> world := w', cancelled := c \<rparr>)"
    by (rule is_cancelled_cases)
  then show ?thesis
    by (intro exI [of _ "if c then Finished else Receiving"]
        exI [of _ "s\<lparr> world := w', cancelled := c \<rparr>"]) (simp add: after_object_def)
qed

lemmas measures = wk_objects_def wk_granted_def wk_unchecked_def

lemma counter_kept:
  assumes "keeps (same_counter (delete_counter s)) m" and "m s = (r, s')"
  shows "delete_counter s' = delete_counter s"
  using shared_step [OF assms] by (simp add: same_counter_def)

lemma receive_moves:
  assumes "i < length (ws_workers w)" and "ws_workers w ! i = \<lparr> wk_phase = Receiving, wk_buffer = b \<rparr>"
  shows "\<exists>k took sub asked. moves cfg i k took sub asked w (receive_step st env cfg i b w)"
proof -
  obtain r s1 where sel: "select_cancelled env (ws_sys w) = (r, s1)" by fastforce
  note c1 = counter_kept [OF counter.basic(3) sel]
  obtain r2 s2 where fl: "delete_buffered_objects st env cfg b s1 = (r2, s2)" by fastforce
  note c2 = counter_kept [OF counter.delete_buffered_kept fl]
  have b: "mset (submits env b s1) + mset (left_over r2) = mset b"
    "length (submits env b s1) + length (left_over r2) = length b"
    using arg_cong [OF flush_splits [OF fl], of mset] arg_cong [OF flush_splits [OF fl], of length]
    by simp_all
  show ?thesis
  proof (cases "r = Ok True")
    case True
    then show ?thesis
      using assms sel c1
      by (intro exI [of _ "\<lparr> wk_phase = Finished, wk_buffer = b \<rparr>"] exI [of _ "[]"] exI [of _ False])
        (simp add: moves_def receive_step_def measures)
  next
    case False
    show ?thesis
    proof (cases "ws_queue w")
      case (Cons x q)
      then show ?thesis
        using assms sel c1 False
        by (intro exI [of _ "\<lparr> wk_phase = Received x, wk_buffer = b \<rparr>"] exI [of _ "[x]"]
            exI [of _ "[]"] exI [of _ False])
          (simp add: moves_def receive_step_def measures set_sys_def set_worker_def)
    next
      case Nil
      have "receive_step st env cfg i b w
          = submit (submits env b s1) (set_sys s2 (set_worker i Finished (left_over r2) w))"
        using False sel Nil fl by (simp add: receive_step_def left_over_def split: outcome.splits)
      then show ?thesis
        using assms c1 c2 b Nil
        by (intro exI [of _ "\<lparr> wk_phase = Finished, wk_buffer = left_over r2 \<rparr>"] exI [of _ "[]"]
            exI [of _ "submits env b s1"] exI [of _ False])
          (simp add: moves_def measures)
    qed
  qed
qed

lemma filter_moves:
  assumes "i < length (ws_workers w)" and "ws_workers w ! i = \<lparr> wk_phase = Received x, wk_buffer = b \<rparr>"
  shows "\<exists>k took sub asked. moves cfg i k took sub asked w (filter_step st env cfg i x b w)"
proof -
  obtain r s1 where f: "or_else (apply_head_object_filters st env cfg x)
      (apply_tag_filters st env cfg x) (ws_sys w) = (r, s1)" by fastforce
  have "keeps (same_counter (delete_counter (ws_sys w))) (or_else
      (apply_head_object_filters st env cfg x) (apply_tag_filters st env cfg x))"
    by (intro counter.or_else_kept counter.attribute_filters_kept)
  note c1 = counter_kept [OF this f]
  obtain ph s2 where ao: "after_object env i b s1 w = set_sys s2 (set_worker i ph b w)"
    "ph = Finished \<or> ph = Receiving" "delete_counter s2 = delete_counter s1"
    using after_object_moves by blast
  have "\<exists>ph s. filter_step st env cfg i x b w = set_sys s (set_worker i ph b w)
      \<and> delete_counter s = delete_counter (ws_sys w) \<and> phase_granted ph = 0
      \<and> mset (phase_objects ph) \<subseteq># {#x#} \<and> phase_unchecked ph \<le> 1"
  proof (cases "r = Ok True")
    case True
    with f have "filter_step st env cfg i x b w = after_object env i b s1 w"
      by (simp add: filter_step_def)
    with ao c1 show ?thesis by (intro exI [of _ ph] exI [of _ s2]) auto
  next
    case False
    then show ?thesis
      using f c1
      by (intro exI [of _ "if r = Ok False then Selected x else Finished"] exI [of _ s1])
        (cases r; auto simp: filter_step_def)
  qed
  then obtain ph s where st: "filter_step st env cfg i x b w = set_sys s (set_worker i ph b w)"
    "delete_counter s = delete_counter (ws_sys w)" "phase_granted ph = 0"
    "mset (phase_objects ph) \<subseteq># {#x#}" "phase_unchecked ph \<le> 1"
    by blast
  then show ?thesis
    using assms
    by (intro exI [of _ "\<lparr> wk_phase = ph, wk_buffer = b \<rparr>"] exI [of _ "[]"] exI [of _ False])
      (simp add: moves_def measures)
qed

lemma check_moves:
  assumes "i < length (ws_workers w)" and "ws_workers w ! i = \<lparr> wk_phase = Selected x, wk_buffer = b \<rparr>"
  shows "\<exists>k took sub asked. moves cfg i k took sub asked w (check_step st env cfg i x b w)"
proof -
  let ?sub = "check_submits env cfg b (ws_sys w)"
  obtain r s1 where f: "check_max_delete st env cfg x b (ws_sys w) = (r, s1)" by fastforce
  note c1 = check_counter [OF f] and cases = check_splits [OF f]
  show ?thesis
  proof (cases "grants cfg (ws_sys w)")
    case True
    with f cases have "check_step st env cfg i x b w
        = submit [] (set_sys s1 (set_worker i (Granted x) b w))" by (simp add: check_step_def)
    then show ?thesis
      using assms c1 True
      by (intro exI [of _ "\<lparr> wk_phase = Granted x, wk_buffer = b \<rparr>"] exI [of _ "[]"] exI [of _ True])
        (simp add: moves_def measures)
  next
    case False
    have "\<exists>ph b' s. check_step st env cfg i x b w = submit ?sub (set_sys s (set_worker i ph b' w))
        \<and> (ph = Finished \<or> ph = Receiving) \<and> delete_counter s = delete_counter (ws_sys w) + 1
        \<and> mset ?sub + mset b' \<subseteq># mset b \<and> length ?sub + length b' \<le> length b"
    proof (cases "\<exists>b'. r = Ok (True, b') \<and> ?sub @ b' = b")
      case True
      then obtain b' where b': "r = Ok (True, b')" "b = ?sub @ b'" by auto
      obtain ph s2 where ao: "after_object env i b' s1 w = set_sys s2 (set_worker i ph b' w)"
        "ph = Finished \<or> ph = Receiving" "delete_counter s2 = delete_counter s1"
        using after_object_moves by blast
      have "mset b = mset ?sub + mset b'" "length b = length ?sub + length b'"
        using arg_cong [OF b'(2), of mset] arg_cong [OF b'(2), of length] by simp_all
      with ao b' f c1 show ?thesis
        by (intro exI [of _ ph] exI [of _ b'] exI [of _ s2]) (simp add: check_step_def)
    next
      case False
      with cases \<open>\<not> grants cfg (ws_sys w)\<close> have "\<forall>a. r \<noteq> Ok a" "?sub = [] \<or> ?sub = b" by auto
      with f c1 show ?thesis
        by (intro exI [of _ Finished] exI [of _ "[]"] exI [of _ s1])
          (cases r; auto simp: check_step_def)
    qed
    then obtain ph b' s where st: "check_step st env cfg i x b w
          = submit ?sub (set_sys s (set_worker i ph b' w))"
      "ph = Finished \<or> ph = Receiving" "delete_counter s = delete_counter (ws_sys w) + 1"
      "mset ?sub + mset b' \<subseteq># mset b" "length ?sub + length b' \<le> length b"
      by blast
    then show ?thesis
      using assms False
      by (intro exI [of _ "\<lparr> wk_phase = ph, wk_buffer = b' \<rparr>"] exI [of _ "[]"] exI [of _ ?sub]
          exI [of _ True])
        (auto simp: moves_def measures intro: subset_mset.order_trans)
  qed
qed

lemma push_moves:
  assumes "i < length (ws_workers w)" and "ws_workers w ! i = \<lparr> wk_phase = Granted x, wk_buffer = b \<rparr>"
  shows "\<exists>k took sub asked. moves cfg i k took sub asked w (push_step st env cfg i x b w)"
proof -
  let ?sub = "push_submits env cfg x b (ws_sys w)"
  obtain r s1 where f: "buffer_and_delete st env cfg x b (ws_sys w) = (r, s1)" by fastforce
  note c1 = counter_kept [OF counter.buffer_and_delete_kept f]
  have b: "mset ?sub + mset (left_over r) = add_mset x (mset b)"
    "length ?sub + length (left_over r) = Suc (length b)"
    using arg_cong [OF push_splits [OF f], of mset] arg_cong [OF push_splits [OF f], of length]
    by simp_all
  obtain ph s2 where ao: "after_object env i (left_over r) s1 w
      = set_sys s2 (set_worker i ph (left_over r) w)"
    "ph = Finished \<or> ph = Receiving" "delete_counter s2 = delete_counter s1"
    using after_object_moves by blast
  have "\<exists>ph s. push_step st env cfg i x b w = submit ?sub (set_sys s (set_worker i ph (left_over r) w))
      \<and> (ph = Finished \<or> ph = Receiving) \<and> delete_counter s = delete_counter (ws_sys w)"
    using f ao c1 by (cases r) (auto simp: push_step_def left_over_def)
  then obtain ph s where
    "push_step st env cfg i x b w = submit ?sub (set_sys s (set_worker i ph (left_over r) w))"
    "ph = Finished \<or> ph = Receiving" "delete_counter s = delete_counter (ws_sys w)" by blast
  then show ?thesis
    using assms b
    by (intro exI [of _ "\<lparr> wk_phase = ph, wk_buffer = left_over r \<rparr>"] exI [of _ "[]"]
        exI [of _ ?sub] exI [of _ False])
      (auto simp: moves_def measures)
qed

lemma worker_step_moves:
  assumes "worker_step st env cfg i w = Some w'"
  obtains k took sub asked where "moves cfg i k took sub asked w w'"
proof -
  let ?k = "ws_workers w ! i"
  from assms have i: "i < length (ws_workers w)" by (auto simp: worker_step_def split: if_splits)
  have "ws_workers w ! i = \<lparr> wk_phase = wk_phase ?k, wk_buffer = wk_buffer ?k \<rparr>" by simp
  with i assms receive_moves [OF i] filter_moves [OF i] check_moves [OF i] push_moves [OF i] that
  show ?thesis
    by (cases "wk_phase ?k") (force simp: worker_step_def Let_def)+
qed


section \<open>The invariant\<close>

text \<open>
  \<open>c\<close> objects have asked the counter. What is submitted or granted stays within them and
  within the threshold; submitted, held and queued objects are among the original ones.
\<close>

definition total :: "(worker \<Rightarrow> 'a::comm_monoid_add) \<Rightarrow> 'w workers \<Rightarrow> 'a" where
  "total f w = sum_list (map f (ws_workers w))"

definition within :: "config \<Rightarrow> nat \<Rightarrow> nat" where
  "within cfg c = (case max_delete cfg of None \<Rightarrow> c | Some m \<Rightarrow> min c (unat m))"

definition workers_inv :: "config \<Rightarrow> s3_object list \<Rightarrow> nat \<Rightarrow> 'w workers \<Rightarrow> bool" where
  "workers_inv cfg xs c w \<longleftrightarrow>
     delete_counter (ws_sys w) = of_nat c
   \<and> c + total wk_unchecked w + length (ws_queue w) \<le> length xs
   \<and> length (ws_submitted w) + total wk_granted w \<le> within cfg c
   \<and> mset (ws_submitted w) + total wk_objects w + mset (ws_queue w) \<subseteq># mset xs"

lemma within_mono: "within cfg c \<le> within cfg (Suc c)"
  by (auto simp: within_def split: option.splits)

lemma within_grant:
  assumes "delete_counter s = of_nat c" and "Suc c < 2 ^ 64" and "grants cfg s"
  shows "within cfg (Suc c) = Suc (within cfg c)"
proof (cases "max_delete cfg")
  case (Some m)
  have "(of_nat (Suc c) :: u64) \<le> m"
    using assms(1,3) Some by (simp add: grants_def add.commute)
  then have "Suc c \<le> unat m"
    using assms(2) by (simp add: word_le_nat_alt unat_of_nat take_bit_nat_eq_self del: of_nat_Suc)
  with Some show ?thesis by (simp add: within_def)
qed (simp add: within_def)

lemma total_moves:
  assumes "moves cfg i k took sub asked w w'"
  shows "total f w' + f (ws_workers w ! i) = total f w + f k"
  using assms sum_list_update_add [of i "ws_workers w" f k] by (simp add: moves_def total_def)

lemma within_moves:
  assumes "moves cfg i k took sub asked w w'" and "delete_counter (ws_sys w) = of_nat c"
    and "c + total wk_unchecked w + length (ws_queue w) \<le> length xs" and "length xs < 2 ^ 64"
  shows "within cfg (if asked then Suc c else c)
    = within cfg c + (if asked \<and> grants cfg (ws_sys w) then 1 else 0)
   \<or> (asked \<and> \<not> grants cfg (ws_sys w) \<and> within cfg c \<le> within cfg (Suc c))"
proof (cases "asked \<and> grants cfg (ws_sys w)")
  case True
  have "wk_unchecked k + 1 \<le> wk_unchecked (ws_workers w ! i) + length took"
    and q: "length (ws_queue w) = length took + length (ws_queue w')"
    using assms(1) True by (simp_all add: moves_def)
  moreover have "total wk_unchecked w' + wk_unchecked (ws_workers w ! i)
      = total wk_unchecked w + wk_unchecked k"
    by (rule total_moves [OF assms(1)])
  ultimately have "Suc c \<le> length xs" using assms(3) by linarith
  with within_grant [OF assms(2)] assms(4) True show ?thesis by simp
qed (use within_mono in auto)

lemma moves_inv:
  assumes "moves cfg i k took sub asked w w'" and "workers_inv cfg xs c w" and "length xs < 2 ^ 64"
  shows "workers_inv cfg xs (if asked then Suc c else c) w'"
proof -
  let ?k = "ws_workers w ! i"
  note mv = assms(1) [unfolded moves_def] and iv = assms(2) [unfolded workers_inv_def]
  have t: "total wk_unchecked w' + wk_unchecked ?k = total wk_unchecked w + wk_unchecked k"
    "total wk_granted w' + wk_granted ?k = total wk_granted w + wk_granted k"
    "total wk_objects w' + wk_objects ?k = total wk_objects w + wk_objects k"
    by (rule total_moves [OF assms(1)])+
  have q: "length (ws_queue w) = length took + length (ws_queue w')"
    and qm: "mset (ws_queue w) = mset took + mset (ws_queue w')"
    using mv by simp_all
  have "(if asked then Suc c else c) + total wk_unchecked w' + length (ws_queue w') \<le> length xs"
    using mv iv t(1) q by (auto split: if_splits)
  moreover have "length (ws_submitted w') + total wk_granted w' \<le> within cfg (if asked then Suc c else c)"
    using within_moves [OF assms(1) _ _ assms(3), of c] mv iv t(2) by (auto split: if_splits)
  moreover have "mset (ws_submitted w') + total wk_objects w' + mset (ws_queue w') \<subseteq># mset xs"
  proof -
    have "mset (ws_submitted w') + total wk_objects w' + mset (ws_queue w') + wk_objects ?k
        = mset (ws_submitted w) + total wk_objects w + mset (ws_queue w') + (mset sub + wk_objects k)"
      using mv t(3) by (simp add: ac_simps)
    also have "\<dots> \<subseteq># mset (ws_submitted w) + total wk_objects w + mset (ws_queue w')
        + (wk_objects ?k + mset took)"
      using mv by (simp add: subset_mset.add_left_mono)
    also have "\<dots> = mset (ws_submitted w) + total wk_objects w + mset (ws_queue w) + wk_objects ?k"
      using qm by (simp add: ac_simps)
    finally show ?thesis using iv by (meson subset_mset.add_le_cancel_right subset_mset.order_trans)
  qed
  moreover have "delete_counter (ws_sys w') = of_nat (if asked then Suc c else c)"
    using mv iv by simp
  ultimately show ?thesis by (simp add: workers_inv_def)
qed

lemma reachable_inv:
  assumes "reachable st env cfg w0 w" and "workers_inv cfg xs c0 w0" and "length xs < 2 ^ 64"
  shows "\<exists>c. workers_inv cfg xs c w"
  using assms(1)
proof induction
  case start
  then show ?case using assms(2) by blast
next
  case (step w w')
  from step.IH obtain c where c: "workers_inv cfg xs c w" by blast
  from step.hyps(2) show ?case
  proof cases
    case (worker_moves i)
    obtain k took sub asked where "moves cfg i k took sub asked w w'"
      using worker_step_moves [OF worker_moves] .
    from moves_inv [OF this c assms(3)] show ?thesis by blast
  next
    case (other_task s)
    with c show ?thesis by (auto simp: workers_inv_def total_def)
  qed
qed

lemma start_inv:
  assumes "delete_counter s = 0"
  shows "workers_inv cfg xs 0 (workers_start n xs s)"
proof -
  have "sum_list (replicate n {#}) = ({#} :: s3_object multiset)"
    by (induction n) auto
  then show ?thesis
    using assms by (simp add: workers_inv_def workers_start_def total_def measures within_def
        split: option.splits)
qed





section \<open>The steps are the code of a worker\<close>

definition alone :: "phase \<Rightarrow> s3_object list \<Rightarrow> s3_object list \<Rightarrow> s3_object list \<Rightarrow> 'w sys \<Rightarrow> 'w workers" where
  "alone ph buffer q sub s =
     \<lparr> ws_sys = s, ws_queue = q, ws_workers = [\<lparr> wk_phase = ph, wk_buffer = buffer \<rparr>],
       ws_submitted = sub \<rparr>"

lemma alone_updates [simp]:
  "set_sys s' (alone ph b q sub s) = alone ph b q sub s'"
  "set_worker 0 ph' b' (alone ph b q sub s) = alone ph' b' q sub s"
  "submit xs (alone ph b q sub s) = alone ph b q (sub @ xs) s"
  "ws_sys (alone ph b q sub s) = s" "ws_queue (alone ph b q sub s) = q"
  "(alone ph b q sub s)\<lparr> ws_queue := q' \<rparr> = alone ph b q' sub s"
  "worker_step st env cfg 0 (alone ph b q sub s) = (case ph of
       Finished \<Rightarrow> None
     | Receiving \<Rightarrow> Some (receive_step st env cfg 0 b (alone ph b q sub s))
     | Received x \<Rightarrow> Some (filter_step st env cfg 0 x b (alone ph b q sub s))
     | Selected x \<Rightarrow> Some (check_step st env cfg 0 x b (alone ph b q sub s))
     | Granted x \<Rightarrow> Some (push_step st env cfg 0 x b (alone ph b q sub s)))"
  by (simp_all add: alone_def set_sys_def set_worker_def submit_def worker_step_def
      split: phase.split)

lemma run_schedule_append:
  "run_schedule st env cfg (is @ js) w = run_schedule st env cfg js (run_schedule st env cfg is w)"
  by (induction "is" arbitrary: w) (auto split: option.splits)

text \<open>From \<open>w\<close>, the worker alone gets to a state with \<open>P\<close>.\<close>

definition gets_to :: "s3_storage \<Rightarrow> 'w env \<Rightarrow> config \<Rightarrow> 'w workers \<Rightarrow> ('w workers \<Rightarrow> bool) \<Rightarrow> bool" where
  "gets_to st env cfg w P \<longleftrightarrow> (\<exists>n. P (run_schedule st env cfg (replicate n 0) w))"

lemma gets_to_now: "P w \<Longrightarrow> gets_to st env cfg w P"
  unfolding gets_to_def by (rule exI [of _ 0]) simp

lemma gets_to_step:
  assumes "worker_step st env cfg 0 w = Some w'" and "gets_to st env cfg w' P"
  shows "gets_to st env cfg w P"
proof -
  from assms(2) obtain n where "P (run_schedule st env cfg (replicate n 0) w')"
    by (auto simp: gets_to_def)
  then show ?thesis
    unfolding gets_to_def using assms(1) by (intro exI [of _ "Suc n"]) simp
qed

definition ended :: "'w sys \<Rightarrow> s3_object list result \<Rightarrow> 'w workers \<Rightarrow> bool" where
  "ended s r w \<longleftrightarrow> ws_sys w = s \<and> (\<exists>b. ws_workers w = [\<lparr> wk_phase = Finished, wk_buffer = b \<rparr>]
     \<and> (\<forall>b'. r = Ok b' \<longrightarrow> b = b'))"

lemma ended_alone [simp]:
  "ended s r (alone ph b q sub s') \<longleftrightarrow> s' = s \<and> ph = Finished \<and> (\<forall>b'. r = Ok b' \<longrightarrow> b = b')"
  by (auto simp: ended_def alone_def)

text \<open>One object: the three steps after the receive are \<open>process_object\<close> and the look at the token.\<close>

definition after_process ::
  "'w env \<Rightarrow> s3_object list \<Rightarrow> s3_object list result \<times> 'w sys \<Rightarrow> 'w workers \<Rightarrow> bool" where
  "after_process env q out w = (\<exists>sub b. case out of
       (Ok b', s) \<Rightarrow> (case is_cancelled env s of (r, s') \<Rightarrow>
          w = alone (if r = Ok True then Finished else Receiving) b' q sub s')
     | (Err e, s) \<Rightarrow> w = alone Finished b q sub s
     | (Panic m, s) \<Rightarrow> w = alone Finished b q sub s)"

lemma after_object_alone:
  "after_object env 0 b s (alone ph b0 q sub s0) = (case is_cancelled env s of (r, s') \<Rightarrow>
     alone (if r = Ok True then Finished else Receiving) b q sub s')"
  by (simp add: after_object_def split: prod.splits)

lemma process_object_steps:
  "gets_to st env cfg (alone (Received x) b q sub s)
     (after_process env q (process_object st env cfg x b s))"
proof -
  let ?filters = "or_else (apply_head_object_filters st env cfg x) (apply_tag_filters st env cfg x)"
  obtain r s1 where f: "?filters s = (r, s1)" by fastforce
  have process: "process_object st env cfg x b s = bind ?filters (\<lambda>skip.
      if skip then ret b else bind (check_max_delete st env cfg x b) (\<lambda>(reached, buffer').
        if reached then ret buffer' else buffer_and_delete st env cfg x buffer')) s"
    by (simp add: process_object_def or_else_def bind_assoc if_distrib [of "\<lambda>m. bind m _"]
        cong: if_cong del: run_basic)
  have first: "worker_step st env cfg 0 (alone (Received x) b q sub s)
      = Some (filter_step st env cfg 0 x b (alone (Received x) b q sub s))" by simp
  show ?thesis
  proof (cases "r = Ok False")
    case False
    with f show ?thesis
      by (intro gets_to_step [OF first] gets_to_now)
        (cases r; auto simp: filter_step_def process bind_def after_process_def after_object_alone
          split: prod.splits)
  next
    case True
    obtain r2 s2 where c: "check_max_delete st env cfg x b s1 = (r2, s2)" by fastforce
    let ?w2 = "alone (Selected x) b q sub s1"
    have second: "filter_step st env cfg 0 x b (alone (Received x) b q sub s) = ?w2"
      using f True by (simp add: filter_step_def)
    have check: "worker_step st env cfg 0 ?w2 = Some (check_step st env cfg 0 x b ?w2)" by simp
    show ?thesis
    proof (cases "\<exists>b'. r2 = Ok (False, b')")
      case False
      have "after_process env q (process_object st env cfg x b s) (check_step st env cfg 0 x b ?w2)"
        using False f True c
        by (cases r2) (auto simp: check_step_def process bind_def after_process_def
            after_object_alone split: prod.splits bool.splits)
      then show ?thesis
        by (intro gets_to_step [OF first, unfolded second] gets_to_step [OF check] gets_to_now)
    next
      case True
      then obtain b' where b': "r2 = Ok (False, b')" by blast
      let ?sub3 = "sub @ check_submits env cfg b s1"
      let ?w3 = "alone (Granted x) b' q ?sub3 s2"
      have third: "check_step st env cfg 0 x b ?w2 = ?w3"
        using c b' by (simp add: check_step_def)
      obtain r3 s3 where p: "buffer_and_delete st env cfg x b' s2 = (r3, s3)" by fastforce
      have push: "worker_step st env cfg 0 ?w3 = Some (push_step st env cfg 0 x b' ?w3)" by simp
      have "process_object st env cfg x b s = (r3, s3)"
        using f \<open>r = Ok False\<close> c b' p by (simp add: process bind_def split: outcome.splits)
      with p have "after_process env q (process_object st env cfg x b s) (push_step st env cfg 0 x b' ?w3)"
        by (cases r3) (auto simp: push_step_def after_process_def after_object_alone
            split: prod.splits)
      then show ?thesis
        by (intro gets_to_step [OF first, unfolded second] gets_to_step [OF check, unfolded third]
            gets_to_step [OF push] gets_to_now)
    qed
  qed
qed

lemma gets_to_trans:
  assumes "gets_to st env cfg w P" and "\<And>w'. P w' \<Longrightarrow> gets_to st env cfg w' Q"
  shows "gets_to st env cfg w Q"
proof -
  from assms(1) obtain n where "P (run_schedule st env cfg (replicate n 0) w)"
    by (auto simp: gets_to_def)
  from assms(2) [OF this] obtain m where
    "Q (run_schedule st env cfg (replicate m 0) (run_schedule st env cfg (replicate n 0) w))"
    by (auto simp: gets_to_def)
  then show ?thesis
    unfolding gets_to_def by (intro exI [of _ "n + m"]) (simp add: replicate_add run_schedule_append)
qed

lemma alone_receives:
  "worker_step st env cfg 0 (alone Receiving b q sub s)
     = Some (receive_step st env cfg 0 b (alone Receiving b q sub s))"
  by simp

lemma worker_alone:
  "gets_to st env cfg (alone Receiving buffer xs sub s)
     (case receive_and_delete st env cfg xs buffer s of (r, s') \<Rightarrow> ended s' r)"
proof (induction xs arbitrary: buffer sub s)
  case Nil
  obtain r s1 where sel: "select_cancelled env s = (r, s1)" by fastforce
  obtain r2 s2 where fl: "delete_buffered_objects st env cfg buffer s1 = (r2, s2)" by fastforce
  have "\<exists>c. r = Ok c"
    using sel by (auto simp: select_cancelled_def bind_def is_cancelled_def Let_def split: prod.splits)
  then show ?case
    using sel fl
    by (intro gets_to_step [OF alone_receives]
        gets_to_now) (auto simp: receive_step_def bind_def ret_def split: outcome.splits)
next
  case (Cons x xs)
  obtain r s1 where sel: "select_cancelled env s = (r, s1)" by fastforce
  have "\<exists>c. r = Ok c"
    using sel by (auto simp: select_cancelled_def bind_def is_cancelled_def Let_def split: prod.splits)
  then obtain c where r: "r = Ok c" by blast
  show ?case
  proof (cases c)
    case True
    then show ?thesis
      using sel r
      by (intro gets_to_step [OF alone_receives]
          gets_to_now) (auto simp: receive_step_def bind_def ret_def)
  next
    case False
    obtain rp sp where p: "process_object st env cfg x buffer s1 = (rp, sp)" by fastforce
    obtain wc cc where ic: "is_cancelled env sp = (Ok cc, sp\<lparr> world := wc, cancelled := cc \<rparr>)"
      by (rule is_cancelled_cases)
    have run: "receive_and_delete st env cfg (x # xs) buffer s = (case rp of
        Ok b' \<Rightarrow> (case is_cancelled env sp of (r, s2) \<Rightarrow>
           if r = Ok True then (Ok b', s2) else receive_and_delete st env cfg xs b' s2)
      | Err e \<Rightarrow> (Err e, sp) | Panic m \<Rightarrow> (Panic m, sp))"
      using sel r False p ic by (cases rp) (simp_all add: bind_def ret_def)
    have recv: "worker_step st env cfg 0 (alone Receiving buffer (x # xs) sub s)
        = Some (alone (Received x) buffer xs sub s1)"
      using sel r False by (simp add: receive_step_def)
    show ?thesis
    proof (intro gets_to_step [OF recv] gets_to_trans [OF process_object_steps])
      fix w'
      assume ap: "after_process env xs (process_object st env cfg x buffer s1) w'"
      show "gets_to st env cfg w' (case receive_and_delete st env cfg (x # xs) buffer s of
          (r, s') \<Rightarrow> ended s' r)"
      proof (cases rp)
        case (Ok b')
        obtain r4 s4 where ic: "is_cancelled env sp = (r4, s4)" by fastforce
        from ic ap p Ok obtain sub' where
          w': "w' = alone (if r4 = Ok True then Finished else Receiving) b' xs sub' s4"
          by (auto simp: after_process_def)
        show ?thesis
        proof (cases "r4 = Ok True")
          case True
          with w' run Ok ic show ?thesis by (intro gets_to_now) simp
        next
          case False
          with w' run Ok ic Cons.IH [of b' sub' s4] show ?thesis by simp
        qed
      qed (use ap p run in \<open>auto simp: after_process_def intro!: gets_to_now\<close>)
    qed
  qed
qed

text \<open>
  C38: the interleaved model is the code: a single worker, running alone on the objects of the
  channel, comes to its end, and it has then done exactly what the worker function
  \<open>ObjectDeleter::delete\<close> does on them: the same shared state, and the same buffer when that
  returns without an error.
\<close>

theorem single_worker_runs_the_code:
  "\<exists>n. let w = run_schedule st env cfg (replicate n 0) (workers_start 1 xs s);
           (r, s') = object_deleter_delete st env cfg xs s
       in ws_sys w = s' \<and> (\<exists>b. ws_workers w = [\<lparr> wk_phase = Finished, wk_buffer = b \<rparr>]
            \<and> r \<in> {Ok b} \<union> range Err \<union> range Panic)"
proof -
  have "workers_start 1 xs s = alone Receiving [] xs [] s"
    by (simp add: workers_start_def alone_def)
  then obtain n where "case object_deleter_delete st env cfg xs s of (r, s') \<Rightarrow>
      ended s' r (run_schedule st env cfg (replicate n 0) (workers_start 1 xs s))"
    using worker_alone [of st env cfg "[]" xs "[]" s]
    by (auto simp: gets_to_def object_deleter_delete_def split: prod.splits)
  then show ?thesis
    by (intro exI [of _ n]) (cases "fst (object_deleter_delete st env cfg xs s)";
      auto simp: ended_def Let_def split: prod.splits)
qed

end
