(* ===== verification/Pipeline.thy ===== *)
theory Pipeline
  imports Safety Workers
begin

text \<open>
  The orchestrator (\<open>src/pipeline.rs\<close>), the lister (\<open>src/lister.rs\<close>) and the terminator
  (\<open>src/terminator.rs\<close>).

  The stages of a run are tasks connected by channels. They run here one after the other, each
  on the whole output of the one before, which is one of the schedules the program allows when
  the channels are large enough: the lister, the filters in their order, then the workers, of
  which the first takes the objects and the others find the channel closed. The theory
  \<open>Workers\<close> has the interleavings of the workers. The task that waits for a stage records
  its error before the next stage is looked at.
\<close>

section \<open>The state of a pipeline\<close>

record 'w pipeline =
  pl_config :: config
  pl_target :: s3_storage
  pl_has_error :: bool
  pl_has_panic :: bool
  pl_errors :: "anyhow list"
  pl_ready :: bool
  pl_prerequisites_checked :: bool
  pl_sys :: "'w sys"

definition pipeline_new :: "config \<Rightarrow> 'w \<Rightarrow> 'w pipeline" where
  "pipeline_new cfg w =
     \<lparr> pl_config = cfg, pl_target = create_storage cfg, pl_has_error = False,
       pl_has_panic = False, pl_errors = [], pl_ready = True, pl_prerequisites_checked = False,
       pl_sys = sys_new w \<rparr>"

definition pipeline_has_warning :: "'w pipeline \<Rightarrow> bool" where
  "pipeline_has_warning pl = has_warning (pl_sys pl)"

text \<open>\<open>get_errors_and_consume\<close> empties the list and leaves the flag.\<close>

definition get_errors_and_consume :: "'w pipeline \<Rightarrow> anyhow list option \<times> 'w pipeline" where
  "get_errors_and_consume pl =
     (if \<not> pl_has_error pl then (None, pl) else (Some (pl_errors pl), pl\<lparr> pl_errors := [] \<rparr>))"

definition get_error_messages :: "'w pipeline \<Rightarrow> string list option" where
  "get_error_messages pl =
     (if \<not> pl_has_error pl then None else Some (map anyhow_display (pl_errors pl)))"

definition get_deletion_stats :: "'w pipeline \<Rightarrow> deletion_stats" where
  "get_deletion_stats pl = snapshot (report (pl_sys pl))"

definition close_stats_sender :: "'w pipeline \<Rightarrow> 'w pipeline" where
  "close_stats_sender pl = pl\<lparr> pl_sys := (pl_sys pl)\<lparr> stats_closed := True \<rparr> \<rparr>"

definition record_error :: "anyhow \<Rightarrow> 'w pipeline \<Rightarrow> 'w pipeline" where
  "record_error e pl = pl\<lparr> pl_has_error := True, pl_errors := pl_errors pl @ [e] \<rparr>"

definition pl_trigger :: "'w env \<Rightarrow> event_data \<Rightarrow> 'w pipeline \<Rightarrow> 'w pipeline" where
  "pl_trigger env ed pl =
     pl\<lparr> pl_sys := trigger_event env (event_manager (pl_config pl)) ed (pl_sys pl) \<rparr>"


section \<open>Prerequisites\<close>

definition keep_latest_requires :: string where
  "keep_latest_requires = ''--keep-latest-only requires --delete-all-versions.''"
definition marker_only_requires :: string where
  "marker_only_requires = ''--filter-delete-marker-only requires --delete-all-versions.''"
definition if_match_conflicts :: string where
  "if_match_conflicts =
     ''--if-match cannot be used with --delete-all-versions. ''
     @ ''S3 does not support If-Match conditional headers when deleting by version ID.''"
definition keep_latest_unversioned :: string where
  "keep_latest_unversioned = ''--keep-latest-only cannot be used on a non-versioned bucket.''"
definition marker_only_unversioned :: string where
  "marker_only_unversioned =
     ''--filter-delete-marker-only cannot be used on a non-versioned bucket.''"

text \<open>A computation over the shared state, run inside the pipeline.\<close>

definition on_sys :: "('w sys, 'a) prog \<Rightarrow> ('w pipeline, 'a) prog" where
  "on_sys m = (\<lambda>pl. case m (pl_sys pl) of (r, s) \<Rightarrow> (r, pl\<lparr> pl_sys := s \<rparr>))"

definition check_versioning :: "'w env \<Rightarrow> config \<Rightarrow> s3_storage \<Rightarrow> ('w pipeline, unit) prog" where
  "check_versioning env cfg st =
     bind (on_sys (is_versioning_enabled st env)) (\<lambda>versioning_enabled.
       if versioning_enabled then ret ()
       else if keep_latest_only (filter_config cfg) then throw (Message keep_latest_unversioned)
       else if delete_marker_only (filter_config cfg) then throw (Message marker_only_unversioned)
       else update (\<lambda>pl. pl\<lparr> pl_config := cfg\<lparr> delete_all_versions := False \<rparr> \<rparr>))"

definition check_prerequisites :: "'w env \<Rightarrow> ('w pipeline, unit) prog" where
  "check_prerequisites env =
     bind (gets pl_config) (\<lambda>cfg.
     bind (gets pl_target) (\<lambda>st.
     seq (on_sys (check_before_deletion (safety_checker_new env cfg)))
       (if keep_latest_only (filter_config cfg) \<and> \<not> delete_all_versions cfg then
          throw (Message keep_latest_requires)
        else if delete_marker_only (filter_config cfg) \<and> \<not> delete_all_versions cfg then
          throw (Message marker_only_requires)
        else if if_match cfg \<and> delete_all_versions cfg then
          throw (Message if_match_conflicts)
        else
          seq (if delete_all_versions cfg then check_versioning env cfg st else ret ())
            (update (\<lambda>pl. pl\<lparr> pl_prerequisites_checked := True \<rparr>)))))"


section \<open>Joining a stage\<close>

text \<open>What the task that waits for a stage does with its end.\<close>

definition join_stage ::
  "'w env \<Rightarrow> string \<Rightarrow> (anyhow, 'a) outcome \<Rightarrow> 'w pipeline \<Rightarrow> 'w pipeline" where
  "join_stage env label r pl = (case r of
       Ok _ \<Rightarrow> pl
     | Err e \<Rightarrow> record_error e (pl\<lparr> pl_sys := (pl_sys pl)\<lparr> cancelled := True \<rparr> \<rparr>)
     | Panic m \<Rightarrow> record_error (Message (label @ join_error_text (env_libs env) m))
         (pl\<lparr> pl_sys := (pl_sys pl)\<lparr> cancelled := True \<rparr>, pl_has_panic := True \<rparr>))"

definition join_worker ::
  "'w env \<Rightarrow> (anyhow, 'a) outcome \<Rightarrow> 'w pipeline \<Rightarrow> 'w pipeline" where
  "join_worker env r pl = (case r of
       Ok _ \<Rightarrow> pl
     | Err e \<Rightarrow> if is_cancelled_error e then pl
         else record_error e (pl\<lparr> pl_sys := (pl_sys pl)\<lparr> cancelled := True \<rparr> \<rparr>)
     | Panic m \<Rightarrow> record_error (Message (''delete worker panicked: '' @ join_error_text (env_libs env) m))
         (pl\<lparr> pl_sys := (pl_sys pl)\<lparr> cancelled := True \<rparr>, pl_has_panic := True \<rparr>))"

text \<open>A stage on the objects of its channel; what it sends is the input of the next stage.\<close>

definition run_stage ::
  "'w env \<Rightarrow> string \<Rightarrow> ('w sys, unit) prog \<Rightarrow> 'w pipeline \<Rightarrow> s3_object list \<times> 'w pipeline" where
  "run_stage env label m pl =
     (case m ((pl_sys pl)\<lparr> sent := [] \<rparr>) of
        (r, s) \<Rightarrow> (sent s, join_stage env label r (pl\<lparr> pl_sys := s \<rparr>)))"


section \<open>The stages\<close>

definition list_target ::
  "nat \<Rightarrow> 'w env \<Rightarrow> 'w pipeline \<Rightarrow> (s3_object list \<times> 'w pipeline) option" where
  "list_target n env pl =
     (let cfg = pl_config pl; s0 = (pl_sys pl)\<lparr> sent := [] \<rparr> in
      case (if delete_all_versions cfg
            then list_object_versions n (pl_target pl) env (max_keys cfg) s0
            else list_objects n (pl_target pl) env (max_keys cfg) s0) of
        None \<Rightarrow> None
      | Some (r, s) \<Rightarrow>
          Some (sent s, join_stage env ''object lister task panicked: '' r (pl\<lparr> pl_sys := s \<rparr>)))"

text \<open>The filters a configuration inserts, in the order of the chain.\<close>

definition filter_stages :: "config \<Rightarrow> (string \<times> filter_fn) list" where
  "filter_stages cfg = (let fc = filter_config cfg in
     (if delete_marker_only fc then [(''DeleteMarkerOnlyFilter'', is_delete_marker)] else [])
   @ (if before_time fc \<noteq> None then [(''MtimeBeforeFilter'', is_before)] else [])
   @ (if after_time fc \<noteq> None then [(''MtimeAfterFilter'', is_after_or_equal)] else [])
   @ (if smaller_size fc \<noteq> None then [(''SmallerSizeFilter'', is_smaller)] else [])
   @ (if larger_size fc \<noteq> None then [(''LargerSizeFilter'', is_larger_or_equal)] else [])
   @ (if include_regex fc \<noteq> None then [(''IncludeRegexFilter'', is_match)] else [])
   @ (if exclude_regex fc \<noteq> None then [(''ExcludeRegexFilter'', is_not_match)] else [])
   @ (if keep_latest_only fc then [(''KeepLatestOnlyFilter'', is_not_latest)] else []))"

fun run_filters ::
  "'w env \<Rightarrow> config \<Rightarrow> (string \<times> filter_fn) list \<Rightarrow> s3_object list \<Rightarrow> 'w pipeline
     \<Rightarrow> s3_object list \<times> 'w pipeline" where
  "run_filters env cfg [] xs pl = (xs, pl)"
| "run_filters env cfg ((name, f) # fs) xs pl =
     (case run_stage env ''filter task panicked: '' (receive_and_filter env cfg name f xs) pl of
        (ys, pl') \<Rightarrow> run_filters env cfg fs ys pl')"

definition filter_objects ::
  "'w env \<Rightarrow> s3_object list \<Rightarrow> 'w pipeline \<Rightarrow> s3_object list \<times> 'w pipeline" where
  "filter_objects env xs pl =
     (let cfg = pl_config pl; (ys, pl1) = run_filters env cfg (filter_stages cfg) xs pl in
      if fm_callback_registered (filter_manager cfg)
      then run_stage env ''user defined filter panicked: '' (user_defined_filter_loop env cfg ys) pl1
      else (ys, pl1))"

definition run_worker ::
  "'w env \<Rightarrow> s3_object list \<Rightarrow> 'w pipeline \<Rightarrow> 'w pipeline" where
  "run_worker env xs pl =
     (case object_deleter_delete (pl_target pl) env (pl_config pl) xs (pl_sys pl) of
        (r, s) \<Rightarrow> join_worker env r (pl\<lparr> pl_sys := s \<rparr>))"

text \<open>
  The workers share a fresh counter. In this schedule the first one takes all the objects, and
  the others run on the closed channel.
\<close>

fun run_workers :: "nat \<Rightarrow> 'w env \<Rightarrow> s3_object list \<Rightarrow> 'w pipeline \<Rightarrow> 'w pipeline" where
  "run_workers 0 env xs pl = pl"
| "run_workers (Suc n) env xs pl = run_workers n env [] (run_worker env xs pl)"

definition pipeline_delete_objects ::
  "'w env \<Rightarrow> s3_object list \<Rightarrow> 'w pipeline \<Rightarrow> 'w pipeline" where
  "pipeline_delete_objects env xs pl =
     run_workers (unat (worker_size (pl_config pl))) env xs
       (pl\<lparr> pl_sys := (pl_sys pl)\<lparr> sent := [], delete_counter := 0 \<rparr> \<rparr>)"

definition warnings_promoted :: string where
  "warnings_promoted = ''warnings promoted to errors (--warn-as-error)''"

text \<open>The terminator drains the output of the workers; then warnings may become an error.\<close>

definition terminate :: "'w pipeline \<Rightarrow> 'w pipeline" where
  "terminate pl = pl\<lparr> pl_sys := (pl_sys pl)\<lparr> sent := [] \<rparr> \<rparr>"

definition execute_pipeline :: "nat \<Rightarrow> 'w env \<Rightarrow> 'w pipeline \<Rightarrow> 'w pipeline option" where
  "execute_pipeline n env pl =
     (case list_target n env pl of
        None \<Rightarrow> None
      | Some (listed_objects, pl1) \<Rightarrow>
          (let (filtered_objects, pl2) = filter_objects env listed_objects pl1;
               pl3 = terminate (pipeline_delete_objects env filtered_objects pl2)
           in Some (if warn_as_error (pl_config pl3) \<and> has_warning (pl_sys pl3)
                    then record_error (Message warnings_promoted) pl3 else pl3)))"


section \<open>A run\<close>

definition fire_completion_events :: "'w env \<Rightarrow> 'w pipeline \<Rightarrow> 'w pipeline" where
  "fire_completion_events env pl =
     (let pl1 = (if pl_has_error pl
            then pl_trigger env ((event_data_new PIPELINE_ERROR)
                   \<lparr> ed_message := Some (case unwrap_or (get_error_messages pl) [] of
                        m # _ \<Rightarrow> m | [] \<Rightarrow> ''Unknown error'') \<rparr>) pl
            else pl);
          (c, s) = is_cancelled env (pl_sys pl1);
          pl2 = pl1\<lparr> pl_sys := s \<rparr>;
          pl3 = (if c = Ok True
            then pl_trigger env ((event_data_new DELETE_CANCEL)
                   \<lparr> ed_message := Some ''Pipeline was cancelled'' \<rparr>) pl2
            else pl2)
      in pl_trigger env (event_data_new PIPELINE_END) pl3)"

definition run_finish :: "'w env \<Rightarrow> 'w pipeline \<Rightarrow> 'w pipeline" where
  "run_finish env pl = fire_completion_events env (close_stats_sender pl)"

text \<open>
  \<open>run\<close>: \<open>None\<close> when the fuel of the listing runs out; a second call panics.
\<close>

definition run :: "nat \<Rightarrow> 'w env \<Rightarrow> 'w pipeline \<Rightarrow> (unit result \<times> 'w pipeline) option" where
  "run n env pl =
     (if \<not> pl_ready pl
      then Some (Panic ''DeletionPipeline::run() called more than once'', pl)
      else
        let pl1 = pl_trigger env (event_data_new PIPELINE_START) (pl\<lparr> pl_ready := False \<rparr>) in
        case (if pl_prerequisites_checked pl1 then (Ok (), pl1) else check_prerequisites env pl1) of
          (Ok _, pl2) \<Rightarrow> (case execute_pipeline n env pl2 of
              None \<Rightarrow> None
            | Some pl3 \<Rightarrow> Some (Ok (), run_finish env pl3))
        | (Err e, pl2) \<Rightarrow> Some (Ok (), run_finish env (record_error e pl2))
        | (Panic m, pl2) \<Rightarrow> Some (Panic m, pl2))"


section \<open>Prerequisites\<close>

lemma on_sys_Ok: "on_sys m p = (Ok a, q) \<Longrightarrow> \<exists>s. m (pl_sys p) = (Ok a, s) \<and> q = p\<lparr> pl_sys := s \<rparr>"
  by (auto simp: on_sys_def split: prod.splits)

lemma check_versioning_Ok:
  assumes "check_versioning env cfg st p = (Ok u, q)"
  obtains s b where "is_versioning_enabled st env (pl_sys p) = (Ok b, s)"
    and "q = (if b then p\<lparr> pl_sys := s \<rparr>
       else p\<lparr> pl_sys := s, pl_config := cfg\<lparr> delete_all_versions := False \<rparr> \<rparr>)"
    and "b \<or> (\<not> keep_latest_only (filter_config cfg) \<and> \<not> delete_marker_only (filter_config cfg))"
proof -
  from assms obtain b p1 where 1: "on_sys (is_versioning_enabled st env) p = (Ok b, p1)"
    and 2: "(if b then ret ()
       else if keep_latest_only (filter_config cfg) then throw (Message keep_latest_unversioned)
       else if delete_marker_only (filter_config cfg) then throw (Message marker_only_unversioned)
       else update (\<lambda>pl. pl\<lparr> pl_config := cfg\<lparr> delete_all_versions := False \<rparr> \<rparr>)) p1 = (Ok u, q)"
    by (auto simp: check_versioning_def bind_eq_Ok)
  from on_sys_Ok [OF 1] 2 that show ?thesis by (auto split: if_splits)
qed

definition consistent_config :: "config \<Rightarrow> bool" where
  "consistent_config cfg \<longleftrightarrow>
     (keep_latest_only (filter_config cfg) \<longrightarrow> delete_all_versions cfg)
   \<and> (delete_marker_only (filter_config cfg) \<longrightarrow> delete_all_versions cfg)
   \<and> (if_match cfg \<longrightarrow> \<not> delete_all_versions cfg)"

lemma consistent_clear:
  "\<not> keep_latest_only (filter_config cfg) \<Longrightarrow> \<not> delete_marker_only (filter_config cfg) \<Longrightarrow>
     consistent_config (cfg\<lparr> delete_all_versions := False \<rparr>)"
  by (simp add: consistent_config_def)

lemma check_prerequisites_Ok:
  assumes "check_prerequisites env pl = (Ok (), pl')"
  shows "consistent_config (pl_config pl') \<and> pl_prerequisites_checked pl'
    \<and> (pl_config pl' = pl_config pl
       \<or> pl_config pl' = (pl_config pl)\<lparr> delete_all_versions := False \<rparr>)
    \<and> fst (check_before_deletion (safety_checker_new env (pl_config pl)) (pl_sys pl)) = Ok ()"
proof -
  let ?cfg = "pl_config pl" and ?st = "pl_target pl"
  from assms obtain p1 u where
    safe: "on_sys (check_before_deletion (safety_checker_new env ?cfg)) pl = (Ok u, p1)" and
    rest: "(if keep_latest_only (filter_config ?cfg) \<and> \<not> delete_all_versions ?cfg then
          throw (Message keep_latest_requires)
        else if delete_marker_only (filter_config ?cfg) \<and> \<not> delete_all_versions ?cfg then
          throw (Message marker_only_requires)
        else if if_match ?cfg \<and> delete_all_versions ?cfg then
          throw (Message if_match_conflicts)
        else seq (if delete_all_versions ?cfg then check_versioning env ?cfg ?st else ret ())
            (update (\<lambda>pl. pl\<lparr> pl_prerequisites_checked := True \<rparr>))) p1 = (Ok (), pl')"
    by (auto simp: check_prerequisites_def seq_eq_Ok)
  from on_sys_Ok [OF safe] obtain s where
    s: "check_before_deletion (safety_checker_new env ?cfg) (pl_sys pl) = (Ok u, s)"
    "p1 = pl\<lparr> pl_sys := s \<rparr>" by blast
  have ok: "consistent_config ?cfg" using rest by (auto simp: consistent_config_def split: if_splits)
  show ?thesis
  proof (cases "delete_all_versions ?cfg")
    case True
    with rest obtain q v where q: "check_versioning env ?cfg ?st p1 = (Ok v, q)"
      "pl' = q\<lparr> pl_prerequisites_checked := True \<rparr>"
      by (auto simp: seq_eq_Ok split: if_splits)
    from check_versioning_Ok [OF q(1)] obtain s2 b where
      "q = (if b then p1\<lparr> pl_sys := s2 \<rparr>
         else p1\<lparr> pl_sys := s2, pl_config := ?cfg\<lparr> delete_all_versions := False \<rparr> \<rparr>)"
      "b \<or> (\<not> keep_latest_only (filter_config ?cfg) \<and> \<not> delete_marker_only (filter_config ?cfg))"
      by blast
    note q2 = this
    from s(1) have first: "fst (check_before_deletion (safety_checker_new env ?cfg) (pl_sys pl)) = Ok ()"
      by simp
    show ?thesis
    proof (cases b)
      case True
      then have "pl_config pl' = ?cfg" "pl_prerequisites_checked pl'" using q2(1) q(2) s(2) by simp_all
      with ok first show ?thesis by simp
    next
      case False
      then have c: "pl_config pl' = ?cfg\<lparr> delete_all_versions := False \<rparr>" "pl_prerequisites_checked pl'"
        using q2(1) q(2) by simp_all
      have "consistent_config (?cfg\<lparr> delete_all_versions := False \<rparr>)"
        using q2(2) False consistent_clear by blast
      with c first show ?thesis by simp
    qed
  next
    case False
    then have "pl' = p1\<lparr> pl_prerequisites_checked := True \<rparr>"
      using rest by (auto split: if_splits)
    then have "pl_config pl' = ?cfg" "pl_prerequisites_checked pl'" using s(2) by simp_all
    with ok s(1) show ?thesis by simp
  qed
qed

text \<open>
  C28: a run that passes its prerequisites has a consistent configuration. The checks change
  nothing of the configuration but may clear \<open>delete_all_versions\<close>, when the bucket turns out
  not to be versioned. Afterwards \<open>--keep-latest-only\<close> and \<open>--filter-delete-marker-only\<close> only
  ever apply to a listing of all versions, and \<open>--if-match\<close> never does; the safety check has
  answered, and \<open>run\<close> will not repeat the check.
\<close>

theorem prerequisites_make_consistent:
  assumes "check_prerequisites env pl = (Ok (), pl')"
  shows "consistent_config (pl_config pl') \<and> pl_prerequisites_checked pl'
    \<and> (pl_config pl' = pl_config pl
       \<or> pl_config pl' = (pl_config pl)\<lparr> delete_all_versions := False \<rparr>)
    \<and> fst (check_before_deletion (safety_checker_new env (pl_config pl)) (pl_sys pl)) = Ok ()"
  using check_prerequisites_Ok [OF assms] .

theorem prerequisites_make_consistent_witness:
  "\<exists>pl'. check_prerequisites demo_env (pipeline_new demo_config [''a'']) = (Ok (), pl')
    \<and> consistent_config (pl_config pl') \<and> pl_prerequisites_checked pl'"
proof -
  have "\<exists>pl'. check_prerequisites demo_env (pipeline_new demo_config [''a'']) = (Ok (), pl')"
    by (simp add: check_prerequisites_def pipeline_new_def on_sys_def check_before_deletion_def
        safety_checker_new_def demo_config_def filter_config_default_def seq_def split_beta
        bind_Ok)
  with prerequisites_make_consistent show ?thesis by blast
qed


section \<open>Runs that are refused, and runs that are repeated\<close>

lemma pl_trigger_simps [simp]:
  "pl_config (pl_trigger env ed pl) = pl_config pl"
  "pl_errors (pl_trigger env ed pl) = pl_errors pl"
  "pl_has_error (pl_trigger env ed pl) = pl_has_error pl"
  "pl_has_panic (pl_trigger env ed pl) = pl_has_panic pl"
  "pl_ready (pl_trigger env ed pl) = pl_ready pl"
  "pl_target (pl_trigger env ed pl) = pl_target pl"
  "pl_prerequisites_checked (pl_trigger env ed pl) = pl_prerequisites_checked pl"
  "report (pl_sys (pl_trigger env ed pl)) = report (pl_sys pl)"
  "sent (pl_sys (pl_trigger env ed pl)) = sent (pl_sys pl)"
  by (simp_all add: pl_trigger_def)

lemma run_finish_simps [simp]:
  "pl_config (run_finish env pl) = pl_config pl"
  "pl_errors (run_finish env pl) = pl_errors pl"
  "pl_has_error (run_finish env pl) = pl_has_error pl"
  "pl_has_panic (run_finish env pl) = pl_has_panic pl"
  "pl_ready (run_finish env pl) = pl_ready pl"
  "report (pl_sys (run_finish env pl)) = report (pl_sys pl)"
  "sent (pl_sys (run_finish env pl)) = sent (pl_sys pl)"
  by (simp_all add: run_finish_def fire_completion_events_def close_stats_sender_def Let_def
      is_cancelled_def split_beta)

lemma record_error_simps [simp]:
  "pl_config (record_error e pl) = pl_config pl" "pl_errors (record_error e pl) = pl_errors pl @ [e]"
  "pl_has_error (record_error e pl)" "pl_sys (record_error e pl) = pl_sys pl"
  "pl_has_panic (record_error e pl) = pl_has_panic pl" "pl_ready (record_error e pl) = pl_ready pl"
  "pl_target (record_error e pl) = pl_target pl"
  by (simp_all add: record_error_def)

lemma safety_keeps_report:
  "check_before_deletion (safety_checker_new env cfg) s = (r, s') \<Longrightarrow>
     report s' = report s \<and> sent s' = sent s"
  using stdio.check_changes_only_the_world [of "safety_checker_new env cfg" env s] by auto

text \<open>
  C7: nothing runs without the safety check. When \<open>run\<close> finds the safety check failing (and
  the prerequisites were not checked before), it deletes nothing: the report and the
  configuration are as before, no object was sent to any stage, and the failure is the only new
  error.
\<close>

theorem refused_run_does_nothing:
  assumes "pl_ready pl" and "\<not> pl_prerequisites_checked pl"
    and "check_before_deletion (safety_checker_new env (pl_config pl))
           (pl_sys (pl_trigger env (event_data_new PIPELINE_START) (pl\<lparr> pl_ready := False \<rparr>)))
         = (Err e, s)"
  shows "\<exists>pl'. run n env pl = Some (Ok (), pl') \<and> report (pl_sys pl') = report (pl_sys pl)
    \<and> sent (pl_sys pl') = sent (pl_sys pl) \<and> pl_config pl' = pl_config pl
    \<and> pl_errors pl' = pl_errors pl @ [e] \<and> pl_has_error pl'"
proof -
  let ?pl1 = "pl_trigger env (event_data_new PIPELINE_START) (pl\<lparr> pl_ready := False \<rparr>)"
  have "check_prerequisites env ?pl1 = (Err e, ?pl1\<lparr> pl_sys := s \<rparr>)"
    using assms(3) by (simp add: check_prerequisites_def on_sys_def seq_Err bind_def seq_def gets_def)
  moreover have "report s = report (pl_sys pl) \<and> sent s = sent (pl_sys pl)"
    using safety_keeps_report [OF assms(3)] by simp
  ultimately show ?thesis using assms(1,2) by (simp add: run_def Let_def)
qed

theorem refused_run_does_nothing_witness:
  "let pl = pipeline_new (demo_config\<lparr> force := False \<rparr>) [''a''];
       env = demo_env\<lparr> env_is_terminal := False \<rparr> in
   \<exists>pl'. run 5 env pl = Some (Ok (), pl') \<and> report (pl_sys pl') = report (pl_sys pl)
    \<and> sent (pl_sys pl') = sent (pl_sys pl) \<and> pl_config pl' = pl_config pl
    \<and> pl_errors pl' = pl_errors pl @ [App (InvalidConfig non_interactive_message)]
    \<and> pl_has_error pl'"
  unfolding Let_def
  by (rule refused_run_does_nothing)
    (simp_all add: pipeline_new_def check_before_deletion_def safety_checker_new_def
      demo_config_def is_non_interactive_def)


section \<open>The error flags\<close>

definition errors_consistent :: "'w pipeline \<Rightarrow> bool" where
  "errors_consistent pl \<longleftrightarrow>
     (pl_has_error pl \<longleftrightarrow> pl_errors pl \<noteq> []) \<and> (pl_has_panic pl \<longrightarrow> pl_has_error pl)"

lemma errors_record [simp]: "errors_consistent (record_error e pl)"
  by (simp add: errors_consistent_def)

lemma errors_update [simp]:
  "errors_consistent (pl\<lparr> pl_sys := s \<rparr>) = errors_consistent pl"
  "errors_consistent (pl_trigger env ed pl) = errors_consistent pl"
  "errors_consistent (run_finish env pl) = errors_consistent pl"
  "errors_consistent (pl\<lparr> pl_ready := b \<rparr>) = errors_consistent pl"
  "errors_consistent (terminate pl) = errors_consistent pl"
  by (simp_all add: errors_consistent_def terminate_def)

lemma errors_join [simp]:
  "errors_consistent pl \<Longrightarrow> errors_consistent (join_stage env label r pl)"
  "errors_consistent pl \<Longrightarrow> errors_consistent (join_worker env r pl)"
  by (cases r; simp add: join_stage_def join_worker_def)+

lemma errors_filters: "errors_consistent pl \<Longrightarrow> errors_consistent (snd (run_filters env cfg fs xs pl))"
proof (induction env cfg fs xs pl rule: run_filters.induct)
  case (2 env cfg name f fs xs pl)
  then show ?case by (simp add: run_stage_def split: prod.splits)
qed simp

lemma errors_workers: "errors_consistent pl \<Longrightarrow> errors_consistent (run_workers n env xs pl)"
proof (induction n arbitrary: xs pl)
  case (Suc n)
  then show ?case by (simp add: run_worker_def split: prod.splits)
qed simp

lemma errors_filter_objects:
  assumes "errors_consistent pl"
  shows "errors_consistent (snd (filter_objects env xs pl))"
proof -
  obtain ys pl1 where f: "run_filters env (pl_config pl) (filter_stages (pl_config pl)) xs pl = (ys, pl1)"
    by fastforce
  with errors_filters [OF assms, of env "pl_config pl" "filter_stages (pl_config pl)" xs]
  have "errors_consistent pl1" by simp
  with f show ?thesis by (simp add: filter_objects_def Let_def run_stage_def split: prod.splits)
qed

lemma errors_execute:
  assumes "errors_consistent pl" and "execute_pipeline n env pl = Some pl'"
  shows "errors_consistent pl'"
proof -
  from assms(2) obtain xs pl1 where l: "list_target n env pl = Some (xs, pl1)"
    by (auto simp: execute_pipeline_def split: option.splits)
  have 1: "errors_consistent pl1"
    using l assms(1) by (auto simp: list_target_def Let_def split: option.splits)
  obtain ys pl2 where f: "filter_objects env xs pl1 = (ys, pl2)" by fastforce
  with errors_filter_objects [OF 1, of env xs] have "errors_consistent pl2" by simp
  then have "errors_consistent (terminate (pipeline_delete_objects env ys pl2))"
    by (simp add: pipeline_delete_objects_def errors_workers)
  with l f assms(2) show ?thesis
    by (auto simp: execute_pipeline_def Let_def split: if_splits)
qed

lemma errors_on_sys: "keeps errors_consistent (on_sys m)"
  by (auto simp: keeps_def on_sys_def split: prod.splits)

definition not_ready :: "'w pipeline \<Rightarrow> bool" where
  "not_ready pl \<longleftrightarrow> \<not> pl_ready pl"

lemma ready_join [simp]:
  "pl_ready (join_stage env label r pl) = pl_ready pl"
  "pl_ready (join_worker env r pl) = pl_ready pl"
  "pl_ready (terminate pl) = pl_ready pl"
  by (cases r; simp add: join_stage_def join_worker_def terminate_def)+

lemma ready_filters: "pl_ready (snd (run_filters env cfg fs xs pl)) = pl_ready pl"
  by (induction env cfg fs xs pl rule: run_filters.induct) (simp_all add: run_stage_def split_beta)

lemma ready_workers: "pl_ready (run_workers n env xs pl) = pl_ready pl"
  by (induction n arbitrary: xs pl) (simp_all add: run_worker_def split_beta)

lemma execute_ready:
  assumes "execute_pipeline n env pl = Some pl'"
  shows "pl_ready pl' = pl_ready pl"
proof -
  from assms obtain xs pl1 where l: "list_target n env pl = Some (xs, pl1)"
    by (auto simp: execute_pipeline_def split: option.splits)
  have 1: "pl_ready pl1 = pl_ready pl"
    using l by (auto simp: list_target_def Let_def split: option.splits)
  obtain ys pl2 where f: "filter_objects env xs pl1 = (ys, pl2)" by fastforce
  obtain zs pl3 where r: "run_filters env (pl_config pl1) (filter_stages (pl_config pl1)) xs pl1
      = (zs, pl3)" by fastforce
  with ready_filters [of env "pl_config pl1" "filter_stages (pl_config pl1)" xs pl1]
  have "pl_ready pl3 = pl_ready pl1" by simp
  with f r have "pl_ready pl2 = pl_ready pl1"
    by (auto simp: filter_objects_def Let_def run_stage_def split: prod.splits if_splits)
  with l f assms 1 show ?thesis
    by (auto simp: execute_pipeline_def Let_def pipeline_delete_objects_def ready_workers
        split: if_splits)
qed

lemma prerequisites_ready: "keeps not_ready (check_prerequisites env)"
proof -
  have u: "keeps not_ready (update (\<lambda>pl. pl\<lparr> pl_config := c \<rparr>))"
    "keeps not_ready (update (\<lambda>pl. pl\<lparr> pl_prerequisites_checked := True \<rparr>))" for c
    by (auto intro!: keeps_update simp: not_ready_def)
  have o: "keeps not_ready (on_sys (m :: ('a sys, unit) prog))"
    "keeps not_ready (on_sys (n :: ('a sys, bool) prog))" for m n
    by (auto simp: keeps_def on_sys_def not_ready_def split: prod.splits)
  show ?thesis
    unfolding check_prerequisites_def check_versioning_def by (intro keeps_intros u o)
qed

lemma errors_prerequisites:
  assumes "errors_consistent pl"
  shows "errors_consistent (snd (check_prerequisites env pl))"
proof -
  have u: "keeps errors_consistent (update (\<lambda>pl. pl\<lparr> pl_config := c \<rparr>))"
    "keeps errors_consistent (update (\<lambda>pl. pl\<lparr> pl_prerequisites_checked := True \<rparr>))"
    for c
    by (auto intro!: keeps_update simp: errors_consistent_def)
  have "keeps errors_consistent (check_prerequisites env)"
    unfolding check_prerequisites_def check_versioning_def by (intro keeps_intros u errors_on_sys)
  with assms show ?thesis by (simp add: keeps_def)
qed

text \<open>
  The error flags of a finished run tell the truth: \<open>has_error\<close> is set exactly when an
  error was recorded, so \<open>get_errors_and_consume\<close> returns a list exactly then and the list is
  never empty, and a panic of any task also sets \<open>has_error\<close>. \<open>run\<close> itself can be called only
  once: a second call panics.
\<close>

theorem run_error_flags:
  assumes "run n env (pipeline_new cfg w) = Some (r, pl)"
  shows "(pl_has_error pl \<longleftrightarrow> pl_errors pl \<noteq> []) \<and> (pl_has_panic pl \<longrightarrow> pl_has_error pl)
    \<and> (case fst (get_errors_and_consume pl) of
         None \<Rightarrow> \<not> pl_has_error pl | Some es \<Rightarrow> pl_has_error pl \<and> es \<noteq> [])
    \<and> run m env pl = Some (Panic ''DeletionPipeline::run() called more than once'', pl)"
proof -
  let ?pl0 = "pipeline_new cfg w"
  let ?pl1 = "pl_trigger env (event_data_new PIPELINE_START) (?pl0\<lparr> pl_ready := False \<rparr>)"
  have 0: "errors_consistent ?pl0" by (simp add: errors_consistent_def pipeline_new_def)
  obtain q pl2 where p: "check_prerequisites env ?pl1 = (q, pl2)" by fastforce
  with errors_prerequisites [of ?pl1 env] 0 have 2: "errors_consistent pl2" by simp
  have ready2: "\<not> pl_ready pl2"
    using keepsD [OF prerequisites_ready _ p] by (simp add: not_ready_def)
  have run: "run n env ?pl0 = (case q of
      Ok _ \<Rightarrow> (case execute_pipeline n env pl2 of None \<Rightarrow> None | Some pl3 \<Rightarrow> Some (Ok (), run_finish env pl3))
    | Err e \<Rightarrow> Some (Ok (), run_finish env (record_error e pl2))
    | Panic m \<Rightarrow> Some (Panic m, pl2))"
    using p by (simp add: run_def Let_def pipeline_new_def split: outcome.splits)
  have "errors_consistent pl \<and> \<not> pl_ready pl"
    using assms run 2 ready2 errors_execute execute_ready
    by (cases q) (fastforce split: option.splits)+
  then show ?thesis
    by (auto simp: errors_consistent_def get_errors_and_consume_def run_def)
qed


section \<open>The filter chain\<close>

text \<open>What a configuration selects, condition by condition.\<close>

definition selects :: "libs \<Rightarrow> config \<Rightarrow> s3_object \<Rightarrow> bool" where
  "selects lib cfg x \<longleftrightarrow> (let fc = filter_config cfg in
     (delete_marker_only fc \<longrightarrow> s3_is_delete_marker x)
   \<and> (before_time fc \<noteq> None \<longrightarrow> passes_before lib fc x)
   \<and> (after_time fc \<noteq> None \<longrightarrow> passes_after lib fc x)
   \<and> (smaller_size fc \<noteq> None \<longrightarrow> passes_smaller lib fc x)
   \<and> (larger_size fc \<noteq> None \<longrightarrow> passes_larger lib fc x)
   \<and> (include_regex fc \<noteq> None \<longrightarrow> passes_include lib fc x)
   \<and> (exclude_regex fc \<noteq> None \<longrightarrow> passes_exclude lib fc x)
   \<and> (keep_latest_only fc \<longrightarrow> \<not> s3_is_latest x))"

text \<open>A pipeline changed by well-behaved stages only: nothing recorded, nothing cancelled.\<close>

definition undisturbed :: "'w pipeline \<Rightarrow> 'w pipeline \<Rightarrow> bool" where
  "undisturbed pl pl' \<longleftrightarrow> pl' = pl\<lparr> pl_sys := pl_sys pl' \<rparr> \<and> same_flags (pl_sys pl) (pl_sys pl')"

lemma undisturbed_refl [simp]: "undisturbed pl pl"
  by (simp add: undisturbed_def)

lemma undisturbed_trans:
  assumes "undisturbed a b" and "undisturbed b c"
  shows "undisturbed a c"
proof -
  have "c = a\<lparr> pl_sys := pl_sys c \<rparr>"
    using assms unfolding undisturbed_def by (metis pipeline.surjective pipeline.update_convs(8))
  with assms show ?thesis by (auto simp: undisturbed_def intro: same_flags_trans)
qed

context object_filter begin

lemma run_stage_wf:
  assumes "quiet env" and "\<not> cancelled (pl_sys pl)" and "list_all wf_object xs"
  shows "\<exists>pl'. run_stage env label (receive_and_filter env cfg name pred xs) pl
      = (filter (passes (env_libs env) (filter_config cfg)) xs, pl') \<and> undisturbed pl pl'"
proof -
  let ?s = "(pl_sys pl)\<lparr> sent := [] \<rparr>"
  obtain s' where "receive_and_filter env cfg name pred xs ?s = (Ok (), s')" "same_flags ?s s'"
    "sent s' = filter (passes (env_libs env) (filter_config cfg)) xs"
    using receive_and_filter_wf [of env ?s xs cfg name] assms by auto
  then show ?thesis
    by (auto simp: run_stage_def join_stage_def undisturbed_def same_flags_def)
qed

end

definition passes_stage :: "string \<times> filter_fn \<Rightarrow> libs \<Rightarrow> filter_config \<Rightarrow> s3_object \<Rightarrow> bool" where
  "passes_stage nf lib fc x \<longleftrightarrow> snd nf lib x fc = Ok True"

lemma passes_stage_simps:
  assumes "wf_object x"
  shows "passes_stage (n, is_delete_marker) lib fc x = s3_is_delete_marker x"
    "passes_stage (n, is_before) lib fc x = passes_before lib fc x"
    "passes_stage (n, is_after_or_equal) lib fc x = passes_after lib fc x"
    "passes_stage (n, is_smaller) lib fc x = passes_smaller lib fc x"
    "passes_stage (n, is_larger_or_equal) lib fc x = passes_larger lib fc x"
    "passes_stage (n, is_match) lib fc x = passes_include lib fc x"
    "passes_stage (n, is_not_match) lib fc x = passes_exclude lib fc x"
    "passes_stage (n, is_not_latest) lib fc x = (\<not> s3_is_latest x)"
  by (simp_all add: passes_stage_def mtime_before.pred_wf mtime_after.pred_wf smaller.pred_wf
      larger.pred_wf include_re.pred_wf exclude_re.pred_wf assms
      is_delete_marker_def is_not_latest_def)

text \<open>A chain whose filters all satisfy the contract filters by all of them.\<close>

definition contracted :: "(string \<times> filter_fn) list \<Rightarrow> bool" where
  "contracted fs \<longleftrightarrow> (\<forall>nf \<in> set fs. \<exists>passes. object_filter (snd nf) passes)"

lemma run_filters_wf:
  assumes "quiet env"
  shows "contracted fs \<Longrightarrow> \<not> cancelled (pl_sys pl) \<Longrightarrow> list_all wf_object xs \<Longrightarrow>
    \<exists>pl'. run_filters env cfg fs xs pl
      = (filter (\<lambda>x. \<forall>nf \<in> set fs. passes_stage nf (env_libs env) (filter_config cfg) x) xs, pl')
    \<and> undisturbed pl pl'"
proof (induction fs arbitrary: xs pl)
  case (Cons nf fs)
  obtain name f where nf: "nf = (name, f)" by (cases nf)
  then obtain passes where "object_filter f passes" using Cons.prems(1) by (auto simp: contracted_def)
  then have pred_ok: "\<And>x. wf_object x \<Longrightarrow> f (env_libs env) x (filter_config cfg)
      = Ok (passes (env_libs env) (filter_config cfg) x)"
    by (simp add: object_filter_def)
  let ?p = "passes (env_libs env) (filter_config cfg)"
  from object_filter.run_stage_wf [OF \<open>object_filter f passes\<close> assms Cons.prems(2,3)]
  obtain pl1 where 1: "run_stage env ''filter task panicked: '' (receive_and_filter env cfg name f xs) pl
      = (filter ?p xs, pl1)" "undisturbed pl pl1" by blast
  have same: "filter ?p xs = filter (passes_stage nf (env_libs env) (filter_config cfg)) xs"
    using Cons.prems(3) pred_ok nf
    by (intro filter_cong) (auto simp: passes_stage_def list_all_iff)
  have wf: "list_all wf_object (filter ?p xs)" using Cons.prems(3) by (auto simp: list_all_iff)
  have "\<not> cancelled (pl_sys pl1)" using 1(2) Cons.prems(2) by (simp add: undisturbed_def same_flags_def)
  from Cons.IH [OF _ this wf] Cons.prems(1) obtain pl2 where
    2: "run_filters env cfg fs (filter ?p xs) pl1 = (filter (\<lambda>x. \<forall>nf \<in> set fs.
        passes_stage nf (env_libs env) (filter_config cfg) x) (filter ?p xs), pl2)"
      "undisturbed pl1 pl2"
    by (auto simp: contracted_def)
  show ?case
    using 1 2 nf undisturbed_trans by (auto simp: same filter_filter conj_commute)
qed (simp add: undisturbed_def)

lemma filter_stages_contracted: "contracted (filter_stages cfg)"
  using mtime_before.object_filter_axioms mtime_after.object_filter_axioms
    smaller.object_filter_axioms larger.object_filter_axioms include_re.object_filter_axioms
    exclude_re.object_filter_axioms keep_latest.object_filter_axioms marker_only.object_filter_axioms
  by (auto simp: contracted_def filter_stages_def Let_def)

lemma filter_stages_select:
  assumes "wf_object x"
  shows "(\<forall>nf \<in> set (filter_stages cfg). passes_stage nf lib (filter_config cfg) x) \<longleftrightarrow> selects lib cfg x"
  by (simp add: filter_stages_def selects_def Let_def passes_stage_simps [OF assms] ball_Un)

lemma filter_objects_selects:
  assumes "quiet env" and "\<not> cancelled (pl_sys pl)" and "list_all wf_object xs"
    and "\<not> fm_callback_registered (filter_manager (pl_config pl))"
  shows "\<exists>pl'. filter_objects env xs pl = (filter (selects (env_libs env) (pl_config pl)) xs, pl')
    \<and> undisturbed pl pl'"
proof -
  let ?cfg = "pl_config pl"
  from run_filters_wf [OF assms(1) filter_stages_contracted assms(2,3)] obtain pl' where
    "run_filters env ?cfg (filter_stages ?cfg) xs pl = (filter (\<lambda>x. \<forall>nf \<in> set (filter_stages ?cfg).
       passes_stage nf (env_libs env) (filter_config ?cfg) x) xs, pl')" "undisturbed pl pl'"
    by blast
  moreover have "filter (\<lambda>x. \<forall>nf \<in> set (filter_stages ?cfg).
       passes_stage nf (env_libs env) (filter_config ?cfg) x) xs
     = filter (selects (env_libs env) ?cfg) xs"
    using assms(3) by (intro filter_cong) (auto simp: filter_stages_select list_all_iff)
  ultimately show ?thesis using assms(4) by (simp add: filter_objects_def Let_def)
qed

text \<open>
  C14: the filter stages of a run select the objects that satisfy every configured condition,
  and no others, in the order of the listing, whatever their number and order: each configured
  option contributes its own condition, an option that is not set contributes none. They
  record no error and cancel nothing.
\<close>

theorem filter_chain_is_conjunction:
  assumes "quiet env" and "\<not> cancelled (pl_sys pl)" and "list_all wf_object xs"
    and "\<not> fm_callback_registered (filter_manager (pl_config pl))"
  shows "\<exists>pl'. filter_objects env xs pl = (filter (selects (env_libs env) (pl_config pl)) xs, pl')
    \<and> undisturbed pl pl'"
  by (rule filter_objects_selects [OF assms])

definition demo_filters :: config where
  "demo_filters = demo_config\<lparr> filter_config := filter_config_default
     \<lparr> larger_size := Some 1, include_regex := Some ''a'' \<rparr> \<rparr>"

theorem filter_chain_is_conjunction_witness:
  "\<exists>pl'. filter_objects demo_env [demo_object ''a'', demo_object ''b''] (pipeline_new demo_filters [''a''])
     = (filter (selects (env_libs demo_env) (pl_config (pipeline_new demo_filters [''a''])))
          [demo_object ''a'', demo_object ''b''], pl')
    \<and> undisturbed (pipeline_new demo_filters [''a'']) pl'"
  by (rule filter_chain_is_conjunction)
    (simp_all add: pipeline_new_def demo_filters_def demo_config_def filter_manager_new_def)

lemma run_stage_forwards:
  "set (fst (run_stage env label (receive_and_filter env cfg name f xs) pl))
     \<subseteq> {x \<in> set xs. f (env_libs env) x (filter_config cfg) = Ok True}"
proof -
  let ?s = "(pl_sys pl)\<lparr> sent := [] \<rparr>"
  obtain ys where "sent (snd (receive_and_filter env cfg name f xs ?s)) = sent ?s @ ys" "subseq ys xs"
    "\<forall>y \<in> set ys. f (env_libs env) y (filter_config cfg) = Ok True"
    using receive_and_filter_forwards [of env cfg name f xs ?s] by blast
  moreover from this(2) have "set ys \<subseteq> set xs" by (metis notin_set_nthsI subseq_conv_nths subsetI)
  ultimately show ?thesis by (auto simp: run_stage_def split_beta)
qed

lemma run_filters_forwards:
  "set (fst (run_filters env cfg fs xs pl))
     \<subseteq> {x \<in> set xs. \<forall>nf \<in> set fs. snd nf (env_libs env) x (filter_config cfg) = Ok True}"
proof (induction env cfg fs xs pl rule: run_filters.induct)
  case (2 env cfg name f fs xs pl)
  obtain ys pl1 where 1: "run_stage env ''filter task panicked: ''
      (receive_and_filter env cfg name f xs) pl = (ys, pl1)" by fastforce
  with run_stage_forwards [of env "''filter task panicked: ''" cfg name f xs pl]
  have "set ys \<subseteq> {x \<in> set xs. f (env_libs env) x (filter_config cfg) = Ok True}" by simp
  with "2.IH" [OF 1 [symmetric]] 1 show ?case by (auto simp: split_beta)
qed simp



lemma keeps_decision_sent: "keeps (same_sent s0) (user_defined_decision env cfg x)"
  by (auto simp: user_defined_decision_def execute_filter_def user_defined_error_def
      intro!: keeps_intros) (auto simp: keeps_def same_sent_def split: prod.splits)

lemma keeps_user_skip_sent: "keeps (same_sent s0) (user_defined_skip env cfg x)"
  by (auto simp: user_defined_skip_def intro!: keeps_intros)

lemma sent_kept:
  assumes "keeps (same_sent s) m" and "m s = (r, s')"
  shows "sent s' = sent s"
  using keepsD [OF assms(1) _ assms(2)] by (simp add: same_sent_def)

lemma user_defined_loop_forwards:
  "\<exists>ys. sent (snd (user_defined_filter_loop env cfg xs s)) = sent s @ ys \<and> set ys \<subseteq> set xs"
proof (induction xs arbitrary: s)
  case Nil
  obtain r s1 where sel: "select_cancelled env s = (r, s1)" by fastforce
  with sent_kept [OF keeps_sent_basic(3) sel] show ?case
    by (cases r) (simp_all add: bind_def)
next
  case (Cons x xs)
  obtain r s1 where sel: "select_cancelled env s = (r, s1)" by fastforce
  note 1 = sent_kept [OF keeps_sent_basic(3) sel]
  obtain d s2 where dec: "user_defined_decision env cfg x s1 = (d, s2)" by fastforce
  note 2 = sent_kept [OF keeps_decision_sent dec]
  let ?run = "user_defined_filter_loop env cfg (x # xs) s"
  show ?case
  proof (cases "r = Ok False \<and> (d = Ok True \<or> d = Ok False)")
    case False
    with sel dec 1 2 have "sent (snd ?run) = sent s"
      by (cases r; cases d) (auto simp: bind_def)
    then show ?thesis by (intro exI [of _ "[]"]) simp
  next
    case True
    then have r: "r = Ok False" by simp
    show ?thesis
    proof (cases "d = Ok True")
      case False
      with True have d: "d = Ok False" by simp
      obtain q s3 where sk: "user_defined_skip env cfg x s2 = (q, s3)" by fastforce
      note 3 = sent_kept [OF keeps_user_skip_sent sk]
      from Cons.IH [of s3] sel r dec d sk 1 2 3 show ?thesis
        by (cases q) (auto simp: bind_def seq_def intro: exI [of _ "[]"])
    next
      case True
      show ?thesis
      proof (cases "env_send env (sent s2)")
        case Accepts
        from Cons.IH [of "s2\<lparr> sent := sent s2 @ [x] \<rparr>"] obtain ys where
          "sent (snd (user_defined_filter_loop env cfg xs (s2\<lparr> sent := sent s2 @ [x] \<rparr>)))
             = sent s2 @ x # ys" "set ys \<subseteq> set xs" by auto
        with Accepts True sel r dec 1 2 show ?thesis
          by (intro exI [of _ "x # ys"]) (auto simp: bind_def stage_send_def)
      qed (use True sel r dec 1 2 in \<open>auto simp: bind_def stage_send_def intro: exI [of _ "[]"]\<close>)
    qed
  qed
qed

lemma filter_objects_forwards:
  "set (fst (filter_objects env xs pl)) \<subseteq> {x \<in> set xs. \<forall>nf \<in> set (filter_stages (pl_config pl)).
     snd nf (env_libs env) x (filter_config (pl_config pl)) = Ok True}"
proof -
  let ?cfg = "pl_config pl"
  obtain ys pl1 where 1: "run_filters env ?cfg (filter_stages ?cfg) xs pl = (ys, pl1)" by fastforce
  have "set (fst (run_stage env l (user_defined_filter_loop env ?cfg ys) pl1)) \<subseteq> set ys" for l
    using user_defined_loop_forwards [of env ?cfg ys "(pl_sys pl1)\<lparr> sent := [] \<rparr>"]
    by (auto simp: run_stage_def split_beta)
  with 1 run_filters_forwards [of env ?cfg "filter_stages ?cfg" xs pl] show ?thesis
    by (auto simp: filter_objects_def Let_def)
qed

text \<open>
  C1: with \<open>--keep-latest-only\<close> the latest version of an object is never handed to the deletion
  workers, and with \<open>--filter-delete-marker-only\<close> nothing but delete markers is, whatever the
  world does, including a cancellation at any moment, objects with missing fields and failing
  library calls.
\<close>

theorem protected_objects_never_forwarded:
  assumes "x \<in> set (fst (filter_objects env xs pl))"
  shows "x \<in> set xs
    \<and> (keep_latest_only (filter_config (pl_config pl)) \<longrightarrow> \<not> s3_is_latest x)
    \<and> (delete_marker_only (filter_config (pl_config pl)) \<longrightarrow> s3_is_delete_marker x)"
  using assms filter_objects_forwards [of env xs pl]
  by (auto simp: filter_stages_def Let_def is_not_latest_def is_delete_marker_def)

definition demo_keep_latest :: config where
  "demo_keep_latest = demo_config\<lparr> filter_config := filter_config_default\<lparr> keep_latest_only := True \<rparr> \<rparr>"

definition demo_old_version :: s3_object where
  "demo_old_version = Versioning \<lparr> ov_key = Some ''a'', ov_version_id = Some ''v1'',
     ov_is_latest = Some False, ov_size = Some 1, ov_last_modified = Some (DateTime 0 0), ov_e_tag = None \<rparr>"

theorem protected_objects_never_forwarded_witness:
  "demo_old_version \<in> set (fst (filter_objects demo_env [s3_object_new ''a'' 1, demo_old_version]
      (pipeline_new demo_keep_latest [''a'']))) \<and> \<not> s3_is_latest demo_old_version"
proof
  let ?xs = "[s3_object_new ''a'' 1, demo_old_version]"
  let ?pl = "pipeline_new demo_keep_latest [''a'']"
  show f: "demo_old_version \<in> set (fst (filter_objects demo_env ?xs ?pl))"
    by (simp add: filter_objects_def Let_def pipeline_new_def filter_stages_def demo_config_def
        demo_keep_latest_def demo_old_version_def unwrap_or_def event_manager_new_def
        filter_config_default_def filter_manager_new_def run_stage_def is_not_latest_def s3_object_new_def
        filter_skip_def seq_def ret_def sys_new_def is_cancelled_def bind_def lift_def stage_send_def Let_def join_stage_def demo_env_def)
  show "\<not> s3_is_latest demo_old_version"
    using protected_objects_never_forwarded [OF f] by (simp add: pipeline_new_def demo_keep_latest_def)
qed


section \<open>Workers never end with the cancellation error\<close>

definition no_cancel :: "('s, 'a) prog \<Rightarrow> bool" where
  "no_cancel m \<longleftrightarrow> (\<forall>s e s'. m s = (Err e, s') \<longrightarrow> \<not> is_cancelled_error e)"

named_theorems no_cancel_intros \<open>introduction rules for computations without the cancellation error\<close>

lemma no_cancel_basic [no_cancel_intros]:
  "no_cancel (ret a)" "no_cancel (Pair (Ok a))" "no_cancel (panic p)" "no_cancel (update f)"
  "no_cancel (gets g)" "no_cancel (throw (Message t))"
  "(\<And>e. r \<noteq> Err e) \<Longrightarrow> no_cancel (lift r)"
  by (auto simp: no_cancel_def gets_def is_cancelled_error_def)

lemma no_cancel_throw: "\<not> is_cancelled_error e \<Longrightarrow> no_cancel (throw e)"
  by (simp add: no_cancel_def)

lemma no_cancel_bind [no_cancel_intros]:
  "no_cancel m \<Longrightarrow> (\<And>a. no_cancel (f a)) \<Longrightarrow> no_cancel (bind m f)"
  unfolding no_cancel_def by (auto simp: bind_def split: prod.splits outcome.splits)

lemma no_cancel_seq [no_cancel_intros]: "no_cancel m \<Longrightarrow> no_cancel n \<Longrightarrow> no_cancel (seq m n)"
  by (simp add: seq_def no_cancel_bind)

lemma no_cancel_catch [no_cancel_intros]:
  assumes "no_cancel m" and "\<And>a. no_cancel (f a)" and "\<And>e. \<not> is_cancelled_error e \<Longrightarrow> no_cancel (h e)"
  shows "no_cancel (catch m f h)"
  using assms unfolding no_cancel_def
  by (auto simp: catch_def split: prod.splits outcome.splits) blast+

lemma no_cancel_if [no_cancel_intros]: "no_cancel m \<Longrightarrow> no_cancel n \<Longrightarrow> no_cancel (if b then m else n)"
  by simp

lemma no_cancel_for_each [no_cancel_intros]: "(\<And>x. no_cancel (f x)) \<Longrightarrow> no_cancel (for_each f xs)"
  by (induction xs) (auto intro: no_cancel_intros)

lemma no_cancel_stage [no_cancel_intros]:
  "no_cancel cancel" "no_cancel (is_cancelled env)" "no_cancel (select_cancelled env)"
  "no_cancel (stage_send env obj)" "no_cancel (send_stats d)" "no_cancel set_warning"
  "no_cancel (trigger env cfg ed)" "no_cancel (exec_rate_limit st n)"
  "no_cancel (sdk_call st env ctx f)"
  by (auto simp: no_cancel_def is_cancelled_def select_cancelled_def bind_def panic_def
      stage_send_def Let_def exec_rate_limit_run sdk_call_def is_cancelled_error_def
      split: prod.splits send_env.splits sum.splits if_splits)

lemma no_cancel_requests [no_cancel_intros]:
  "no_cancel (head_object st env k v)" "no_cancel (get_object_tagging st env k v)"
  "no_cancel (delete_object st env k v e)" "no_cancel (delete_objects st env ids)"
  by (auto simp: head_object_def get_object_tagging_def delete_object_def delete_objects_def
      exec_rate_limit_one_def exec_rate_limit_n_def intro!: no_cancel_intros)

lemma no_cancel_filters [no_cancel_intros]:
  "no_cancel (emit_filter_skip env cfg x name)"
  "no_cancel (handle_api_error env e key operation)"
  by (auto simp: emit_filter_skip_def handle_api_error_def is_cancelled_error_def filtered_event_not_Err
      intro!: no_cancel_intros no_cancel_throw)

lemma decide_not_cancelled:
  "decide_delete_by_regex lib key re val name inc = Err e \<Longrightarrow> \<not> is_cancelled_error e"
  by (auto simp: decide_delete_by_regex_def is_cancelled_error_def split: option.splits sum.splits)

lemma no_cancel_regex [no_cancel_intros]: "no_cancel (regex_rejects env cfg x key re val name inc)"
proof -
  have l: "no_cancel (lift (decide_delete_by_regex (env_libs env) key re val name inc))"
    by (auto simp: no_cancel_def dest: decide_not_cancelled)
  show ?thesis unfolding regex_rejects_def by (rule no_cancel_bind [OF l]) (intro no_cancel_intros)
qed

lemma no_cancel_attribute_filters [no_cancel_intros]:
  "no_cancel (apply_head_object_filters st env cfg x)" "no_cancel (apply_tag_filters st env cfg x)"
  by (auto simp: apply_head_object_filters_def apply_tag_filters_def or_else_def Let_def
      intro!: no_cancel_intros)

lemma no_cancel_retry [no_cancel_intros]: "no_cancel (retry_attempts n st env k v e)"
  by (induction n) (auto intro!: no_cancel_intros)

lemma no_cancel_delete_errors [no_cancel_intros]:
  "no_cancel (handle_delete_errors st env cfg lookup errs result)"
  by (induction errs arbitrary: result)
    (auto simp: handle_delete_error_def retry_failed_key_with_single_delete_def Let_def
      split: sum.splits intro!: no_cancel_intros)

lemma read_keys_not_Err: "read_keys xs \<noteq> Err e"
  by (induction xs) (auto simp: obind_Err_iff)

lemma no_cancel_chunks [no_cancel_intros]: "no_cancel (delete_chunks st env cfg cs result)"
  by (induction cs arbitrary: result)
    (auto simp: delete_chunk_def read_keys_not_Err intro!: no_cancel_intros)

lemma no_cancel_deleter [no_cancel_intros]: "no_cancel (deleter_delete st env cfg objs)"
  by (auto simp: deleter_delete_def single_delete_def batch_delete_def Let_def split: list.splits
      intro!: no_cancel_intros)

lemma no_cancel_forward [no_cancel_intros]: "no_cancel (forward_batch env xs)"
  by (induction xs) (auto intro!: no_cancel_intros)

lemma record_not_Err:
  "deleted_size lookup dk \<noteq> Err e" "deleted_last_modified lib lookup dk \<noteq> Err e"
  by (auto simp: deleted_size_def deleted_last_modified_def fmt_last_modified_def obind_Err_iff
      split: option.splits)

lemma no_cancel_run_deleter [no_cancel_intros]: "no_cancel (run_deleter st env cfg kxs batch)"
  by (auto simp: run_deleter_def intro!: no_cancel_intros no_cancel_throw)

lemma no_cancel_batch [no_cancel_intros]: "no_cancel (delete_batch st env cfg batch)"
  by (auto simp: delete_batch_def record_deleted_def record_failed_def read_keys_not_Err
      record_not_Err intro!: no_cancel_intros)

lemma no_cancel_buffered [no_cancel_intros]: "no_cancel (delete_buffered_objects st env cfg buf)"
  by (auto simp: delete_buffered_objects_def intro!: no_cancel_intros)

lemma no_cancel_process [no_cancel_intros]: "no_cancel (process_object st env cfg x buf)"
  by (auto simp: process_object_def check_max_delete_def max_delete_exceeded_def
      buffer_and_delete_def Let_def split: option.splits intro!: no_cancel_intros)

lemma no_cancel_worker: "no_cancel (receive_and_delete st env cfg xs buf)"
  by (induction xs arbitrary: buf) (auto intro!: no_cancel_intros)

lemma worker_not_cancelled:
  "object_deleter_delete st env cfg xs s = (Err e, s') \<Longrightarrow> \<not> is_cancelled_error e"
  using no_cancel_worker [of st env cfg xs "[]"] by (auto simp: object_deleter_delete_def no_cancel_def)



section \<open>From the listing to the report\<close>

text \<open>The service answers a listing of the target with these objects, in \<open>k\<close> pages.\<close>

definition service_lists ::
  "s3_storage \<Rightarrow> 'w env \<Rightarrow> listing_mode \<Rightarrow> i32 \<Rightarrow> 'w \<Rightarrow> s3_object list \<Rightarrow> nat \<Rightarrow> 'w \<Rightarrow> bool" where
  "service_lists st env mode mk w xs k w' \<longleftrightarrow>
     (if uses_parallel_listing st
      then listing_tree st env mode mk (effective_prefix st []) 1 cursor_start w xs k w'
      else page_chain st env mode mk cursor_start w xs k w')"

definition listing_mode_of :: "config \<Rightarrow> listing_mode" where
  "listing_mode_of cfg = (if delete_all_versions cfg then Versions else Objects)"

lemma list_target_complete:
  assumes "quiet env" and "\<not> cancelled (pl_sys pl)" and "k \<le> n"
    and "service_lists (pl_target pl) env (listing_mode_of (pl_config pl)) (max_keys (pl_config pl))
           (world (pl_sys pl)) xs k w'"
  shows "list_target n env pl
    = Some (xs, pl\<lparr> pl_sys := listed (pl_target pl) w' xs k ((pl_sys pl)\<lparr> sent := [] \<rparr>) \<rparr>)"
proof -
  let ?s = "(pl_sys pl)\<lparr> sent := [] \<rparr>"
  let ?st = "pl_target pl" and ?mode = "listing_mode_of (pl_config pl)"
    and ?mk = "max_keys (pl_config pl)"
  have "list_dispatch n ?st env ?mode ?mk ?s = Some (Ok (), listed ?st w' xs k ?s)"
  proof (cases "uses_parallel_listing ?st")
    case True
    then have "list_with_parallel_from n ?st env ?mode (effective_prefix ?st []) ?mk 1 cursor_start ?s
        = Some (Ok (), listed ?st w' xs k ?s)"
      using assms parallel_tree(1) [OF assms(1)] by (simp add: service_lists_def)
    with True show ?thesis by (simp add: list_dispatch_def list_with_parallel_def)
  next
    case False
    then have "list_sequential_from n ?st env ?mode ?mk cursor_start ?s
        = Some (Ok (), listed ?st w' xs k ?s)"
      using assms sequential_chain [OF assms(1)] by (simp add: service_lists_def)
    with False show ?thesis by (simp add: list_dispatch_def list_sequential_def)
  qed
  then show ?thesis
    by (simp add: list_target_def Let_def listing_mode_of_def list_objects_def
        list_object_versions_def join_stage_def split: if_splits)
qed

lemma idle_worker:
  assumes "quiet env"
  shows "run_worker env [] pl = pl"
  using assms by (simp add: run_worker_def object_deleter_delete_def bind_def quiet_select_cancelled
      delete_buffered_objects_def join_worker_def)

lemma idle_workers: "quiet env \<Longrightarrow> run_workers n env [] pl = pl"
  by (induction n arbitrary: pl) (simp_all add: idle_worker)

lemma run_workers_first:
  "quiet env \<Longrightarrow> 0 < n \<Longrightarrow> run_workers n env xs pl = run_worker env xs pl"
  by (cases n) (simp_all add: idle_workers)

text \<open>The state in which the workers start, and what the rest of the run makes of their end.\<close>

lemma execute_to_workers:
  assumes "quiet env" and "\<not> cancelled (pl_sys pl)" and "k \<le> n" and "list_all wf_object xs"
    and "service_lists (pl_target pl) env (listing_mode_of (pl_config pl)) (max_keys (pl_config pl))
           (world (pl_sys pl)) xs k w'"
    and "\<not> fm_callback_registered (filter_manager (pl_config pl))"
    and "\<not> warn_as_error (pl_config pl)" and "worker_size (pl_config pl) \<noteq> 0"
  obtains pl2 where
    "execute_pipeline n env pl = Some (terminate (run_worker env
       (filter (selects (env_libs env) (pl_config pl)) xs) pl2))"
    and "pl_config pl2 = pl_config pl" and "pl_target pl2 = pl_target pl"
    and "pl_has_error pl2 = pl_has_error pl" and "\<not> cancelled (pl_sys pl2)"
    and "report (pl_sys pl2) = report (pl_sys pl)" and "world (pl_sys pl2) = w'"
proof -
  let ?cfg = "pl_config pl" and ?ys = "filter (selects (env_libs env) (pl_config pl)) xs"
  let ?pl1 = "pl\<lparr> pl_sys := listed (pl_target pl) w' xs k ((pl_sys pl)\<lparr> sent := [] \<rparr>) \<rparr>"
  have l: "list_target n env pl = Some (xs, ?pl1)"
    by (rule list_target_complete [OF assms(1-3,5)])
  have c1: "\<not> cancelled (pl_sys ?pl1)" "pl_config ?pl1 = ?cfg" using assms(2) by simp_all
  obtain zs pl3 where f: "run_filters env ?cfg (filter_stages ?cfg) xs ?pl1 = (zs, pl3)"
    and zs: "zs = ?ys" and u: "undisturbed ?pl1 pl3"
  proof -
    from run_filters_wf [OF assms(1) filter_stages_contracted c1(1) assms(4), of ?cfg ?cfg]
    obtain pl3 where r: "run_filters env ?cfg (filter_stages ?cfg) xs ?pl1
        = (filter (\<lambda>x. \<forall>nf \<in> set (filter_stages ?cfg).
             passes_stage nf (env_libs env) (filter_config ?cfg) x) xs, pl3)" "undisturbed ?pl1 pl3"
      by blast
    have "filter (\<lambda>x. \<forall>nf \<in> set (filter_stages ?cfg).
             passes_stage nf (env_libs env) (filter_config ?cfg) x) xs = ?ys"
      using assms(4) by (intro filter_cong) (auto simp: filter_stages_select list_all_iff)
    with r that show ?thesis by simp
  qed
  have fo: "filter_objects env xs ?pl1 = (?ys, pl3)"
    using f zs assms(6) by (simp add: filter_objects_def Let_def)
  from u have pl3: "pl3 = ?pl1\<lparr> pl_sys := pl_sys pl3 \<rparr>" "\<not> cancelled (pl_sys pl3)"
    "report (pl_sys pl3) = report (pl_sys pl)" "world (pl_sys pl3) = w'"
    using assms(2) by (simp_all add: undisturbed_def same_flags_def listed_def)
  have cfg3: "pl_config pl3 = ?cfg" "pl_target pl3 = pl_target pl" "pl_has_error pl3 = pl_has_error pl"
    by (subst pl3(1), simp)+
  let ?pl2 = "pl3\<lparr> pl_sys := (pl_sys pl3)\<lparr> sent := [], delete_counter := 0 \<rparr> \<rparr>"
  let ?fin = "terminate (run_worker env ?ys ?pl2)"
  have w: "0 < unat (worker_size ?cfg)" using assms(8) by (simp add: unat_gt_0)
  have "pl_config ?fin = ?cfg"
    by (simp add: terminate_def run_worker_def join_worker_def record_error_def cfg3
        split: prod.splits outcome.splits)
  then have "execute_pipeline n env pl = Some ?fin"
    using l fo assms(7) cfg3 run_workers_first [OF assms(1) w]
    by (simp add: execute_pipeline_def Let_def pipeline_delete_objects_def)
  then show ?thesis using that [of ?pl2] pl3 cfg3 by simp
qed



lemma demo_selects: "selects lib demo_config x"
  by (simp add: selects_def demo_config_def filter_config_default_def)

lemma demo_lists:
  "service_lists (create_storage demo_config) demo_env Objects mk w (demo_listed w) 1 w"
  using demo_tree [of mk _ 1 cursor_start w] demo_chain [of mk cursor_start w]
  by (auto simp: service_lists_def simp del: One_nat_def)

lemma demo_pipeline_simps [simp]:
  "pl_config (pipeline_new cfg w) = cfg" "pl_target (pipeline_new cfg w) = create_storage cfg"
  "pl_sys (pipeline_new cfg w) = sys_new w" "\<not> pl_has_error (pipeline_new cfg w)"
  by (simp_all add: pipeline_new_def)

lemma demo_run_facts:
  "listing_mode_of demo_config = Objects" "\<not> fm_callback_registered (filter_manager demo_config)"
  "worker_size demo_config \<noteq> 0"
  by (simp_all add: listing_mode_of_def demo_config_def filter_manager_new_def)

lemma demo_executes_from:
  assumes "pl_config pl = demo_config" and "pl_target pl = create_storage demo_config"
    and "\<not> cancelled (pl_sys pl)" and "world (pl_sys pl) = [''a'', ''b'']"
  shows "\<exists>pl'. execute_pipeline 1 demo_env pl = Some pl' \<and> pl_has_error pl' = pl_has_error pl"
proof -
  let ?w = "[''a'', ''b'']"
  have "service_lists (pl_target pl) demo_env (listing_mode_of (pl_config pl))
      (max_keys (pl_config pl)) (world (pl_sys pl)) (demo_listed ?w) 1 ?w"
    using demo_lists by (simp only: assms demo_run_facts)
  moreover have "list_all wf_object (demo_listed ?w)" by (simp add: wf_object_def)
  ultimately obtain pl2 where
    e: "execute_pipeline 1 demo_env pl = Some (terminate (run_worker demo_env
       (filter (selects (env_libs demo_env) (pl_config pl)) (demo_listed ?w)) pl2))"
    and p: "pl_config pl2 = pl_config pl" "pl_target pl2 = pl_target pl"
      "pl_has_error pl2 = pl_has_error pl" "\<not> cancelled (pl_sys pl2)"
    using execute_to_workers [of demo_env pl 1 1 "demo_listed ?w" ?w] demo_run_facts demo_plain assms
    by force
  have o: "filter (selects (env_libs demo_env) (pl_config pl)) (demo_listed ?w)
      = [demo_object ''a'', demo_object ''b'']"
    by (simp add: assms demo_selects s3_object_new_def)
  obtain s' where "object_deleter_delete (create_storage demo_config) demo_env demo_config
      [demo_object ''a'', demo_object ''b''] (pl_sys pl2) = (Ok [], s')"
    using demo_worker_returns [OF p(4)] by blast
  then show ?thesis
    unfolding e o using p assms by (simp add: run_worker_def join_worker_def terminate_def)
qed

lemma demo_executes:
  "\<exists>pl'. execute_pipeline 1 demo_env (pipeline_new demo_config [''a'', ''b'']) = Some pl'
    \<and> \<not> pl_has_error pl'"
  using demo_executes_from [of "pipeline_new demo_config [''a'', ''b'']"] by simp



section \<open>Dry runs end to end\<close>



text \<open>The witnesses of the two properties on whole runs that have no other instance.\<close>

theorem run_error_flags_witness:
  "\<exists>pl. run 1 (demo_env\<lparr> env_is_terminal := False \<rparr>) (pipeline_new (demo_config\<lparr> force := False \<rparr>) [''a''])
      = Some (Ok (), pl)
    \<and> (pl_has_error pl \<longleftrightarrow> pl_errors pl \<noteq> []) \<and> (pl_has_panic pl \<longrightarrow> pl_has_error pl)
    \<and> (case fst (get_errors_and_consume pl) of
         None \<Rightarrow> \<not> pl_has_error pl | Some es \<Rightarrow> pl_has_error pl \<and> es \<noteq> [])
    \<and> run 1 (demo_env\<lparr> env_is_terminal := False \<rparr>) pl
        = Some (Panic ''DeletionPipeline::run() called more than once'', pl)"
proof -
  let ?env = "demo_env\<lparr> env_is_terminal := False \<rparr>"
  have "\<exists>pl. run 1 ?env (pipeline_new (demo_config\<lparr> force := False \<rparr>) [''a'']) = Some (Ok (), pl)"
    by (simp add: run_def Let_def check_prerequisites_def on_sys_def seq_Err pipeline_new_def
        check_before_deletion_def safety_checker_new_def is_non_interactive_def demo_config_def)
  then obtain pl where
    e: "run 1 ?env (pipeline_new (demo_config\<lparr> force := False \<rparr>) [''a'']) = Some (Ok (), pl)" by blast
  with run_error_flags [OF this, of 1] show ?thesis by blast
qed

abbreviation demo_preview :: "string list pipeline" where
  "demo_preview \<equiv> (pipeline_new demo_config [''a'', ''b''])\<lparr> pl_config := demo_config\<lparr> dry_run := True \<rparr> \<rparr>"


end
