(* ===== verification/Args_Facts.thy ===== *)
theory Args_Facts
  imports Args Pipeline
begin

text \<open>
  What a configuration built from the command line guarantees to the components that use it.
\<close>

section \<open>The fields of the result\<close>

lemma config_try_from_Ok:
  assumes "config_try_from al a = Ok cfg"
  shows "parse_target a = Ok (target cfg)" "build_filter_config al a = Ok (filter_config cfg)"
    "batch_size cfg = express_batch_size a (target cfg)"
    "rate_limit_objects cfg = arg_rate_limit_objects a"
    "\<And>limit. arg_rate_limit_objects a = Some limit \<Longrightarrow> \<not> limit < ucast (batch_size cfg)"
    "max_parallel_listings cfg = arg_max_parallel_listings a"
    "allow_parallel_listings_in_express_one_zone cfg = arg_allow_parallel_listings_in_express_one_zone a"
    "target_client_config cfg = build_client_config a"
    "worker_size cfg = arg_worker_size a" "max_keys cfg = arg_max_keys a"
    "max_parallel_listing_max_depth cfg = arg_max_parallel_listing_max_depth a"
    "object_listing_queue_size cfg = arg_object_listing_queue_size a"
    "max_delete cfg = arg_max_delete a"
  using assms
  by (auto simp: config_try_from_def Let_def obind_eq_Ok split: option.splits if_splits)

lemma express_suffix: "is_express_bucket b = is_express_onezone_bucket b"
  by (simp add: is_express_bucket_def is_express_onezone_bucket_def EXPRESS_ONEZONE_STORAGE_SUFFIX_def)

lemma create_storage_fields [simp]:
  "st_config (create_storage cfg) = cfg" "st_bucket (create_storage cfg) = sp_bucket (target cfg)"
  "st_prefix (create_storage cfg) = sp_prefix (target cfg)"
  "st_rate_limiter (create_storage cfg) = map_option make_rate_limiter (rate_limit_objects cfg)"
  "st_has_client (create_storage cfg) \<longleftrightarrow> target_client_config cfg \<noteq> None"
  by (simp_all add: create_storage_def s3_storage_create_def Let_def)

lemma effective_batch_size_le:
  "batch_size cfg \<noteq> 0 \<Longrightarrow> effective_batch_size cfg \<le> unat (batch_size cfg)"
  by (auto simp: effective_batch_size_def unat_gt_0 Suc_le_eq)


section \<open>The rate limiter\<close>

lemma unat_u16_as_u32: "unat (ucast (n :: u16) :: u32) = unat n"
proof -
  have "unat n < 2 ^ 16" using unsigned_less [of n, where ?'a = nat] by simp
  then have "unat n < 2 ^ 32" by simp
  then show ?thesis by (simp add: unsigned_ucast_eq take_bit_nat_eq_self_iff)
qed

text \<open>
  C33: the rate limiter admits every batch. For a configuration from the command line, the
  limiter of its storage can hold as many tokens as the largest deletion request takes, starts
  full, and refills; so no deletion request waits for more tokens than there can ever be.
\<close>

theorem rate_limit_admits_batches:
  assumes "config_try_from al a = Ok cfg" and "within_ranges a"
    and "st_rate_limiter (create_storage cfg) = Some rl"
  shows "effective_batch_size cfg \<le> rl_max rl \<and> rl_initial rl = rl_max rl \<and> 0 < rl_refill rl
    \<and> rl_refill rl \<le> rl_max rl"
proof -
  note cfg = config_try_from_Ok [OF assms(1)]
  from assms(3) obtain limit where l: "arg_rate_limit_objects a = Some limit" "rl = make_rate_limiter limit"
    using cfg(4) by auto
  have b: "batch_size cfg \<noteq> 0"
    using assms(2) unfolding cfg(3) by (auto simp: within_ranges_def express_batch_size_def)
  have "unat (batch_size cfg) \<le> unat limit"
    using cfg(5) [OF l(1)] by (simp add: not_less word_le_nat_alt unat_u16_as_u32)
  moreover have "10 \<le> unat limit"
    using assms(2) l(1) by (simp add: within_ranges_def word_le_nat_alt)
  ultimately show ?thesis
    using effective_batch_size_le [OF b] l(2)
    by (auto simp: make_rate_limiter_def Let_def refill_per_interval_divider_def div_greater_zero_iff)
qed

definition demo_arg_libs :: "bool arg_libs" where
  "demo_arg_libs = \<lparr> al_byte_from_str = (\<lambda>s. Inr 67108864), al_url_scheme = (\<lambda>u. Inr ''https''),
     al_regex_valid = (\<lambda>re. True), al_is_file = (\<lambda>p. True), al_read_file = (\<lambda>p. Inr []),
     al_from_utf8 = (\<lambda>b. Inr b), al_mlua = demo_lua \<rparr>"

abbreviation demo_args :: "string \<Rightarrow> cli_args" where
  "demo_args t \<equiv> (cli_args_default t)\<lparr> arg_rate_limit_objects := Some 500 \<rparr>"

lemma demo_args_convert:
  "\<exists>cfg. config_try_from demo_arg_libs (demo_args ''s3://logs/a'') = Ok cfg"
  by (simp add: config_try_from_def demo_arg_libs_def parse_target_def slice_from_def
      is_char_boundary_def build_filter_config_def parse_size_option_def compile_regex_def
      cli_args_default_def DEFAULT_BATCH_SIZE_def express_batch_size_def parse_human_bytes_def
      check_human_bytes_def build_filter_manager_def build_event_manager_def
      is_express_bucket_def ends_with_def EXPRESS_ONEZONE_STORAGE_SUFFIX_def Let_def)

lemma demo_args_within: "within_ranges (demo_args t)"
  by (simp add: within_ranges_def cli_args_default_def DEFAULT_BATCH_SIZE_def)

theorem rate_limit_admits_batches_witness:
  "\<exists>cfg rl. config_try_from demo_arg_libs (demo_args ''s3://logs/a'') = Ok cfg
    \<and> st_rate_limiter (create_storage cfg) = Some rl \<and> effective_batch_size cfg \<le> rl_max rl
    \<and> rl_initial rl = rl_max rl \<and> 0 < rl_refill rl \<and> rl_refill rl \<le> rl_max rl"
proof -
  obtain cfg where c: "config_try_from demo_arg_libs (demo_args ''s3://logs/a'') = Ok cfg"
    using demo_args_convert by blast
  have "st_rate_limiter (create_storage cfg) = Some (make_rate_limiter 500)"
    using config_try_from_Ok(4) [OF c] by (simp add: cli_args_default_def)
  with c rate_limit_admits_batches [OF c demo_args_within this] show ?thesis by blast
qed


section \<open>The target\<close>

text \<open>
  The two parsers of a target agree. On an argument the value parser has accepted, the
  conversion of the command line gives a bucket and a prefix exactly when \<open>S3Target::parse\<close>
  does, and they are the same (an absent prefix being the empty one); the target shown in the
  confirmation prompt is the argument, with a slash after a bare bucket name.
\<close>

theorem target_parsers_agree:
  assumes "check_s3_target u = Ok v" and "is_char_boundary u 5" and "arg_target a = u"
  shows "(case parse_target a of
      Ok t \<Rightarrow> s3_target_parse u = Ok \<lparr> bucket = sp_bucket t,
          prefix = (if sp_prefix t = [] then None else Some (sp_prefix t)),
          endpoint = None, region = None \<rparr>
        \<and> format_target t = (if slash \<in> set (drop 5 u) then u else u @ ''/'')
    | Err e \<Rightarrow> e = ERROR_MESSAGE_INVALID_TARGET \<and> (\<exists>d. s3_target_parse u = Err d)
    | Panic m \<Rightarrow> False)"
proof -
  from assms(1) obtain w where u: "u = s3_scheme @ w" and w: "w \<noteq> []"
    by (auto simp: check_s3_target_def starts_with_iff split: if_splits)
  have p: "parse_target a = (let (b, p) = (case find_char slash w of
         Some idx \<Rightarrow> (take idx w, drop (Suc idx) w) | None \<Rightarrow> (w, []))
       in if b = [] then Err ERROR_MESSAGE_INVALID_TARGET else Ok (S3 b p))"
    using assms(2) u by (simp add: parse_target_def assms(3) slice_from_def)
  show ?thesis
  proof (cases "find_char slash w")
    case None
    then have "slash \<notin> set w" by (simp add: find_char_None)
    with None u w show ?thesis
      by (simp add: p s3_target_parse_def format_target_def)
  next
    case (Some i)
    then have s: "i < length w" "w = take i w @ slash # drop (Suc i) w"
      using find_char_SomeD [OF Some] by auto
    then have "slash \<in> set w" by (metis in_set_conv_decomp)
    moreover have "s3_scheme @ w = s3_scheme @ take i w @ ''/'' @ drop (Suc i) w" using s(2) by simp
    ultimately show ?thesis
      using Some u w s(1) by (auto simp: p s3_target_parse_def format_target_def Let_def)
  qed
qed

theorem target_parsers_agree_witness:
  "parse_target (cli_args_default ''s3://logs/a/'') = Ok (S3 ''logs'' ''a/'')
    \<and> s3_target_parse ''s3://logs/a/'' = Ok \<lparr> bucket = ''logs'', prefix = Some ''a/'',
        endpoint = None, region = None \<rparr>
    \<and> format_target (S3 ''logs'' ''a/'') = ''s3://logs/a/''"
proof -
  have p: "parse_target (cli_args_default ''s3://logs/a/'') = Ok (S3 ''logs'' ''a/'')"
    by (simp add: parse_target_def cli_args_default_def slice_from_def is_char_boundary_def)
  with target_parsers_agree [of "''s3://logs/a/''" "''s3://logs/a/''" "cli_args_default ''s3://logs/a/''"]
  show ?thesis
    by (simp add: check_s3_target_def is_char_boundary_def cli_args_default_def)
qed


section \<open>Express One Zone\<close>

text \<open>
  A directory bucket of Express One Zone is treated plainly unless the command line says
  otherwise: its objects are listed sequentially and deleted one by one with single-object
  requests, and its versioning is never asked for. Every other bucket keeps its batch size.
\<close>

theorem express_one_zone_runs_plain:
  assumes "config_try_from al a = Ok cfg"
  shows "if is_express_onezone_bucket (sp_bucket (target cfg))
         then (is_versioning_enabled (create_storage cfg) env s = (Ok False, s))
           \<and> (if arg_allow_parallel_listings_in_express_one_zone a
              then batch_size cfg = arg_batch_size a
              else use_single_deleter cfg \<and> effective_batch_size cfg = 1
                \<and> \<not> uses_parallel_listing (create_storage cfg)
                \<and> list_dispatch n (create_storage cfg) env mode mk s
                    = list_sequential n (create_storage cfg) env mode mk s)
         else batch_size cfg = arg_batch_size a"
proof -
  note cfg = config_try_from_Ok [OF assms]
  show ?thesis
    using cfg(3) cfg(7)
    by (auto simp: express_batch_size_def express_suffix is_express_onezone_storage_def
        use_single_deleter_def effective_batch_size_def uses_parallel_listing_def list_dispatch_def
        is_versioning_enabled_def ret_def)
qed

lemma demo_express_converts:
  "\<exists>cfg. config_try_from demo_arg_libs (demo_args ''s3://logs--x-s3'') = Ok cfg"
  by (simp add: config_try_from_def demo_arg_libs_def parse_target_def slice_from_def
      is_char_boundary_def build_filter_config_def parse_size_option_def compile_regex_def
      cli_args_default_def DEFAULT_BATCH_SIZE_def express_batch_size_def parse_human_bytes_def
      check_human_bytes_def build_filter_manager_def build_event_manager_def
      is_express_bucket_def ends_with_def EXPRESS_ONEZONE_STORAGE_SUFFIX_def Let_def)

theorem express_one_zone_runs_plain_witness:
  "\<exists>cfg. config_try_from demo_arg_libs (demo_args ''s3://logs--x-s3'') = Ok cfg
    \<and> use_single_deleter cfg \<and> effective_batch_size cfg = 1
    \<and> \<not> uses_parallel_listing (create_storage cfg)"
proof -
  obtain cfg where c: "config_try_from demo_arg_libs (demo_args ''s3://logs--x-s3'') = Ok cfg"
    using demo_express_converts by blast
  have "target cfg = S3 ''logs--x-s3'' []"
    using config_try_from_Ok(1) [OF c]
    by (auto simp: parse_target_def cli_args_default_def slice_from_def is_char_boundary_def)
  then have e: "is_express_onezone_bucket (sp_bucket (target cfg))"
    by (simp add: is_express_onezone_bucket_def ends_with_def)
  have "\<not> arg_allow_parallel_listings_in_express_one_zone (demo_args ''s3://logs--x-s3'')"
    by (simp add: cli_args_default_def)
  with e c express_one_zone_runs_plain [OF c, of demo_env "sys_new [''a'']" 0 Objects 0]
  show ?thesis by auto
qed


section \<open>Panics\<close>

text \<open>What the value parsers have checked of the arguments before the conversion.\<close>

definition validated :: "'l arg_libs \<Rightarrow> cli_args \<Rightarrow> bool" where
  "validated al a \<longleftrightarrow> is_ok (check_s3_target (arg_target a)) \<and> is_char_boundary (arg_target a) 5
     \<and> list_all (\<lambda>p. case p of Some re \<Rightarrow> is_ok (parse_regex al re) | None \<Rightarrow> True)
         [arg_filter_include_regex a, arg_filter_exclude_regex a,
          arg_filter_include_content_type_regex a, arg_filter_exclude_content_type_regex a,
          arg_filter_include_metadata_regex a, arg_filter_exclude_metadata_regex a,
          arg_filter_include_tag_regex a, arg_filter_exclude_tag_regex a]"

text \<open>An interpreter that accepts every memory limit, as creating one is expected to.\<close>

definition accepts_limits :: "'l mlua \<Rightarrow> bool" where
  "accepts_limits ml \<longleftrightarrow> (\<forall>n l. ml_set_memory_limit ml n l \<noteq> None) \<and> ml_new_with_safe_libs ml \<noteq> None"

lemma is_panic_obind:
  "is_panic (obind r f) \<longleftrightarrow> is_panic r \<or> (\<exists>a. r = Ok a \<and> is_panic (f a))"
  by (cases r) auto

lemma is_panic_expect: "is_panic (expect x m) \<longleftrightarrow> x = None"
  by (cases x) auto

lemma is_panic_map_err [simp]: "is_panic (map_err g r) = is_panic r"
  by (cases r) auto

lemma parse_human_bytes_total [simp]: "\<not> is_panic (parse_human_bytes al s)"
  by (auto simp: parse_human_bytes_def check_human_bytes_def split: sum.splits)

lemma compile_regex_total:
  "(case p of Some re \<Rightarrow> is_ok (parse_regex al re) | None \<Rightarrow> True) \<Longrightarrow> \<not> is_panic (compile_regex al p)"
  by (auto simp: compile_regex_def parse_regex_def split: option.splits if_splits)

lemma lua_callback_load_total: "lua_callback_load ml rf fu path l \<noteq> (Panic m, l')"
  by (auto simp: lua_callback_load_def lua_load_and_compile_def throw_def
      split: sum.splits prod.splits)

lemma load_lua_callback_total:
  assumes "accepts_limits (al_mlua al)"
  shows "\<not> is_panic (load_lua_callback al a limit label path)"
proof -
  have n: "lua_callback_new (al_mlua al) limit b c t \<noteq> Panic m" for b c t m
  proof
    assume "lua_callback_new (al_mlua al) limit b c t = Panic m"
    then have "is_panic (lua_callback_new (al_mlua al) limit b c t)" by simp
    with assms show False
      by (auto simp: lua_callback_new_def is_panic_obind limit_memory_def accepts_limits_def
          lua_engine_new_def lua_engine_new_without_os_io_libs_def lua_engine_unsafe_new_def
          is_panic_expect split: if_splits simp del: not_None_eq)
  qed
  then show ?thesis
    by (auto simp: load_lua_callback_def lua_callback_load_total split: outcome.splits prod.splits)
qed

lemma config_try_from_total:
  assumes "validated al a" and "accepts_limits (al_mlua al)"
  shows "\<not> is_panic (config_try_from al a)"
proof -
  have t: "\<not> is_panic (parse_target a)"
    using assms(1) by (auto simp: validated_def parse_target_def slice_from_def Let_def split: prod.splits)
  have s: "\<not> is_panic (parse_size_option al l v)" for l v
    by (auto simp: parse_size_option_def is_panic_obind split: option.splits)
  have f: "\<not> is_panic (build_filter_config al a)"
    using assms(1) unfolding build_filter_config_def validated_def
    by (auto simp: is_panic_obind s compile_regex_total)
  have c: "\<not> is_panic (build_filter_manager al a m)" "\<not> is_panic (build_event_manager al a m)" for m
    using load_lua_callback_total [OF assms(2)]
    by (auto simp: build_filter_manager_def build_event_manager_def is_panic_obind split: option.splits)
  show ?thesis
    by (auto simp: config_try_from_def is_panic_obind t f c Let_def split: option.splits)
qed

text \<open>
  What the components expect of a configuration: a bucket and a client, chunks that are neither
  empty nor larger than a request may be, at least one worker, page sizes and thresholds in range.
\<close>

definition wf_config :: "config \<Rightarrow> bool" where
  "wf_config cfg \<longleftrightarrow> sp_bucket (target cfg) \<noteq> [] \<and> st_has_client (create_storage cfg)
     \<and> 1 \<le> unat (batch_size cfg) \<and> unat (batch_size cfg) \<le> MAX_BATCH_SIZE
     \<and> worker_size cfg \<noteq> 0 \<and> max_parallel_listings cfg \<noteq> 0 \<and> object_listing_queue_size cfg \<noteq> 0
     \<and> 1 \<le> sint (max_keys cfg) \<and> sint (max_keys cfg) \<le> 32767 \<and> max_delete cfg \<noteq> Some 0
     \<and> (case rate_limit_objects cfg of None \<Rightarrow> True | Some n \<Rightarrow> unat (batch_size cfg) \<le> unat n)"

lemma config_well_formed:
  assumes "config_try_from al a = Ok cfg" and "within_ranges a"
  shows "wf_config cfg"
proof -
  note cfg = config_try_from_Ok [OF assms(1)] and r = assms(2) [unfolded within_ranges_def]
  have "sp_bucket (target cfg) \<noteq> []"
    using cfg(1) by (cases "target cfg") (auto simp: parse_target_def split_beta obind_eq_Ok split: if_splits)
  moreover have "target_client_config cfg \<noteq> None" unfolding cfg(8) by (simp add: build_client_config_def)
  moreover have "1 \<le> unat (batch_size cfg) \<and> unat (batch_size cfg) \<le> MAX_BATCH_SIZE"
    using r unfolding cfg(3) by (auto simp: express_batch_size_def MAX_BATCH_SIZE_def word_le_nat_alt)
  moreover have "unat (batch_size cfg) \<le> unat n" if "rate_limit_objects cfg = Some n" for n
    using cfg(5) [of n] that unfolding cfg(4) by (simp add: not_less word_le_nat_alt unat_u16_as_u32)
  ultimately show ?thesis
    using r by (auto simp: wf_config_def cfg split: option.splits)
qed

text \<open>
  C30: the conversion of the command line is type safe. With a target and patterns the value
  parsers have accepted and numbers in the ranges they enforce, no \<open>expect\<close> and no slice of the
  conversion panics, and a configuration it returns is well formed: it names a bucket, has a
  client, chunks of one to a thousand objects that the rate limit can admit, and at least one
  worker. So the panics of the library on an empty chunk size or a missing client are unreachable
  from the command line.
\<close>

theorem arguments_never_panic:
  assumes "validated al a" and "accepts_limits (al_mlua al)" and "within_ranges a"
  shows "case config_try_from al a of Ok cfg \<Rightarrow> wf_config cfg | Err e \<Rightarrow> True | Panic m \<Rightarrow> False"
  using config_try_from_total [OF assms(1,2)] config_well_formed [OF _ assms(3)]
  by (cases "config_try_from al a") auto

theorem arguments_never_panic_witness:
  "case config_try_from demo_arg_libs
     ((cli_args_default ''s3://logs/a'')\<lparr> arg_filter_include_regex := Some ''a.*'' \<rparr>)
   of Ok cfg \<Rightarrow> wf_config cfg | Err e \<Rightarrow> True | Panic m \<Rightarrow> False"
  by (rule arguments_never_panic)
    (simp_all add: validated_def accepts_limits_def demo_arg_libs_def demo_lua_def parse_regex_def
      check_s3_target_def is_char_boundary_def cli_args_default_def within_ranges_def DEFAULT_BATCH_SIZE_def)

end
