(* ===== verification/Args_Options.thy ===== *)
theory Args_Options
  imports Args_Facts
begin

text \<open>
  The relations between the options that \<open>CLIArgs\<close> declares in its attributes
  (\<open>src/config/args/mod.rs\<close>) and \<open>clap\<close> enforces: which option requires which, and which exclude
  each other. An option counts as given when its value shows it: a flag that is set, an
  argument that is there. (An environment variable that sets a flag to false gives it as well, for
  \<open>clap\<close>; such a call is not covered, and the checks of the pipeline are there for it.)
\<close>

section \<open>The declared relations\<close>

text \<open>An option, what it requires, and what it conflicts with.\<close>

type_synonym option_rule = "string \<times> string list \<times> string list"

definition dry_run_rule :: option_rule where
  "dry_run_rule = (''dry_run'', [], [''force''])"

definition keep_latest_only_rule :: option_rule where
  "keep_latest_only_rule = (''keep_latest_only'', [''delete_all_versions''],
     [''filter_include_content_type_regex'', ''filter_exclude_content_type_regex'',
      ''filter_include_metadata_regex'', ''filter_exclude_metadata_regex'',
      ''filter_include_tag_regex'', ''filter_exclude_tag_regex'',
      ''filter_larger_size'', ''filter_smaller_size'',
      ''filter_mtime_before'', ''filter_mtime_after'', ''filter_callback_lua_script''])"

definition filter_delete_marker_only_rule :: option_rule where
  "filter_delete_marker_only_rule = (''filter_delete_marker_only'', [''delete_all_versions''],
     [''filter_include_content_type_regex'', ''filter_exclude_content_type_regex'',
      ''filter_include_metadata_regex'', ''filter_exclude_metadata_regex'',
      ''filter_include_tag_regex'', ''filter_exclude_tag_regex'',
      ''filter_larger_size'', ''filter_smaller_size''])"

definition json_tracing_rule :: option_rule where
  "json_tracing_rule = (''json_tracing'', [''force''], [])"

definition credential_rules :: "option_rule list" where
  "credential_rules =
     [(''target_profile'', [], [''target_access_key'', ''target_secret_access_key'', ''target_session_token'']),
      (''target_access_key'', [''target_secret_access_key''], [''target_profile'']),
      (''target_secret_access_key'', [''target_access_key''], [''target_profile'']),
      (''target_session_token'', [''target_access_key''], [''target_profile''])]"

definition allow_lua_os_library_rule :: option_rule where
  "allow_lua_os_library_rule = (''allow_lua_os_library'', [], [''allow_lua_unsafe_vm''])"

definition if_match_rule :: option_rule where
  "if_match_rule = (''if_match'', [], [''delete_all_versions''])"

definition allow_lua_unsafe_vm_rule :: option_rule where
  "allow_lua_unsafe_vm_rule = (''allow_lua_unsafe_vm'', [], [''allow_lua_os_library''])"

definition option_rules :: "option_rule list" where
  "option_rules = [dry_run_rule, keep_latest_only_rule, filter_delete_marker_only_rule, json_tracing_rule]
     @ credential_rules @ [allow_lua_os_library_rule, if_match_rule, allow_lua_unsafe_vm_rule]"


section \<open>What is given\<close>

definition option_given :: "cli_args \<Rightarrow> string \<Rightarrow> bool" where
  "option_given a opt = (map_of
     [(''dry_run'', arg_dry_run a), (''force'', arg_force a),
      (''delete_all_versions'', arg_delete_all_versions a), (''keep_latest_only'', arg_keep_latest_only a),
      (''filter_delete_marker_only'', arg_filter_delete_marker_only a),
      (''filter_include_content_type_regex'', arg_filter_include_content_type_regex a \<noteq> None),
      (''filter_exclude_content_type_regex'', arg_filter_exclude_content_type_regex a \<noteq> None),
      (''filter_include_metadata_regex'', arg_filter_include_metadata_regex a \<noteq> None),
      (''filter_exclude_metadata_regex'', arg_filter_exclude_metadata_regex a \<noteq> None),
      (''filter_include_tag_regex'', arg_filter_include_tag_regex a \<noteq> None),
      (''filter_exclude_tag_regex'', arg_filter_exclude_tag_regex a \<noteq> None),
      (''filter_mtime_before'', arg_filter_mtime_before a \<noteq> None),
      (''filter_mtime_after'', arg_filter_mtime_after a \<noteq> None),
      (''filter_smaller_size'', arg_filter_smaller_size a \<noteq> None),
      (''filter_larger_size'', arg_filter_larger_size a \<noteq> None),
      (''json_tracing'', arg_json_tracing a),
      (''target_profile'', arg_target_profile a \<noteq> None),
      (''target_access_key'', arg_target_access_key a \<noteq> None),
      (''target_secret_access_key'', arg_target_secret_access_key a \<noteq> None),
      (''target_session_token'', arg_target_session_token a \<noteq> None),
      (''filter_callback_lua_script'', arg_filter_callback_lua_script a \<noteq> None),
      (''allow_lua_os_library'', arg_allow_lua_os_library a), (''if_match'', arg_if_match a),
      (''allow_lua_unsafe_vm'', arg_allow_lua_unsafe_vm a)] opt = Some True)"

definition rule_met :: "(string \<Rightarrow> bool) \<Rightarrow> option_rule \<Rightarrow> bool" where
  "rule_met given rule = (case rule of (opt, required, excluded) \<Rightarrow>
     given opt \<longrightarrow> list_all given required \<and> list_all (\<lambda>c. \<not> given c) excluded)"

definition rules_met :: "cli_args \<Rightarrow> bool" where
  "rules_met a \<longleftrightarrow> list_all (rule_met (option_given a)) option_rules"

lemma given_simps [simp]:
  "option_given a ''dry_run'' = arg_dry_run a" "option_given a ''force'' = arg_force a"
  "option_given a ''delete_all_versions'' = arg_delete_all_versions a"
  "option_given a ''keep_latest_only'' = arg_keep_latest_only a"
  "option_given a ''filter_delete_marker_only'' = arg_filter_delete_marker_only a"
  "option_given a ''filter_include_content_type_regex'' = (arg_filter_include_content_type_regex a \<noteq> None)"
  "option_given a ''filter_exclude_content_type_regex'' = (arg_filter_exclude_content_type_regex a \<noteq> None)"
  "option_given a ''filter_include_metadata_regex'' = (arg_filter_include_metadata_regex a \<noteq> None)"
  "option_given a ''filter_exclude_metadata_regex'' = (arg_filter_exclude_metadata_regex a \<noteq> None)"
  "option_given a ''filter_include_tag_regex'' = (arg_filter_include_tag_regex a \<noteq> None)"
  "option_given a ''filter_exclude_tag_regex'' = (arg_filter_exclude_tag_regex a \<noteq> None)"
  "option_given a ''filter_mtime_before'' = (arg_filter_mtime_before a \<noteq> None)"
  "option_given a ''filter_mtime_after'' = (arg_filter_mtime_after a \<noteq> None)"
  "option_given a ''filter_smaller_size'' = (arg_filter_smaller_size a \<noteq> None)"
  "option_given a ''filter_larger_size'' = (arg_filter_larger_size a \<noteq> None)"
  "option_given a ''json_tracing'' = arg_json_tracing a"
  "option_given a ''target_profile'' = (arg_target_profile a \<noteq> None)"
  "option_given a ''target_access_key'' = (arg_target_access_key a \<noteq> None)"
  "option_given a ''target_secret_access_key'' = (arg_target_secret_access_key a \<noteq> None)"
  "option_given a ''target_session_token'' = (arg_target_session_token a \<noteq> None)"
  "option_given a ''filter_callback_lua_script'' = (arg_filter_callback_lua_script a \<noteq> None)"
  "option_given a ''allow_lua_os_library'' = arg_allow_lua_os_library a"
  "option_given a ''if_match'' = arg_if_match a"
  "option_given a ''allow_lua_unsafe_vm'' = arg_allow_lua_unsafe_vm a"
  by (simp_all add: option_given_def)

lemmas rule_defs = rules_met_def option_rules_def rule_met_def dry_run_rule_def keep_latest_only_rule_def
  filter_delete_marker_only_rule_def json_tracing_rule_def credential_rules_def allow_lua_os_library_rule_def
  if_match_rule_def allow_lua_unsafe_vm_rule_def

lemma rules_met_facts:
  assumes "rules_met a"
  shows "arg_json_tracing a \<Longrightarrow> arg_force a"
    and "arg_if_match a \<Longrightarrow> \<not> arg_delete_all_versions a"
    and "arg_keep_latest_only a \<or> arg_filter_delete_marker_only a \<Longrightarrow> arg_delete_all_versions a"
  using assms by (simp_all add: rule_defs, blast)

lemma rules_met_filters:
  assumes "rules_met a"
  shows "arg_keep_latest_only a \<or> arg_filter_delete_marker_only a \<Longrightarrow>
      arg_filter_include_content_type_regex a = None \<and> arg_filter_exclude_content_type_regex a = None
      \<and> arg_filter_include_metadata_regex a = None \<and> arg_filter_exclude_metadata_regex a = None
      \<and> arg_filter_include_tag_regex a = None \<and> arg_filter_exclude_tag_regex a = None
      \<and> arg_filter_smaller_size a = None \<and> arg_filter_larger_size a = None"
    and "arg_keep_latest_only a \<Longrightarrow> arg_filter_mtime_before a = None \<and> arg_filter_mtime_after a = None
      \<and> arg_filter_callback_lua_script a = None"
  using assms by (simp_all add: rule_defs, blast)

lemma rules_met_credentials:
  assumes "rules_met a"
  shows "(arg_target_profile a \<noteq> None \<longrightarrow> arg_target_access_key a = None
        \<and> arg_target_secret_access_key a = None \<and> arg_target_session_token a = None)
    \<and> (arg_target_access_key a \<noteq> None \<longleftrightarrow> arg_target_secret_access_key a \<noteq> None)
    \<and> (arg_target_session_token a \<noteq> None \<longrightarrow> arg_target_access_key a \<noteq> None)"
proof -
  have "list_all (rule_met (option_given a)) credential_rules"
    using assms by (simp add: rules_met_def option_rules_def)
  then show ?thesis
    by (cases "arg_target_profile a"; cases "arg_target_access_key a"; cases "arg_target_secret_access_key a")
      (simp_all add: rule_met_def credential_rules_def)
qed


section \<open>The configuration of a command line\<close>

lemma config_try_from_flags:
  assumes "config_try_from al a = Ok cfg"
  shows "dry_run cfg = arg_dry_run a" "force cfg = arg_force a" "if_match cfg = arg_if_match a"
    "delete_all_versions cfg = arg_delete_all_versions a"
    "build_filter_manager al a (lua_vm_memory_limit cfg) = Ok (filter_manager cfg)"
  using assms
  by (auto simp: config_try_from_def Let_def obind_eq_Ok split: option.splits if_splits)

lemma compile_regex_None: "compile_regex al p = Ok r \<Longrightarrow> r = None \<longleftrightarrow> p = None"
  by (auto simp: compile_regex_def split: option.splits if_splits)

lemma parse_size_None: "parse_size_option al l v = Ok r \<Longrightarrow> r = None \<longleftrightarrow> v = None"
  by (cases v) (auto simp: parse_size_option_def obind_eq_Ok elim!: map_err.elims)

lemma build_filter_config_Ok:
  assumes "build_filter_config al a = Ok fc"
  shows "keep_latest_only fc = arg_keep_latest_only a" "delete_marker_only fc = arg_filter_delete_marker_only a"
    "before_time fc = arg_filter_mtime_before a" "after_time fc = arg_filter_mtime_after a"
    "include_content_type_regex fc = None \<longleftrightarrow> arg_filter_include_content_type_regex a = None"
    "exclude_content_type_regex fc = None \<longleftrightarrow> arg_filter_exclude_content_type_regex a = None"
    "include_metadata_regex fc = None \<longleftrightarrow> arg_filter_include_metadata_regex a = None"
    "exclude_metadata_regex fc = None \<longleftrightarrow> arg_filter_exclude_metadata_regex a = None"
    "include_tag_regex fc = None \<longleftrightarrow> arg_filter_include_tag_regex a = None"
    "exclude_tag_regex fc = None \<longleftrightarrow> arg_filter_exclude_tag_regex a = None"
    "larger_size fc = None \<longleftrightarrow> arg_filter_larger_size a = None"
    "smaller_size fc = None \<longleftrightarrow> arg_filter_smaller_size a = None"
proof -
  obtain larger smaller inc exc inc_ct exc_ct inc_md exc_md inc_tag exc_tag where
    parts: "parse_size_option al ''Invalid filter-larger-size: '' (arg_filter_larger_size a) = Ok larger"
      "parse_size_option al ''Invalid filter-smaller-size: '' (arg_filter_smaller_size a) = Ok smaller"
      "compile_regex al (arg_filter_include_content_type_regex a) = Ok inc_ct"
      "compile_regex al (arg_filter_exclude_content_type_regex a) = Ok exc_ct"
      "compile_regex al (arg_filter_include_metadata_regex a) = Ok inc_md"
      "compile_regex al (arg_filter_exclude_metadata_regex a) = Ok exc_md"
      "compile_regex al (arg_filter_include_tag_regex a) = Ok inc_tag"
      "compile_regex al (arg_filter_exclude_tag_regex a) = Ok exc_tag" and
    fc: "fc = \<lparr> before_time = arg_filter_mtime_before a, after_time = arg_filter_mtime_after a,
          include_regex = inc, exclude_regex = exc,
          include_content_type_regex = inc_ct, exclude_content_type_regex = exc_ct,
          include_metadata_regex = inc_md, exclude_metadata_regex = exc_md,
          include_tag_regex = inc_tag, exclude_tag_regex = exc_tag,
          larger_size = larger, smaller_size = smaller,
          keep_latest_only = arg_keep_latest_only a, delete_marker_only = arg_filter_delete_marker_only a \<rparr>"
    using assms unfolding build_filter_config_def obind_eq_Ok by blast
  note none = parts(1,2) [THEN parse_size_None] parts(3-8) [THEN compile_regex_None]
  show "keep_latest_only fc = arg_keep_latest_only a" "delete_marker_only fc = arg_filter_delete_marker_only a"
    "before_time fc = arg_filter_mtime_before a" "after_time fc = arg_filter_mtime_after a"
    "include_content_type_regex fc = None \<longleftrightarrow> arg_filter_include_content_type_regex a = None"
    "exclude_content_type_regex fc = None \<longleftrightarrow> arg_filter_exclude_content_type_regex a = None"
    "include_metadata_regex fc = None \<longleftrightarrow> arg_filter_include_metadata_regex a = None"
    "exclude_metadata_regex fc = None \<longleftrightarrow> arg_filter_exclude_metadata_regex a = None"
    "include_tag_regex fc = None \<longleftrightarrow> arg_filter_include_tag_regex a = None"
    "exclude_tag_regex fc = None \<longleftrightarrow> arg_filter_exclude_tag_regex a = None"
    "larger_size fc = None \<longleftrightarrow> arg_filter_larger_size a = None"
    "smaller_size fc = None \<longleftrightarrow> arg_filter_smaller_size a = None"
    by (simp_all only: fc filter_config.simps none)
qed

text \<open>
  C31: a configuration from the command line passes every check of the prerequisites but the
  confirmation and the versioning of the bucket. With the relations between the options met,
  \<open>check_prerequisites\<close> is the safety check, then the check of the bucket's versioning when all
  versions are to be deleted; the three checks of the combination of options never fail. With JSON logs
  the safety check passes too, without a look at the terminal.
\<close>

theorem command_line_passes_prerequisites:
  assumes "config_try_from al a = Ok cfg" and "rules_met a" and "pl_config pl = cfg"
  shows "check_prerequisites env pl
      = seq (on_sys (check_before_deletion (safety_checker_new env cfg)))
          (seq (if arg_delete_all_versions a then check_versioning env cfg (pl_target pl) else ret ())
             (update (\<lambda>pl. pl\<lparr> pl_prerequisites_checked := True \<rparr>))) pl
    \<and> consistent_config cfg
    \<and> (arg_json_tracing a \<longrightarrow> check_before_deletion (safety_checker_new env cfg) s = (Ok (), s))"
proof -
  note fc = build_filter_config_Ok [OF config_try_from_Ok(2) [OF assms(1)]]
  note flags = config_try_from_flags [OF assms(1)]
  have c: "consistent_config cfg"
    using rules_met_facts [OF assms(2)] by (auto simp: consistent_config_def fc flags)
  then have "check_prerequisites env pl
      = seq (on_sys (check_before_deletion (safety_checker_new env cfg)))
          (seq (if arg_delete_all_versions a then check_versioning env cfg (pl_target pl) else ret ())
             (update (\<lambda>pl. pl\<lparr> pl_prerequisites_checked := True \<rparr>))) pl"
    using flags(4) by (auto simp: check_prerequisites_def bind_def gets_def assms(3) consistent_config_def)
  moreover have "arg_json_tracing a \<longrightarrow> check_before_deletion (safety_checker_new env cfg) s = (Ok (), s)"
    using rules_met_facts(1) [OF assms(2)]
    by (auto simp: check_before_deletion_def safety_checker_new_def flags ret_def)
  ultimately show ?thesis using c by blast
qed

definition marker_args :: cli_args where
  "marker_args = (cli_args_default ''s3://logs/a'')\<lparr> arg_delete_all_versions := True,
     arg_filter_delete_marker_only := True, arg_json_tracing := True, arg_force := True \<rparr>"

lemma marker_args_convert: "\<exists>cfg. config_try_from demo_arg_libs marker_args = Ok cfg"
  by (simp add: config_try_from_def demo_arg_libs_def parse_target_def slice_from_def marker_args_def
      is_char_boundary_def build_filter_config_def parse_size_option_def compile_regex_def
      cli_args_default_def DEFAULT_BATCH_SIZE_def express_batch_size_def parse_human_bytes_def
      check_human_bytes_def build_filter_manager_def build_event_manager_def
      is_express_bucket_def ends_with_def EXPRESS_ONEZONE_STORAGE_SUFFIX_def Let_def)

lemma marker_args_rules: "rules_met marker_args"
  by (simp add: rule_defs marker_args_def cli_args_default_def)

theorem command_line_passes_prerequisites_witness:
  "\<exists>cfg. config_try_from demo_arg_libs marker_args = Ok cfg \<and> consistent_config cfg
     \<and> check_before_deletion (safety_checker_new demo_env cfg) (sys_new [''a'']) = (Ok (), sys_new [''a''])"
proof -
  obtain cfg where c: "config_try_from demo_arg_libs marker_args = Ok cfg"
    using marker_args_convert by blast
  obtain pl :: "string list pipeline" where "pl_config pl = cfg"
    by (metis pipeline.select_convs(1) pipeline.surjective pipeline.update_convs(1))
  from command_line_passes_prerequisites [OF c marker_args_rules this, of demo_env "sys_new [''a'']"] c
  show ?thesis by (auto simp: marker_args_def)
qed



text \<open>
  The credentials of the command line are unambiguous and complete: what is used is all that is
  given, and a static key comes with its secret.
\<close>

theorem command_line_credentials:
  assumes "rules_met a" and "build_client_config a = Some cc"
  shows "case cc_credential cc of
      Profile p \<Rightarrow> arg_target_profile a = Some p \<and> arg_target_access_key a = None
        \<and> arg_target_secret_access_key a = None \<and> arg_target_session_token a = None
    | Credentials k \<Rightarrow> arg_target_profile a = None \<and> arg_target_access_key a = Some (access_key k)
        \<and> arg_target_secret_access_key a = Some (secret_access_key k)
        \<and> arg_target_session_token a = session_token k
    | FromEnvironment \<Rightarrow> arg_target_profile a = None \<and> arg_target_access_key a = None
        \<and> arg_target_secret_access_key a = None \<and> arg_target_session_token a = None"
  using rules_met_credentials [OF assms(1)] assms(2)
  by (cases "arg_target_profile a"; cases "arg_target_access_key a"; cases "arg_target_secret_access_key a";
      cases "arg_target_session_token a") (auto simp: build_client_config_def Let_def unwrap_or_def)

theorem command_line_credentials_witness:
  "\<exists>cc k. build_client_config ((cli_args_default ''s3://logs/a'')\<lparr> arg_target_access_key := Some ''AK'',
       arg_target_secret_access_key := Some ''SK'' \<rparr>) = Some cc
     \<and> cc_credential cc = Credentials k \<and> access_key k = ''AK'' \<and> secret_access_key k = ''SK''"
proof -
  let ?a = "(cli_args_default ''s3://logs/a'')\<lparr> arg_target_access_key := Some ''AK'',
       arg_target_secret_access_key := Some ''SK'' \<rparr>"
  obtain cc where cc: "build_client_config ?a = Some cc" by (simp add: build_client_config_def)
  have "rules_met ?a" by (simp add: rule_defs cli_args_default_def)
  from command_line_credentials [OF this cc] cc show ?thesis
    by (auto simp: cli_args_default_def split: s3_credentials.splits)
qed

end
