(* ===== verification/Client.thy ===== *)
theory Client
  imports Config
begin

text \<open>
  The settings an AWS client is built with (\<open>src/storage/s3/client_builder.rs\<close>): what
  \<open>create_client\<close> hands to the builders of the SDK. The client these build, and how it loads
  profiles and the environment, is the client of the environment.
\<close>

section \<open>What the SDK is given\<close>

datatype profile_file = ProfileConfigFile string | ProfileCredentialsFile string

text \<open>A provider that reads a profile, by default or from the given files.\<close>

record profile_provider =
  pp_files :: "profile_file list option"
  pp_profile_name :: "string option"

datatype credentials_provider =
    StaticCredentials string string "string option"
  | ProfileCredentials profile_provider

datatype region_provider =
    RegionOrDefault "string option"
  | RegionOrProfile "string option" profile_provider

record timeout_config =
  to_operation_timeout :: "u64 option"
  to_operation_attempt_timeout :: "u64 option"
  to_connect_timeout :: "u64 option"
  to_read_timeout :: "u64 option"

record sdk_settings =
  ss_stalled_stream_protection :: bool
  ss_credentials_provider :: "credentials_provider option" \<comment> \<open>\<open>None\<close>: the default chain\<close>
  ss_region_provider :: region_provider
  ss_max_attempts :: u32
  ss_initial_backoff :: u64
  ss_endpoint_url :: "string option"
  ss_force_path_style :: bool
  ss_request_checksum_calculation :: checksum_calculation
  ss_accelerate :: bool
  ss_timeout_config :: "timeout_config option"


section \<open>The builders\<close>

definition profile_files :: "client_config_location \<Rightarrow> profile_file list option" where
  "profile_files loc =
     (if aws_config_file loc \<noteq> None \<or> aws_shared_credentials_file loc \<noteq> None
      then Some ((case aws_config_file loc of Some p \<Rightarrow> [ProfileConfigFile p] | None \<Rightarrow> [])
             @ (case aws_shared_credentials_file loc of Some p \<Rightarrow> [ProfileCredentialsFile p] | None \<Rightarrow> []))
      else None)"

definition load_config_credential :: "client_config \<Rightarrow> credentials_provider option" where
  "load_config_credential cc = (case cc_credential cc of
       Credentials keys \<Rightarrow>
         Some (StaticCredentials (access_key keys) (secret_access_key keys) (session_token keys))
     | Profile name \<Rightarrow>
         Some (ProfileCredentials \<lparr> pp_files = profile_files (cc_client_config_location cc),
                                    pp_profile_name = Some name \<rparr>)
     | FromEnvironment \<Rightarrow> None)"

definition build_region_provider :: "client_config \<Rightarrow> region_provider" where
  "build_region_provider cc =
     (let provider = (case cc_credential cc of
            Profile name \<Rightarrow> \<lparr> pp_files = profile_files (cc_client_config_location cc),
                              pp_profile_name = Some name \<rparr>
          | _ \<Rightarrow> \<lparr> pp_files = None, pp_profile_name = None \<rparr>)
      in if cc_credential cc = FromEnvironment then RegionOrDefault (cc_region cc)
         else RegionOrProfile (cc_region cc) provider)"

definition build_timeout_config :: "client_config \<Rightarrow> timeout_config option" where
  "build_timeout_config cc =
     (let t = cc_cli_timeout_config cc;
          op = operation_timeout_milliseconds t;
          attempt = operation_attempt_timeout_milliseconds t;
          conn = connect_timeout_milliseconds t;
          rd = read_timeout_milliseconds t
      in if op = None \<and> attempt = None \<and> conn = None \<and> rd = None then None
         else Some \<lparr> to_operation_timeout = op, to_operation_attempt_timeout = attempt,
                     to_connect_timeout = conn, to_read_timeout = rd \<rparr>)"

definition create_client :: "client_config \<Rightarrow> sdk_settings" where
  "create_client cc =
     \<lparr> ss_stalled_stream_protection = (\<not> cc_disable_stalled_stream_protection cc),
       ss_credentials_provider = load_config_credential cc,
       ss_region_provider = build_region_provider cc,
       ss_max_attempts = aws_max_attempts (cc_retry_config cc),
       ss_initial_backoff = initial_backoff_milliseconds (cc_retry_config cc),
       ss_endpoint_url = cc_endpoint_url cc,
       ss_force_path_style = cc_force_path_style cc,
       ss_request_checksum_calculation = cc_request_checksum_calculation cc,
       ss_accelerate = cc_accelerate cc,
       ss_timeout_config = build_timeout_config cc \<rparr>"

lemma build_timeout_config_fields:
  "build_timeout_config cc = Some t \<Longrightarrow>
     to_operation_timeout t = operation_timeout_milliseconds (cc_cli_timeout_config cc)
     \<and> to_read_timeout t = read_timeout_milliseconds (cc_cli_timeout_config cc)"
  by (auto simp: build_timeout_config_def Let_def split: if_splits)

text \<open>
  A named profile is the only source of both credentials and region besides an explicit region,
  and both are read from the same files.
\<close>

lemma profile_is_used_throughout:
  "cc_credential cc = Profile name \<Longrightarrow>
     \<exists>p. pp_profile_name p = Some name \<and> load_config_credential cc = Some (ProfileCredentials p)
       \<and> build_region_provider cc = RegionOrProfile (cc_region cc) p"
  by (simp add: load_config_credential_def build_region_provider_def Let_def)

end
