(* ===== verification/Run_Facts.thy ===== *)
theory Run_Facts
  imports Pipeline
begin

text \<open>
  What survives a whole run of the pipeline: the operations of the listing, the filters and the
  workers keep a condition on the shared state (the locale \<open>run_fact\<close>), and so do the stages
  and the run they make up (\<open>pipeline_fact\<close>). Its interpretations give the frame of the events,
  the agreement of the progress channel with the report, and the warning behind every failure.
\<close>

section \<open>The events of a run\<close>

text \<open>Everything between the first and the last events only adds events.\<close>

definition grown :: "event_data list \<Rightarrow> 'w sys \<Rightarrow> bool" where
  "grown es s \<longleftrightarrow> Sublist.prefix es (events s)"

lemma grown_trigger: "grown es s \<Longrightarrow> grown es (trigger_event env em ed s)"
  using trigger_event_events [of env em ed s]
  by (auto simp: grown_def intro: prefix_order.order_trans)

interpretation events_grow: shared_fact "grown es"
  by unfold_locales
    (auto simp: keeps_def grown_trigger,
     auto simp: grown_def is_cancelled_def select_cancelled_def bind_def stage_send_def Let_def
       exec_rate_limit_run split: prod.splits send_env.splits)

context run_fact begin

lemma receive_and_filter_kept [keeps_intros]: "keeps P (receive_and_filter env cfg name f xs)"
  by (induction xs) (auto simp: filter_skip_def intro!: keeps_intros)

lemma execute_filter_kept [keeps_intros]: "keeps P (execute_filter env fm x)"
proof -
  have "keeps P (\<lambda>s. let (r, w) = env_filter_callback env x (world s) in (r, s\<lparr> world := w \<rparr>))"
    by (auto simp: keeps_def world_ok split: prod.splits)
  then show ?thesis by (auto simp: execute_filter_def intro!: keeps_intros)
qed

lemma user_defined_kept [keeps_intros]: "keeps P (user_defined_filter_loop env cfg xs)"
  by (induction xs) (auto simp: user_defined_decision_def user_defined_error_def
      user_defined_skip_def intro!: keeps_intros)

lemma worker_kept [keeps_intros]:
  assumes "\<And>s c. P s \<Longrightarrow> P (s\<lparr> delete_counter := c \<rparr>)"
  shows "keeps P (receive_and_delete st env cfg xs buf)"
proof -
  have "keeps P (update (\<lambda>s. s\<lparr> delete_counter := c \<rparr>))" for c
    by (rule keeps_update) (rule assms)
  then have "keeps P (check_max_delete st env cfg x buf)" for x buf
    by (auto simp: check_max_delete_def exceeded_kept split: option.splits intro!: keeps_intros)
  then have "keeps P (process_object st env cfg x buf)" for x buf
    by (auto simp: process_object_def intro!: keeps_intros)
  then show ?thesis by (induction xs arbitrary: buf) (auto intro!: keeps_intros)
qed

lemma list_page_step_kept: "keeps P (list_page_step st env mode p delim mk cur)"
proof -
  have "keeps P (send_listed_objects env xs)" for xs
    by (induction xs) (auto intro!: keeps_intros)
  moreover have "keeps P (fetch_list_page st env mode p delim mk cur)"
    by (cases mode) (auto simp: fetch_list_page_def Let_def intro!: keeps_intros)
  ultimately show ?thesis
    by (auto simp: list_page_step_def exec_rate_limit_one_def intro!: keeps_intros)
qed

lemma list_sequential_kept:
  "list_sequential_from n st env mode mk cur s = Some (r, s') \<Longrightarrow> P s \<Longrightarrow> P s'"
proof (induction n arbitrary: cur s)
  case (Suc n)
  obtain q s1 where 1: "list_page_step st env mode (st_prefix st) None mk cur s = (q, s1)"
    by fastforce
  from shared_step [OF list_page_step_kept 1 Suc.prems(2)] have "P s1" .
  with 1 Suc show ?case
    by (auto split: outcome.splits option.splits if_splits)
qed simp

lemma run_subtasks_kept:
  assumes "\<And>p s r s'. task p s = Some (r, s') \<Longrightarrow> P s \<Longrightarrow> P s'"
  shows "run_subtasks task env ps s = Some (rs, s') \<Longrightarrow> P s \<Longrightarrow> P s'"
proof (induction ps arbitrary: s rs)
  case (Cons p ps)
  obtain c s0 where c: "is_cancelled env s = (c, s0)" by fastforce
  from shared_step [OF basic(2) c Cons.prems(2)] have "P s0" .
  with Cons c assms show ?case by (auto split: option.splits if_splits)
qed simp

lemma join_subtasks_kept: "keeps P (join_subtasks env mode rs)"
  by (induction env mode rs rule: join_subtasks.induct)
    (auto simp del: seq_run_simps intro!: keeps_intros)

lemma list_with_parallel_kept:
  "list_with_parallel_from n st env mode p mk d cur s = Some (r, s') \<Longrightarrow> P s \<Longrightarrow> P s'"
proof (induction n arbitrary: p d cur s r s')
  case (Suc n)
  obtain q s1 where 1: "list_page_step st env mode p (parallel_delimiter st d) mk cur s = (q, s1)"
    by fastforce
  from shared_step [OF list_page_step_kept 1 Suc.prems(2)] have P1: "P s1" .
  show ?case
  proof (cases "\<exists>page. q = Ok (Some page)")
    case False
    with 1 P1 Suc.prems show ?thesis by (auto split: outcome.splits option.splits)
  next
    case True
    then obtain page where q: "q = Ok (Some page)" by blast
    from Suc.prems(1) 1 q obtain rs s2 where
      2: "run_subtasks (\<lambda>sub. list_with_parallel_from n st env mode (effective_prefix st sub) mk
            (Suc d) cursor_start) env (lp_sub_prefixes page) s1 = Some (rs, s2)"
      by (auto split: option.splits)
    have P2: "P s2" by (rule run_subtasks_kept [OF Suc.IH 2 P1])
    obtain j s3 where 3: "join_subtasks env mode rs s2 = (j, s3)" by fastforce
    from shared_step [OF join_subtasks_kept 3 P2] have "P s3" .
    with Suc.prems(1) 1 q 2 3 Suc.IH show ?thesis
      by (auto split: outcome.splits if_splits)
  qed
qed simp

lemma list_dispatch_kept:
  "list_dispatch n st env mode mk s = Some (r, s') \<Longrightarrow> P s \<Longrightarrow> P s'"
  by (auto simp: list_dispatch_def list_with_parallel_def list_sequential_def
      dest: list_with_parallel_kept list_sequential_kept split: if_splits option.splits)

end

text \<open>
  A condition on the shared state that also survives what the pipeline does between the stages:
  emptying a channel and making a fresh counter. It survives a whole run.
\<close>

locale pipeline_fact = run_fact P for P :: "'w sys \<Rightarrow> bool" +
  assumes sent_ok: "P s \<Longrightarrow> P (s\<lparr> sent := xs \<rparr>)"
    and counter_ok: "P s \<Longrightarrow> P (s\<lparr> delete_counter := c \<rparr>)"
begin

lemma cancel_ok: "P s \<Longrightarrow> P (s\<lparr> cancelled := True \<rparr>)"
  using basic(1) by (auto simp: keeps_def)

lemma join_kept:
  "P (pl_sys pl) \<Longrightarrow> P (pl_sys (join_stage env label r pl))"
  "P (pl_sys pl) \<Longrightarrow> P (pl_sys (join_worker env r pl))"
  by (auto simp: join_stage_def join_worker_def record_error_def cancel_ok split: outcome.splits)

lemma stage_kept:
  assumes "keeps P m" and "P (pl_sys pl)"
  shows "P (pl_sys (snd (run_stage env label m pl)))"
proof -
  obtain r s where m: "m ((pl_sys pl)\<lparr> sent := [] \<rparr>) = (r, s)" by fastforce
  from shared_step [OF assms(1) m sent_ok [OF assms(2)]] m show ?thesis
    by (simp add: run_stage_def join_kept)
qed

lemma filters_kept: "P (pl_sys pl) \<Longrightarrow> P (pl_sys (snd (run_filters env c fs xs pl)))"
proof (induction env c fs xs pl rule: run_filters.induct)
  case (2 env c name f fs xs pl)
  obtain ys pl1 where 1: "run_stage env ''filter task panicked: ''
      (receive_and_filter env c name f xs) pl = (ys, pl1)" by fastforce
  with stage_kept [OF receive_and_filter_kept "2.prems", of env "''filter task panicked: ''" env c name f xs]
  have "P (pl_sys pl1)" by simp
  with "2.IH" [OF 1 [symmetric]] 1 show ?case by simp
qed simp

lemma filter_objects_kept:
  assumes "P (pl_sys pl)"
  shows "P (pl_sys (snd (filter_objects env xs pl)))"
proof -
  obtain ys pl1 where f: "run_filters env (pl_config pl) (filter_stages (pl_config pl)) xs pl = (ys, pl1)"
    by fastforce
  with filters_kept [OF assms, of env "pl_config pl" "filter_stages (pl_config pl)" xs]
  have "P (pl_sys pl1)" by simp
  with f show ?thesis by (simp add: filter_objects_def Let_def stage_kept user_defined_kept)
qed

lemma run_workers_kept: "P (pl_sys pl) \<Longrightarrow> P (pl_sys (run_workers n env xs pl))"
proof (induction n arbitrary: xs pl)
  case (Suc n)
  obtain r s where m: "object_deleter_delete (pl_target pl) env (pl_config pl) xs (pl_sys pl) = (r, s)"
    by fastforce
  have "keeps P (object_deleter_delete (pl_target pl) env (pl_config pl) xs)"
    unfolding object_deleter_delete_def by (rule worker_kept) (rule counter_ok)
  from shared_step [OF this m Suc.prems] m Suc.IH show ?case
    by (simp add: run_worker_def join_kept)
qed simp

lemma list_target_kept:
  "list_target n env pl = Some (xs, pl1) \<Longrightarrow> P (pl_sys pl) \<Longrightarrow> P (pl_sys pl1)"
  by (auto simp: list_target_def Let_def list_objects_def list_object_versions_def
      split: option.splits if_splits dest!: list_dispatch_kept intro!: join_kept intro: sent_ok)

lemma execute_kept:
  assumes "execute_pipeline n env pl = Some pl'" and "P (pl_sys pl)"
  shows "P (pl_sys pl')"
proof -
  from assms(1) obtain xs pl1 where l: "list_target n env pl = Some (xs, pl1)"
    by (auto simp: execute_pipeline_def split: option.splits)
  obtain zs pl2 where o: "filter_objects env xs pl1 = (zs, pl2)" by fastforce
  with filter_objects_kept [OF list_target_kept [OF l assms(2)], of env xs] have "P (pl_sys pl2)" by simp
  then have "P (pl_sys (terminate (pipeline_delete_objects env zs pl2)))"
    by (simp add: pipeline_delete_objects_def terminate_def sent_ok counter_ok run_workers_kept)
  with assms(1) l o show ?thesis by (auto simp: execute_pipeline_def Let_def split: if_splits)
qed

lemma prerequisites_kept: "keeps (\<lambda>pl. P (pl_sys pl)) (check_prerequisites env)"
proof -
  have safe: "keeps P (check_before_deletion (safety_checker_new env cfg))" for cfg
    using stdio.check_changes_only_the_world [of "safety_checker_new env cfg" env]
    by (metis keeps_def snd_conv with_prompt_handler_handler(2) world_ok)
  have ver: "keeps P (is_versioning_enabled st env)" for st
    by (auto simp: is_versioning_enabled_def intro!: keeps_intros)
  let ?P = "\<lambda>pl. P (pl_sys pl)"
  have o: "keeps ?P (on_sys m)" if "keeps P m" for m :: "('w sys, unit) prog"
    using that by (auto simp: keeps_def on_sys_def split: prod.splits)
  have o': "keeps ?P (on_sys m)" if "keeps P m" for m :: "('w sys, bool) prog"
    using that by (auto simp: keeps_def on_sys_def split: prod.splits)
  have "keeps ?P (update (\<lambda>pl. pl\<lparr> pl_config := c \<rparr>))"
    "keeps ?P (update (\<lambda>pl. pl\<lparr> pl_prerequisites_checked := True \<rparr>))" for c
    by (auto intro!: keeps_update)
  then show ?thesis
    unfolding check_prerequisites_def check_versioning_def by (intro keeps_intros o o' safe ver)
qed

lemma trigger_kept: "P (pl_sys pl) \<Longrightarrow> P (pl_sys (pl_trigger env ed pl))"
  using basic(8) [of env "pl_config pl" ed] by (simp add: keeps_def trigger_def pl_trigger_def)

lemma finish_kept:
  assumes "P (pl_sys (close_stats_sender pl))"
  shows "P (pl_sys (run_finish env pl))"
proof -
  have "P (snd (is_cancelled env s))" if "P s" for s using basic(2) that by (simp add: keeps_def)
  then have look: "P (pl_sys (p\<lparr> pl_sys := snd (is_cancelled env (pl_sys p)) \<rparr>))" if "P (pl_sys p)" for p
    using that by simp
  from assms show ?thesis
    unfolding run_finish_def fire_completion_events_def Let_def split_beta
    by (cases "pl_has_error (close_stats_sender pl)") (auto intro!: trigger_kept look)
qed

text \<open>A run up to its completion: what holds before holds when the statistics are closed.\<close>

lemma run_kept:
  assumes "run n env pl = Some (Ok (), pl')" and "pl_ready pl" and "P (pl_sys pl)"
  obtains pl3 where "pl' = run_finish env pl3" and "P (pl_sys pl3)"
proof -
  let ?pl1 = "pl_trigger env (event_data_new PIPELINE_START) (pl\<lparr> pl_ready := False \<rparr>)"
  have p1: "P (pl_sys ?pl1)" using assms(3) by (simp add: trigger_kept)
  obtain q pl2 where q: "(if pl_prerequisites_checked ?pl1 then (Ok (), ?pl1)
      else check_prerequisites env ?pl1) = (q, pl2)" by fastforce
  with p1 keepsD [OF prerequisites_kept p1] have p2: "P (pl_sys pl2)" by (auto split: if_splits)
  from assms(1,2) q p2 that execute_kept show ?thesis
    by (cases q) (auto simp: run_def Let_def split: option.splits)
qed

end

interpretation run_grows: pipeline_fact "grown es"
  by unfold_locales (simp_all add: grown_def)

text \<open>The progress messages say what the report says, as long as the channel is open.\<close>

fun is_complete :: "deletion_statistics \<Rightarrow> bool" where
  "is_complete (DeleteComplete k) = True"
| "is_complete d = False"

fun bytes_of :: "deletion_statistics \<Rightarrow> u64" where
  "bytes_of (DeleteBytes n) = n"
| "bytes_of d = 0"

definition messages_match :: "deletion_statistics list \<Rightarrow> stats_report \<Rightarrow> bool" where
  "messages_match ms r \<longleftrightarrow> of_nat (length (filter is_complete ms)) = sr_deleted_objects r
     \<and> sum_list (map bytes_of ms) = sr_deleted_bytes r"

definition progress_told :: "'w sys \<Rightarrow> bool" where
  "progress_told s \<longleftrightarrow> \<not> stats_closed s \<and> messages_match (stats_channel s) (report s)"

lemma progress_told_frame:
  "stats_closed s' = stats_closed s \<Longrightarrow> stats_channel s' = stats_channel s \<Longrightarrow> report s' = report s \<Longrightarrow>
     progress_told s' = progress_told s"
  by (simp add: progress_told_def)

lemma progress_told_trigger [simp]: "progress_told (trigger_event env em ed s) = progress_told s"
  by (rule progress_told_frame) simp_all

lemma record_deleted_told: "keeps progress_told (record_deleted env cfg lookup dk)"
  by (auto simp: keeps_def record_deleted_def trigger_def bind_def seq_def lift_def panic_def throw_def
      progress_told_def messages_match_def increment_deleted_def split: outcome.splits)

interpretation told: pipeline_fact progress_told
proof
  show "keeps progress_told (record_deleted env cfg lookup dk)" for env :: "'a env" and cfg lookup dk
    by (rule record_deleted_told)
  have f: "keeps progress_told (record_failed env cfg fk)" for env :: "'a env" and cfg fk
    by (auto simp: keeps_def record_failed_def trigger_def progress_told_def messages_match_def
        increment_failed_def)
  have w: "keeps progress_told set_warning" by (simp add: keeps_def progress_told_def)
  show "keeps progress_told (seq (for_each (record_failed env cfg) fs) set_warning)"
    for env :: "'a env" and cfg fs
    by (intro keeps_seq keeps_for_each f w)
qed (auto simp: keeps_def trigger_def, auto simp: progress_told_def messages_match_def is_cancelled_def
   select_cancelled_def bind_def stage_send_def Let_def exec_rate_limit_run
   split: prod.splits send_env.splits)

text \<open>Every failure is followed by the warning.\<close>

definition failures_warned :: "'w sys \<Rightarrow> bool" where
  "failures_warned s \<longleftrightarrow> has_warning s \<or> sr_failed_objects (report s) = 0"

lemma failures_warned_trigger [simp]:
  "failures_warned (trigger_event env em ed s) = failures_warned s"
  by (simp add: failures_warned_def)

lemma record_failed_Ok: "fst (for_each (record_failed env cfg) fs s) = Ok ()"
  by (induction fs arbitrary: s) (simp_all add: record_failed_def trigger_def seq_assoc)

interpretation warned: pipeline_fact failures_warned
proof
  show "keeps failures_warned (record_deleted env cfg lookup dk)" for env :: "'a env" and cfg lookup dk
    by (auto simp: keeps_def record_deleted_def trigger_def bind_def seq_def lift_def panic_def throw_def
      failures_warned_def increment_deleted_def split: outcome.splits)
  show "keeps failures_warned (seq (for_each (record_failed env cfg) fs) set_warning)"
    for env :: "'a env" and cfg fs
    using record_failed_Ok [of env cfg fs]
    by (auto simp: keeps_def seq_def bind_def failures_warned_def split: prod.splits outcome.splits)
       (metis fst_conv outcome.distinct(1,3))+
qed (auto simp: keeps_def trigger_def, auto simp: failures_warned_def is_cancelled_def
   select_cancelled_def bind_def stage_send_def Let_def exec_rate_limit_run
   split: prod.splits send_env.splits)

text \<open>The configuration, which the stages only read.\<close>

lemma config_join [simp]:
  "pl_config (join_stage env label r pl) = pl_config pl"
  "pl_config (join_worker env r pl) = pl_config pl"
  by (simp_all add: join_stage_def join_worker_def split: outcome.splits)

lemma config_stage: "pl_config (snd (run_stage env label m pl)) = pl_config pl"
  by (simp add: run_stage_def split: prod.splits)

lemma config_filters: "pl_config (snd (run_filters env cfg fs xs pl)) = pl_config pl"
proof (induction env cfg fs xs pl rule: run_filters.induct)
  case (2 env cfg name f fs xs pl)
  then show ?case using config_stage [of env "''filter task panicked: ''"
      "receive_and_filter env cfg name f xs" pl] by (auto split: prod.splits)
qed simp

lemma config_filter_objects: "pl_config (snd (filter_objects env xs pl)) = pl_config pl"
  using config_filters [of env "pl_config pl" "filter_stages (pl_config pl)" xs pl]
  by (auto simp: filter_objects_def Let_def config_stage split: prod.splits)

lemma config_workers: "pl_config (run_workers n env xs pl) = pl_config pl"
  by (induction n arbitrary: xs pl) (simp_all add: run_worker_def split: prod.splits)

lemma config_execute:
  assumes "execute_pipeline n env pl = Some pl'"
  shows "pl_config pl' = pl_config pl"
proof -
  from assms obtain xs pl1 where l: "list_target n env pl = Some (xs, pl1)"
    by (auto simp: execute_pipeline_def split: option.splits)
  obtain zs pl2 where o: "filter_objects env xs pl1 = (zs, pl2)" by fastforce
  with l config_filter_objects [of env xs pl1] have "pl_config pl2 = pl_config pl"
    by (auto simp: list_target_def Let_def split: option.splits)
  with assms l o show ?thesis
    by (auto simp: execute_pipeline_def Let_def terminate_def pipeline_delete_objects_def
        config_workers split: if_splits)
qed


section \<open>The order of the events\<close>

lemma check_prerequisites_Err:
  assumes "check_prerequisites env pl = (Err e, pl')"
  shows "pl_config pl' = pl_config pl"
  using assms
  by (auto simp: check_prerequisites_def check_versioning_def bind_def seq_def gets_def on_sys_def
      throw_def ret_def split: prod.splits outcome.splits if_splits)

definition hears_everything :: "config \<Rightarrow> bool" where
  "hears_everything cfg \<longleftrightarrow> em_callback_registered (event_manager cfg)
     \<and> em_event_flags (event_manager cfg) = ALL_EVENTS"

lemma check_prerequisites_hears:
  assumes "check_prerequisites env pl = (q, pl')" and "\<not> is_panic q" and "hears_everything (pl_config pl)"
  shows "hears_everything (pl_config pl')"
proof (cases q)
  case (Ok u)
  with assms(1) have "pl_config pl' = pl_config pl
      \<or> pl_config pl' = (pl_config pl)\<lparr> delete_all_versions := False \<rparr>"
    using check_prerequisites_Ok [of env pl pl'] by auto
  with assms(3) show ?thesis by (auto simp: hears_everything_def)
next
  case (Err e)
  with assms check_prerequisites_Err [of env pl e pl'] show ?thesis by simp
qed (use assms(2) in simp)

definition event_types :: "'w pipeline \<Rightarrow> event_type list" where
  "event_types pl = map ed_event_type (events (pl_sys pl))"

lemma event_types_trigger:
  assumes "hears_everything (pl_config pl)"
  shows "event_types (pl_trigger env ed pl) = event_types pl @ [ed_event_type ed]
     @ (if ed_event_type ed = PIPELINE_END then [STATS_REPORT] else [])"
  using assms trigger_event_events [of env "event_manager (pl_config pl)" ed "pl_sys pl"]
  by (auto simp: event_types_def pl_trigger_def hears_everything_def delivered_types_def)

lemma completion_event_types:
  assumes "hears_everything (pl_config pl)"
  shows "event_types (run_finish env pl) = event_types pl
     @ (if pl_has_error pl then [PIPELINE_ERROR] else [])
     @ (if cancelled (pl_sys (run_finish env pl)) then [DELETE_CANCEL] else [])
     @ [PIPELINE_END, STATS_REPORT]"
proof -
  let ?pl0 = "close_stats_sender pl"
  let ?pl1 = "if pl_has_error ?pl0 then pl_trigger env ((event_data_new PIPELINE_ERROR)
       \<lparr> ed_message := Some (case unwrap_or (get_error_messages ?pl0) [] of
          m # _ \<Rightarrow> m | [] \<Rightarrow> ''Unknown error'') \<rparr>) ?pl0 else ?pl0"
  obtain w c where c: "is_cancelled env (pl_sys ?pl1)
      = (Ok c, (pl_sys ?pl1)\<lparr> world := w, cancelled := c \<rparr>)" by (rule is_cancelled_cases)
  let ?pl2 = "?pl1\<lparr> pl_sys := (pl_sys ?pl1)\<lparr> world := w, cancelled := c \<rparr> \<rparr>"
  let ?pl3 = "if c then pl_trigger env ((event_data_new DELETE_CANCEL)
       \<lparr> ed_message := Some ''Pipeline was cancelled'' \<rparr>) ?pl2 else ?pl2"
  have fin: "run_finish env pl = pl_trigger env (event_data_new PIPELINE_END) ?pl3"
    using c by (simp add: run_finish_def fire_completion_events_def Let_def)
  have t0: "event_types ?pl0 = event_types pl" "hears_everything (pl_config ?pl0)"
    "pl_has_error ?pl0 = pl_has_error pl"
    using assms by (simp_all add: close_stats_sender_def event_types_def)
  have t1: "event_types ?pl1 = event_types pl @ (if pl_has_error pl then [PIPELINE_ERROR] else [])"
    "hears_everything (pl_config ?pl1)"
    using t0 by (simp_all add: event_types_trigger event_types_numerals)
  have t2: "event_types ?pl2 = event_types ?pl1" "hears_everything (pl_config ?pl2)"
    using t1(2) by (simp_all add: event_types_def)
  have t3: "event_types ?pl3 = event_types ?pl2 @ (if c then [DELETE_CANCEL] else [])"
    "hears_everything (pl_config ?pl3)"
    using t2(2) by (simp_all add: event_types_trigger event_types_numerals)
  have "cancelled (pl_sys (run_finish env pl)) = c"
    unfolding fin by (simp add: pl_trigger_def)
  then show ?thesis
    unfolding fin using event_types_trigger [OF t3(2)] t1 t2 t3 by simp
qed


definition demo_heard :: config where
  "demo_heard = demo_config\<lparr> force := False,
     event_manager := em_register_callback ALL_EVENTS False event_manager_new \<rparr>"



section \<open>No cancellation among the errors of a run\<close>

text \<open>
  The errors a run records are never the cancellation error: no stage ends with it, and the
  workers that did would be passed over.
\<close>

definition no_cancel_result :: "(anyhow, 'a) outcome \<Rightarrow> bool" where
  "no_cancel_result r \<longleftrightarrow> (\<forall>e. r = Err e \<longrightarrow> \<not> is_cancelled_error e)"

lemma no_cancel_result_simps [simp]:
  "no_cancel_result (Ok a)" "no_cancel_result (Panic m)"
  "no_cancel_result (Err e) \<longleftrightarrow> \<not> is_cancelled_error e"
  by (simp_all add: no_cancel_result_def)

lemma no_cancelD: "no_cancel m \<Longrightarrow> m s = (r, s') \<Longrightarrow> no_cancel_result r"
  by (auto simp: no_cancel_def no_cancel_result_def)

lemma message_not_cancelled [simp]: "\<not> is_cancelled_error (Message t)"
  by (simp add: is_cancelled_error_def)

lemma no_cancel_page_step: "no_cancel (list_page_step st env mode p delim mk cur)"
proof -
  have "no_cancel (send_listed_objects env xs)" for xs
    by (induction xs) (auto intro!: no_cancel_intros)
  moreover have "no_cancel (fetch_list_page st env mode p delim mk cur)"
    by (cases mode) (auto simp: fetch_list_page_def Let_def intro!: no_cancel_intros)
  ultimately show ?thesis
    by (auto simp: list_page_step_def exec_rate_limit_one_def intro!: no_cancel_intros)
qed

lemma no_cancel_next_cursor: "no_cancel_result (next_cursor st p mode page cur)"
  by (cases mode) (auto simp: next_cursor_def Let_def)

lemma no_cancel_join_subtasks:
  "list_all no_cancel_result rs \<Longrightarrow> no_cancel_result (fst (join_subtasks env mode rs s))"
  by (induction env mode rs rule: join_subtasks.induct) auto

lemma no_cancel_run_subtasks:
  assumes "\<And>p s r s'. task p s = Some (r, s') \<Longrightarrow> no_cancel_result r"
  shows "run_subtasks task env ps s = Some (rs, s') \<Longrightarrow> list_all no_cancel_result rs"
proof (induction ps arbitrary: s rs)
  case (Cons p ps)
  then show ?case
    by (auto split: option.splits if_splits prod.splits dest!: assms)
qed simp

lemma no_cancel_list_sequential:
  "list_sequential_from n st env mode mk cur s = Some (r, s') \<Longrightarrow> no_cancel_result r"
proof (induction n arbitrary: cur s)
  case (Suc n)
  obtain q s1 where 1: "list_page_step st env mode (st_prefix st) None mk cur s = (q, s1)"
    by fastforce
  with no_cancelD [OF no_cancel_page_step 1] Suc no_cancel_next_cursor show ?case
    by (auto simp: no_cancel_result_def split: outcome.splits option.splits if_splits)
qed simp

lemma no_cancel_list_parallel:
  "list_with_parallel_from n st env mode p mk d cur s = Some (r, s') \<Longrightarrow> no_cancel_result r"
proof (induction n arbitrary: p d cur s r s')
  case (Suc n)
  obtain q s1 where 1: "list_page_step st env mode p (parallel_delimiter st d) mk cur s = (q, s1)"
    by fastforce
  from no_cancelD [OF no_cancel_page_step 1] have q1: "no_cancel_result q" .
  show ?case
  proof (cases "\<exists>page. q = Ok (Some page)")
    case False
    with 1 q1 Suc.prems show ?thesis by (auto split: outcome.splits option.splits)
  next
    case True
    then obtain page where q: "q = Ok (Some page)" by blast
    from Suc.prems(1) 1 q obtain rs s2 where
      2: "run_subtasks (\<lambda>sub. list_with_parallel_from n st env mode (effective_prefix st sub) mk
            (Suc d) cursor_start) env (lp_sub_prefixes page) s1 = Some (rs, s2)"
      by (auto split: option.splits)
    have rs: "list_all no_cancel_result rs" by (rule no_cancel_run_subtasks [OF Suc.IH 2])
    obtain j s3 where 3: "join_subtasks env mode rs s2 = (j, s3)" by fastforce
    with no_cancel_join_subtasks [OF rs, of env mode s2] have j: "no_cancel_result j" by simp
    with Suc.prems(1) 1 q 2 3 Suc.IH no_cancel_next_cursor [of st p mode page cur] show ?thesis
      by (auto split: outcome.splits if_splits)
  qed
qed simp

lemma no_cancel_map_context: "no_cancel_result r \<Longrightarrow> no_cancel_result (map_err (Context c) r)"
  by (cases r) auto

lemma no_cancel_list_dispatch:
  "list_dispatch n st env mode mk s = Some (r, s') \<Longrightarrow> no_cancel_result r"
  by (auto simp: list_dispatch_def list_with_parallel_def list_sequential_def
      intro!: no_cancel_map_context dest: no_cancel_list_parallel no_cancel_list_sequential
      split: if_splits option.splits)

lemma no_cancel_filter:
  assumes "object_filter f passes"
  shows "no_cancel (receive_and_filter env cfg name f xs)"
  using object_filter.pred_no_error [OF assms]
  by (induction xs) (auto simp: filter_skip_def filtered_event_not_Err intro!: no_cancel_intros)

lemma no_cancel_user_defined: "no_cancel (user_defined_filter_loop env cfg xs)"
proof -
  have e: "no_cancel (user_defined_error env cfg e)" for e
    by (auto simp: user_defined_error_def intro!: no_cancel_intros)
  then have d: "no_cancel (user_defined_decision env cfg x)" for x
    unfolding no_cancel_def user_defined_decision_def
    by (auto simp: catch_def split: prod.splits outcome.splits if_splits)
  then show ?thesis
    by (induction xs) (auto simp: user_defined_skip_def filtered_event_not_Err
        intro!: no_cancel_intros d)
qed

definition uncancelled :: "'w pipeline \<Rightarrow> bool" where
  "uncancelled pl \<longleftrightarrow> list_all (\<lambda>e. \<not> is_cancelled_error e) (pl_errors pl)"

lemma uncancelled_update [simp]:
  "uncancelled (pl\<lparr> pl_sys := s \<rparr>) = uncancelled pl"
  "uncancelled (pl\<lparr> pl_has_panic := b \<rparr>) = uncancelled pl"
  "uncancelled (pl\<lparr> pl_ready := b \<rparr>) = uncancelled pl"
  "uncancelled (record_error e pl) \<longleftrightarrow> uncancelled pl \<and> \<not> is_cancelled_error e"
  "uncancelled (pl_trigger env ed pl) = uncancelled pl"
  "uncancelled (run_finish env pl) = uncancelled pl"
  by (auto simp: uncancelled_def record_error_def)

lemma uncancelled_join:
  "uncancelled pl \<Longrightarrow> no_cancel_result r \<Longrightarrow> uncancelled (join_stage env label r pl)"
  "uncancelled pl \<Longrightarrow> uncancelled (join_worker env r' pl)"
  by (auto simp: join_stage_def join_worker_def split: outcome.splits)

lemma uncancelled_stage:
  "no_cancel m \<Longrightarrow> uncancelled pl \<Longrightarrow> uncancelled (snd (run_stage env label m pl))"
  by (auto simp: run_stage_def split: prod.splits intro!: uncancelled_join dest: no_cancelD)

lemma uncancelled_filters:
  "contracted fs \<Longrightarrow> uncancelled pl \<Longrightarrow> uncancelled (snd (run_filters env cfg fs xs pl))"
proof (induction env cfg fs xs pl rule: run_filters.induct)
  case (2 env cfg name f fs xs pl)
  then obtain passes where f: "object_filter f passes" by (auto simp: contracted_def)
  obtain ys pl1 where 1: "run_stage env ''filter task panicked: ''
      (receive_and_filter env cfg name f xs) pl = (ys, pl1)" by fastforce
  with uncancelled_stage [OF no_cancel_filter [OF f] "2.prems"(2),
      of env "''filter task panicked: ''" env cfg name xs]
  have "uncancelled pl1" by simp
  with "2.IH" [OF 1 [symmetric]] 1 "2.prems"(1) show ?case by (simp add: contracted_def)
qed simp

lemma uncancelled_filter_objects:
  assumes "uncancelled pl"
  shows "uncancelled (snd (filter_objects env xs pl))"
proof -
  obtain ys pl1 where f: "run_filters env (pl_config pl) (filter_stages (pl_config pl)) xs pl = (ys, pl1)"
    by fastforce
  with uncancelled_filters [OF filter_stages_contracted assms, of env "pl_config pl" "pl_config pl" xs]
  have "uncancelled pl1" by simp
  with f show ?thesis by (simp add: filter_objects_def Let_def uncancelled_stage no_cancel_user_defined)
qed

lemma uncancelled_workers: "uncancelled pl \<Longrightarrow> uncancelled (run_workers n env xs pl)"
  by (induction n arbitrary: xs pl)
    (simp_all add: run_worker_def uncancelled_join split: prod.splits)

lemma uncancelled_execute:
  assumes "execute_pipeline n env pl = Some pl'" and "uncancelled pl"
  shows "uncancelled pl'"
proof -
  from assms(1) obtain xs pl1 where l: "list_target n env pl = Some (xs, pl1)"
    by (auto simp: execute_pipeline_def split: option.splits)
  then have 1: "uncancelled pl1" using assms(2)
    by (auto simp: list_target_def Let_def list_objects_def list_object_versions_def
        split: option.splits if_splits dest!: no_cancel_list_dispatch intro!: uncancelled_join)
  obtain zs pl2 where o: "filter_objects env xs pl1 = (zs, pl2)" by fastforce
  with uncancelled_filter_objects [OF 1, of env xs] have "uncancelled pl2" by simp
  then have "uncancelled (terminate (pipeline_delete_objects env zs pl2))"
    by (simp add: pipeline_delete_objects_def terminate_def uncancelled_workers)
  with assms(1) l o show ?thesis by (auto simp: execute_pipeline_def Let_def split: if_splits)
qed

end
