(* ===== verification/Cli.thy ===== *)
theory Cli
  imports Run_Facts
begin

text \<open>
  The command line program (\<open>src/bin/s3rm/\<close>) around the library: what is shown
  (\<open>ui_config.rs\<close>), the progress task (\<open>indicator.rs\<close>), the Ctrl+C handler, the writers that
  survive a closed pipe, the set-up of the log output, and \<open>main.rs\<close> with its exit statuses.
\<close>

section \<open>What is shown\<close>

definition is_progress_indicator_needed :: "config \<Rightarrow> bool" where
  "is_progress_indicator_needed cfg =
     (if show_no_progress cfg then False
      else case tracing_config cfg of
        None \<Rightarrow> True
      | Some tc \<Rightarrow> if LWarn < tc_tracing_level tc then False else \<not> tc_json_tracing tc)"

definition is_show_result_needed :: "config \<Rightarrow> bool" where
  "is_show_result_needed cfg =
     (if show_no_progress cfg then False
      else case tracing_config cfg of
        None \<Rightarrow> True
      | Some tc \<Rightarrow> \<not> tc_json_tracing tc)"


section \<open>The progress task\<close>

record indicator_summary =
  total_delete_count :: u64
  total_delete_bytes :: u64
  total_error_count :: u64
  total_skip_count :: u64

definition summary_zero :: indicator_summary where
  "summary_zero = \<lparr> total_delete_count = 0, total_delete_bytes = 0, total_error_count = 0,
     total_skip_count = 0 \<rparr>"

text \<open>
  How the display crate writes numbers in a field of three characters, how it writes a duration
  in seconds, and the moving average over the samples added so far.
\<close>

record display_libs =
  dl_human_count :: "u64 \<Rightarrow> string"
  dl_human_bytes :: "u64 \<Rightarrow> string"
  dl_human_duration :: "f64 \<Rightarrow> string"
  dl_average :: "u64 list \<Rightarrow> u64"

text \<open>
  One turn of the inner loop: the messages \<open>try_recv\<close> yields until it finds the channel empty,
  then whether the refresh interval is over, then whether the channel is closed, and the time
  since the start.
\<close>

record poll =
  po_received :: "deletion_statistics list"
  po_period_over :: bool
  po_closed :: bool
  po_elapsed :: f64

record indicator =
  in_totals :: indicator_summary
  in_period_count :: u64
  in_samples :: "u64 list"
  in_messages :: "string list"

definition indicator_start :: indicator where
  "indicator_start = \<lparr> in_totals = summary_zero, in_period_count = 0, in_samples = [], in_messages = [] \<rparr>"

fun count_statistic :: "deletion_statistics \<Rightarrow> indicator \<Rightarrow> indicator" where
  "count_statistic (DeleteComplete k) ind =
     ind\<lparr> in_period_count := in_period_count ind + 1,
          in_totals := (in_totals ind)\<lparr> total_delete_count := total_delete_count (in_totals ind) + 1 \<rparr> \<rparr>"
| "count_statistic (DeleteBytes n) ind =
     ind\<lparr> in_totals := (in_totals ind)\<lparr> total_delete_bytes := total_delete_bytes (in_totals ind) + n \<rparr> \<rparr>"
| "count_statistic (DeleteError k) ind =
     ind\<lparr> in_totals := (in_totals ind)\<lparr> total_error_count := total_error_count (in_totals ind) + 1 \<rparr> \<rparr>"
| "count_statistic (DeleteSkip k) ind =
     ind\<lparr> in_totals := (in_totals ind)\<lparr> total_skip_count := total_skip_count (in_totals ind) + 1 \<rparr> \<rparr>"

definition objects_per_sec :: "libs \<Rightarrow> bool \<Rightarrow> f64 \<Rightarrow> u64 \<Rightarrow> u64" where
  "objects_per_sec lib dry elapsed deleted =
     (if dry then 0
      else if f64_less lib elapsed f64_one then deleted
      else f64_to_u64 lib (f64_div lib (f64_of_u64 lib deleted) elapsed))"

definition pad_left :: "nat \<Rightarrow> string \<Rightarrow> string" where
  "pad_left n s = replicate (n - length s) (CHR '' '') @ s"

definition totals_text :: "display_libs \<Rightarrow> u64 \<Rightarrow> indicator_summary \<Rightarrow> string" where
  "totals_text dl rate t =
     ''deleted '' @ pad_left 3 (show_word (total_delete_count t)) @ '' objects | ''
     @ dl_human_count dl rate @ '' objects/sec,  skipped '' @ show_word (total_skip_count t)
     @ '' objects,  error '' @ show_word (total_error_count t) @ '' objects,  deleted ''
     @ dl_human_bytes dl (total_delete_bytes t)"

text \<open>The end of a period: a sample for the average, a message on the progress line.\<close>

definition end_period :: "display_libs \<Rightarrow> bool \<Rightarrow> bool \<Rightarrow> indicator \<Rightarrow> indicator" where
  "end_period dl show_progress dry ind =
     (let samples = (if dry then in_samples ind else in_samples ind @ [in_period_count ind]) in
      ind\<lparr> in_samples := samples, in_period_count := 0,
           in_messages := (if show_progress
             then in_messages ind @ [totals_text dl (dl_average dl samples) (in_totals ind)]
             else in_messages ind) \<rparr>)"

definition final_summary ::
  "libs \<Rightarrow> display_libs \<Rightarrow> bool \<Rightarrow> bool \<Rightarrow> f64 \<Rightarrow> indicator \<Rightarrow> indicator_summary \<times> indicator" where
  "final_summary lib dl show_result dry elapsed ind =
     (let rate = objects_per_sec lib dry elapsed (total_delete_count (in_totals ind)) in
      (in_totals ind,
       if show_result
       then ind\<lparr> in_messages := in_messages ind
              @ [totals_text dl rate (in_totals ind) @ '',  duration '' @ dl_human_duration dl elapsed] \<rparr>
       else ind))"

text \<open>\<open>None\<close>: the polls are used up and the channel was not seen closed.\<close>

fun show_indicator ::
  "libs \<Rightarrow> display_libs \<Rightarrow> bool \<Rightarrow> bool \<Rightarrow> bool \<Rightarrow> poll list \<Rightarrow> indicator
     \<Rightarrow> (indicator_summary \<times> indicator) option" where
  "show_indicator lib dl show_progress show_result dry [] ind = None"
| "show_indicator lib dl show_progress show_result dry (p # ps) ind =
     (let ind1 = fold count_statistic (po_received p) ind in
      if po_period_over p then
        show_indicator lib dl show_progress show_result dry ps (end_period dl show_progress dry ind1)
      else if po_closed p then Some (final_summary lib dl show_result dry (po_elapsed p) ind1)
      else show_indicator lib dl show_progress show_result dry ps ind1)"


section \<open>The Ctrl+C handler\<close>

text \<open>
  The handler waits for the token or the signal; after a signal it stores the flag and then
  cancels the token. Other tasks cancel the token at any time; the last field remembers that.
\<close>

datatype handler_phase = Selecting | Storing | Cancelling | Ended

record ctrl_c =
  cc_phase :: handler_phase
  cc_received :: bool
  cc_token :: bool
  cc_others :: bool

definition ctrl_c_start :: ctrl_c where
  "ctrl_c_start = \<lparr> cc_phase = Selecting, cc_received = False, cc_token = False, cc_others = False \<rparr>"

inductive ctrl_c_step :: "ctrl_c \<Rightarrow> ctrl_c \<Rightarrow> bool" where
  token_seen: "cc_phase c = Selecting \<Longrightarrow> cc_token c \<Longrightarrow> ctrl_c_step c (c\<lparr> cc_phase := Ended \<rparr>)"
| signal_seen: "cc_phase c = Selecting \<Longrightarrow> ctrl_c_step c (c\<lparr> cc_phase := Storing \<rparr>)"
| listen_fails: "cc_phase c = Selecting \<Longrightarrow> ctrl_c_step c (c\<lparr> cc_phase := Ended \<rparr>)"
| flag_stored: "cc_phase c = Storing \<Longrightarrow>
    ctrl_c_step c (c\<lparr> cc_received := True, cc_phase := Cancelling \<rparr>)"
| token_cancelled: "cc_phase c = Cancelling \<Longrightarrow>
    ctrl_c_step c (c\<lparr> cc_token := True, cc_phase := Ended \<rparr>)"
| other_task: "ctrl_c_step c (c\<lparr> cc_token := True, cc_others := True \<rparr>)"

inductive_cases ctrl_c_stepE: "ctrl_c_step c c'"


section \<open>Writers\<close>

datatype io_error = BrokenPipe | OtherIo string

record 'w writer =
  wr_write :: "string \<Rightarrow> 'w \<Rightarrow> (io_error + nat) \<times> 'w"
  wr_write_all :: "string \<Rightarrow> 'w \<Rightarrow> (io_error + unit) \<times> 'w"
  wr_flush :: "'w \<Rightarrow> (io_error + unit) \<times> 'w"

fun ignore_broken_pipe :: "io_error + unit \<Rightarrow> io_error + unit" where
  "ignore_broken_pipe (Inl BrokenPipe) = Inr ()"
| "ignore_broken_pipe r = r"

definition write_all_ignoring_broken_pipe ::
  "'w writer \<Rightarrow> string \<Rightarrow> 'w \<Rightarrow> (io_error + unit) \<times> 'w" where
  "write_all_ignoring_broken_pipe wr bytes w =
     (case wr_write_all wr bytes w of
        (Inl e, w1) \<Rightarrow> (ignore_broken_pipe (Inl e), w1)
      | (Inr u, w1) \<Rightarrow> (case wr_flush wr w1 of (r, w2) \<Rightarrow> (ignore_broken_pipe r, w2)))"

text \<open>The writer of the log output: a closed pipe takes every byte.\<close>

definition pipe_safe_write :: "'w writer \<Rightarrow> string \<Rightarrow> 'w \<Rightarrow> (io_error + nat) \<times> 'w" where
  "pipe_safe_write wr buf w = (case wr_write wr buf w of
       (Inl BrokenPipe, w1) \<Rightarrow> (Inr (length buf), w1)
     | other \<Rightarrow> other)"

definition pipe_safe_flush :: "'w writer \<Rightarrow> 'w \<Rightarrow> (io_error + unit) \<times> 'w" where
  "pipe_safe_flush wr w = (case wr_flush wr w of (r, w1) \<Rightarrow> (ignore_broken_pipe r, w1))"


section \<open>The log output\<close>

record subscriber =
  su_filter :: string
  su_show_target :: bool
  su_ansi :: bool
  su_span_events :: bool
  su_json :: bool

fun level_text :: "log_level \<Rightarrow> string" where
  "level_text LError = ''ERROR''"
| "level_text LWarn = ''WARN''"
| "level_text LInfo = ''INFO''"
| "level_text LDebug = ''DEBUG''"
| "level_text LTrace = ''TRACE''"

definition init_tracing :: "string option \<Rightarrow> bool \<Rightarrow> tracing_config \<Rightarrow> subscriber" where
  "init_tracing rust_log stderr_is_terminal tc =
     (let level = level_text (tc_tracing_level tc);
          (event_filter, show_target) =
            (if tc_aws_sdk_tracing tc then
               (''s3rm_rs='' @ level @ '',s3rm='' @ level @ '',aws_smithy_runtime='' @ level
                  @ '',aws_config='' @ level @ '',aws_sigv4='' @ level, True)
             else case rust_log of
               Some env_filter \<Rightarrow> (env_filter, True)
             | None \<Rightarrow> (''s3rm_rs='' @ level @ '',s3rm='' @ level, False))
      in \<lparr> su_filter = event_filter, su_show_target = show_target,
           su_ansi = (\<not> tc_disable_color_tracing tc \<and> stderr_is_terminal),
           su_span_events = tc_span_events_tracing tc, su_json = tc_json_tracing tc \<rparr>)"

definition start_tracing_if_necessary :: "string option \<Rightarrow> bool \<Rightarrow> config \<Rightarrow> subscriber option" where
  "start_tracing_if_necessary rust_log stderr_is_terminal cfg =
     map_option (init_tracing rust_log stderr_is_terminal) (tracing_config cfg)"


section \<open>The program\<close>

definition EXIT_CODE_WARNING :: int where "EXIT_CODE_WARNING = 3"
definition EXIT_CODE_ABNORMAL_TERMINATION :: int where "EXIT_CODE_ABNORMAL_TERMINATION = 101"
definition SIGINT_EXIT_CODE :: int where "SIGINT_EXIT_CODE = 130"

text \<open>The shipped callbacks are off unless the test option turns them on.\<close>

definition register_user_defined_callbacks :: "config \<Rightarrow> config" where
  "register_user_defined_callbacks cfg =
     (if test_user_defined_callback cfg
      then cfg\<lparr> event_manager := em_register_callback ALL_EVENTS (dry_run cfg) (event_manager cfg),
                filter_manager := fm_register_callback (filter_manager cfg) \<rparr>
      else cfg)"

text \<open>The status of a run that recorded errors: a cancellation counts as success.\<close>

fun error_status :: "anyhow list \<Rightarrow> int \<Rightarrow> int" where
  "error_status [] code = code"
| "error_status (e # es) code =
     (if is_cancelled_error e then 0 else error_status es (max code (exit_code_from_error e)))"

text \<open>
  What \<open>run\<close> decides after the pipeline has returned: the status and the pipeline. The two
  flags tell whether the progress task panicked and whether Ctrl+C was received.
\<close>

definition final_status :: "bool \<Rightarrow> bool \<Rightarrow> 'w pipeline \<Rightarrow> int \<times> 'w pipeline" where
  "final_status indicator_panics ctrl_c_received pl =
     (if indicator_panics then (EXIT_CODE_ABNORMAL_TERMINATION, pl)
      else if ctrl_c_received then (SIGINT_EXIT_CODE, pl)
      else if pl_has_error pl then
        (if pl_has_panic pl then (EXIT_CODE_ABNORMAL_TERMINATION, pl)
         else case get_errors_and_consume pl of
             (None, pl') \<Rightarrow> (1, pl')
           | (Some errors, pl') \<Rightarrow> (error_status errors 1, pl'))
      else if pipeline_has_warning pl then (EXIT_CODE_WARNING, pl)
      else (0, pl))"

text \<open>
  \<open>run\<close>: the status of the process and the pipeline at its end; \<open>None\<close> when the fuel of the
  listing runs out. A panic of the main task ends the process with status 101.
\<close>

definition main_run ::
  "nat \<Rightarrow> 'w env \<Rightarrow> bool \<Rightarrow> bool \<Rightarrow> config \<Rightarrow> 'w \<Rightarrow> (int \<times> 'w pipeline) option" where
  "main_run n env indicator_panics ctrl_c_received cfg w =
     (case check_prerequisites env (pipeline_new (register_user_defined_callbacks cfg) w) of
        (Err e, pl) \<Rightarrow>
          Some (if is_cancelled_error e then 0 else exit_code_from_error e, close_stats_sender pl)
      | (Panic m, pl) \<Rightarrow> Some (EXIT_CODE_ABNORMAL_TERMINATION, pl)
      | (Ok _, pl) \<Rightarrow> (case run n env pl of
            None \<Rightarrow> None
          | Some (Panic m, pl') \<Rightarrow> Some (EXIT_CODE_ABNORMAL_TERMINATION, pl')
          | Some (_, pl') \<Rightarrow> Some (final_status indicator_panics ctrl_c_received pl')))"

definition print_completion_script :: "'w writer \<Rightarrow> string \<Rightarrow> 'w \<Rightarrow> int" where
  "print_completion_script stdout script w =
     (case fst (write_all_ignoring_broken_pipe stdout script w) of Inr _ \<Rightarrow> 0 | Inl _ \<Rightarrow> 1)"

text \<open>
  \<open>main\<close>: arguments that make no configuration end the program with the usage status of the
  argument parser; \<open>script\<close> renders the completion of a shell.
\<close>

definition main_status ::
  "nat \<Rightarrow> 'w env \<Rightarrow> bool \<Rightarrow> bool \<Rightarrow> 'w writer \<Rightarrow> (shell \<Rightarrow> string) \<Rightarrow> int \<Rightarrow> (string, config) outcome
     \<Rightarrow> 'w \<Rightarrow> int option" where
  "main_status n env indicator_panics ctrl_c_received stdout script usage_status parsed w =
     (case parsed of
        Err e \<Rightarrow> Some usage_status
      | Panic m \<Rightarrow> Some EXIT_CODE_ABNORMAL_TERMINATION
      | Ok cfg \<Rightarrow> (case auto_complete_shell cfg of
            Some sh \<Rightarrow> Some (print_completion_script stdout (script sh) w)
          | None \<Rightarrow> map_option fst (main_run n env indicator_panics ctrl_c_received cfg w)))"

end
