(* ===== verification/Cli_Facts.thy ===== *)
theory Cli_Facts
  imports Cli
begin

text \<open>
  The properties of the command line program: what the progress task counts and how it agrees
  with the report of the run, the order of the Ctrl+C flag and the cancellation, and what the
  exit status says about a run.
\<close>

section \<open>The progress task\<close>

text \<open>The messages the task has received when it returns.\<close>

fun polls_read :: "poll list \<Rightarrow> deletion_statistics list" where
  "polls_read [] = []"
| "polls_read (p # ps) =
     po_received p @ (if \<not> po_period_over p \<and> po_closed p then [] else polls_read ps)"

fun is_error :: "deletion_statistics \<Rightarrow> bool" where
  "is_error (DeleteError k) = True"
| "is_error d = False"

fun is_skip :: "deletion_statistics \<Rightarrow> bool" where
  "is_skip (DeleteSkip k) = True"
| "is_skip d = False"

text \<open>The totals as a function of the messages, on top of what was there before.\<close>

definition add_messages :: "deletion_statistics list \<Rightarrow> indicator_summary \<Rightarrow> indicator_summary" where
  "add_messages ms t =
     \<lparr> total_delete_count = total_delete_count t + of_nat (length (filter is_complete ms)),
       total_delete_bytes = total_delete_bytes t + sum_list (map bytes_of ms),
       total_error_count = total_error_count t + of_nat (length (filter is_error ms)),
       total_skip_count = total_skip_count t + of_nat (length (filter is_skip ms)) \<rparr>"

lemma add_messages_Nil [simp]: "add_messages [] t = t"
  by (simp add: add_messages_def)

lemma add_messages_append: "add_messages (xs @ ys) t = add_messages ys (add_messages xs t)"
  by (simp add: add_messages_def add.assoc)

lemma count_statistic_totals: "in_totals (count_statistic d ind) = add_messages [d] (in_totals ind)"
  by (cases d) (simp_all add: add_messages_def)

lemma fold_count_totals:
  "in_totals (fold count_statistic ms ind) = add_messages ms (in_totals ind)"
proof (induction ms arbitrary: ind)
  case (Cons d ms)
  then show ?case
    using add_messages_append [of "[d]" ms "in_totals ind"] by (simp add: count_statistic_totals)
qed simp

lemma end_period_totals [simp]: "in_totals (end_period dl sp dry ind) = in_totals ind"
  by (simp add: end_period_def Let_def)

lemma show_indicator_totals:
  "show_indicator lib dl sp sr dry ps ind = Some (t, ind') \<Longrightarrow>
     t = add_messages (polls_read ps) (in_totals ind)"
  by (induction lib dl sp sr dry ps ind rule: show_indicator.induct)
    (auto simp: Let_def fold_count_totals add_messages_append final_summary_def split: if_splits)

lemma show_indicator_returns:
  "(\<exists>r. show_indicator lib dl sp sr dry ps ind = Some r)
     \<longleftrightarrow> list_ex (\<lambda>p. po_closed p \<and> \<not> po_period_over p) ps"
  by (induction lib dl sp sr dry ps ind rule: show_indicator.induct) (auto simp: Let_def)

text \<open>
  The progress task returns exactly when some poll finds the channel closed before the
  refresh interval is over, and its summary then counts the messages it has received, each in
  its own total (the counters wrap like the ones of the report), however the messages are
  spread over the polls and whatever is displayed in between.
\<close>

theorem indicator_counts_messages:
  "case show_indicator lib dl sp sr dry ps ind of
     None \<Rightarrow> \<not> list_ex (\<lambda>p. po_closed p \<and> \<not> po_period_over p) ps
   | Some (t, ind') \<Rightarrow> list_ex (\<lambda>p. po_closed p \<and> \<not> po_period_over p) ps
       \<and> t = add_messages (polls_read ps) (in_totals ind)"
  using show_indicator_returns [of lib dl sp sr dry ps ind] show_indicator_totals
  by (auto split: option.splits)


section \<open>The Ctrl+C handler\<close>

inductive ctrl_c_reachable :: "ctrl_c \<Rightarrow> bool" where
  start: "ctrl_c_reachable ctrl_c_start"
| step: "ctrl_c_reachable c \<Longrightarrow> ctrl_c_step c c' \<Longrightarrow> ctrl_c_reachable c'"

definition flag_before_token :: "ctrl_c \<Rightarrow> bool" where
  "flag_before_token c \<longleftrightarrow>
     (cc_phase c = Cancelling \<longrightarrow> cc_received c) \<and> (cc_token c \<longrightarrow> cc_received c \<or> cc_others c)"

lemma flag_before_token_step:
  "ctrl_c_step c c' \<Longrightarrow> flag_before_token c \<Longrightarrow> flag_before_token c'"
  by (erule ctrl_c_stepE) (auto simp: flag_before_token_def)

lemma flag_before_token_reachable: "ctrl_c_reachable c \<Longrightarrow> flag_before_token c"
  by (induction rule: ctrl_c_reachable.induct)
    (auto simp: flag_before_token_step, simp add: flag_before_token_def ctrl_c_start_def)

text \<open>
  C35: whoever sees the token cancelled when no other task cancelled it also sees the Ctrl+C
  flag, at every moment of every interleaving of the handler with the other tasks: the handler
  stores the flag before it cancels. So a run interrupted by Ctrl+C is reported as such.
\<close>

theorem ctrl_c_flag_visible:
  assumes "ctrl_c_reachable c" and "cc_token c" and "\<not> cc_others c"
  shows "cc_received c"
  using flag_before_token_reachable [OF assms(1)] assms(2,3) by (simp add: flag_before_token_def)

theorem ctrl_c_flag_visible_witness:
  "cc_received \<lparr> cc_phase = Ended, cc_received = True, cc_token = True, cc_others = False \<rparr>"
proof (rule ctrl_c_flag_visible)
  let ?c1 = "ctrl_c_start\<lparr> cc_phase := Storing \<rparr>"
  let ?c2 = "?c1\<lparr> cc_received := True, cc_phase := Cancelling \<rparr>"
  have "ctrl_c_step ctrl_c_start ?c1" by (rule signal_seen) (simp add: ctrl_c_start_def)
  moreover have "ctrl_c_step ?c1 ?c2" by (rule flag_stored) simp
  moreover have "ctrl_c_step ?c2 (?c2\<lparr> cc_token := True, cc_phase := Ended \<rparr>)"
    by (rule token_cancelled) simp
  ultimately have "ctrl_c_reachable (?c2\<lparr> cc_token := True, cc_phase := Ended \<rparr>)"
    by (meson ctrl_c_reachable.intros)
  then show "ctrl_c_reachable \<lparr> cc_phase = Ended, cc_received = True, cc_token = True, cc_others = False \<rparr>"
    by (simp add: ctrl_c_start_def)
qed simp_all


section \<open>What the prerequisites leave alone\<close>

definition same_outcome :: "'w pipeline \<Rightarrow> 'w pipeline \<Rightarrow> bool" where
  "same_outcome pl0 pl \<longleftrightarrow> pl_errors pl = pl_errors pl0 \<and> pl_has_error pl = pl_has_error pl0
     \<and> pl_has_panic pl = pl_has_panic pl0 \<and> pl_ready pl = pl_ready pl0
     \<and> report (pl_sys pl) = report (pl_sys pl0)"

lemma same_outcome_prerequisites: "keeps (same_outcome pl0) (check_prerequisites env)"
proof -
  have u: "keeps (same_outcome pl0) (update (\<lambda>pl. pl\<lparr> pl_config := c \<rparr>))"
    "keeps (same_outcome pl0) (update (\<lambda>pl. pl\<lparr> pl_prerequisites_checked := True \<rparr>))" for c
    by (auto intro!: keeps_update simp: same_outcome_def)
  have safe: "keeps (same_outcome pl0) (on_sys (check_before_deletion (safety_checker_new env cfg)))" for cfg
    by (auto simp: keeps_def on_sys_def same_outcome_def dest: safety_keeps_report split: prod.splits)
  have ver: "keeps (same_outcome pl0) (on_sys (is_versioning_enabled st env))" for st
    by (auto simp: keeps_def on_sys_def same_outcome_def is_versioning_enabled_def bind_def
        sdk_call_def panic_def split: prod.splits outcome.splits sum.splits if_splits)
  show ?thesis
    unfolding check_prerequisites_def check_versioning_def by (intro keeps_intros u safe ver)
qed

lemma prerequisites_outcome: "check_prerequisites env pl = (r, pl') \<Longrightarrow> same_outcome pl pl'"
  using keepsD [OF same_outcome_prerequisites, of pl pl env r pl'] by (simp add: same_outcome_def)


section \<open>The exit status\<close>

lemma error_status_max:
  "list_all (\<lambda>e. \<not> is_cancelled_error e) es \<Longrightarrow>
     error_status es code = Max (insert code (exit_code_from_error ` set es))"
proof (induction es arbitrary: code)
  case (Cons e es)
  then show ?case
    by (cases "es = []") (simp_all add: insert_commute max.assoc max.commute max.left_commute)
qed simp

text \<open>What is known of the pipeline after a run that followed a check of the prerequisites.\<close>

lemma run_after_check:
  assumes "check_prerequisites env (pipeline_new cfg w) = (Ok u, pl1)"
    and "run n env pl1 = Some (Ok (), pl2)"
  shows "errors_consistent pl2 \<and> uncancelled pl2 \<and> failures_warned (pl_sys pl2)"
proof -
  let ?pl1 = "pl_trigger env (event_data_new PIPELINE_START) (pl1\<lparr> pl_ready := False \<rparr>)"
  have s: "same_outcome (pipeline_new cfg w) pl1" by (rule prerequisites_outcome [OF assms(1)])
  then have ready: "pl_ready pl1" "pl_errors pl1 = []" "errors_consistent pl1"
    by (simp_all add: same_outcome_def pipeline_new_def errors_consistent_def)
  have "pl_prerequisites_checked pl1" using check_prerequisites_Ok [of env "pipeline_new cfg w" pl1] assms(1) by simp
  with assms(2) ready obtain pl3 where e: "execute_pipeline n env ?pl1 = Some pl3"
    and fin: "pl2 = run_finish env pl3"
    by (auto simp: run_def Let_def split: option.splits)
  have "uncancelled ?pl1" using ready by (simp add: uncancelled_def)
  moreover have "errors_consistent ?pl1" using ready by simp
  moreover have "failures_warned (pl_sys ?pl1)"
    using s by (simp add: same_outcome_def failures_warned_def pl_trigger_def sys_new_def stats_report_new_def)
  ultimately have "uncancelled pl3" "errors_consistent pl3" "failures_warned (pl_sys pl3)"
    using uncancelled_execute [OF e] errors_execute [OF _ e] warned.execute_kept [OF e] by simp_all
  moreover have "failures_warned (pl_sys (run_finish env pl3))"
    by (rule warned.finish_kept) (use \<open>failures_warned (pl_sys pl3)\<close> in
      \<open>simp add: close_stats_sender_def failures_warned_def\<close>)
  ultimately show ?thesis unfolding fin by simp
qed

text \<open>
  C16: the exit status of a run that passed its prerequisites. An interruption by Ctrl+C comes
  before everything the run recorded, a panic of any task before the other errors; among these
  the largest status counts, and it is never 0: no error a run records is the cancellation the
  loop over the errors would turn into success. Warnings alone give 3, and only a run without
  errors and warnings gives 0.
\<close>

theorem exit_status_decision:
  assumes "check_prerequisites env (pipeline_new (register_user_defined_callbacks cfg) w) = (Ok u, pl1)"
    and "run n env pl1 = Some (Ok (), pl2)"
  shows "\<exists>pl. main_run n env indicator_panics ctrl_c_received cfg w = Some
    (if indicator_panics then 101
     else if ctrl_c_received then 130
     else if pl_has_panic pl2 then 101
     else if pl_errors pl2 \<noteq> [] then Max (insert 1 (exit_code_from_error ` set (pl_errors pl2)))
     else if has_warning (pl_sys pl2) then 3
     else 0, pl)"
proof -
  from run_after_check [OF assms] have c: "errors_consistent pl2" "uncancelled pl2" by simp_all
  have "error_status (pl_errors pl2) 1 = Max (insert 1 (exit_code_from_error ` set (pl_errors pl2)))"
    using c(2) error_status_max by (simp add: uncancelled_def)
  with c(1) assms show ?thesis
    by (auto simp: main_run_def final_status_def errors_consistent_def get_errors_and_consume_def
        pipeline_has_warning_def EXIT_CODE_WARNING_def EXIT_CODE_ABNORMAL_TERMINATION_def
        SIGINT_EXIT_CODE_def)
qed

lemma final_status_zero:
  assumes "final_status ip cc pl2 = (0, pl)" and "errors_consistent pl2" and "uncancelled pl2"
  shows "pl = pl2 \<and> pl_errors pl = [] \<and> \<not> has_warning (pl_sys pl)"
proof (cases "pl_errors pl2 = []")
  case True
  with assms show ?thesis
    by (auto simp: final_status_def errors_consistent_def EXIT_CODE_WARNING_def
        EXIT_CODE_ABNORMAL_TERMINATION_def SIGINT_EXIT_CODE_def pipeline_has_warning_def split: if_splits)
next
  case False
  have "1 \<le> error_status (pl_errors pl2) 1"
    using assms(3) error_status_max [of "pl_errors pl2" 1] by (simp add: uncancelled_def)
  with assms False show ?thesis
    by (auto simp: final_status_def errors_consistent_def get_errors_and_consume_def
        EXIT_CODE_ABNORMAL_TERMINATION_def SIGINT_EXIT_CODE_def split: if_splits)
qed

text \<open>
  C15: exit status 0 means a clean end. Either the run recorded no error, raised no warning and
  counted no failed object, or the user declined at the prompt and nothing was deleted at all.
\<close>

theorem exit_zero_means_clean:
  assumes "main_run n env indicator_panics ctrl_c_received cfg w = Some (0, pl)"
  shows "sr_failed_objects (report (pl_sys pl)) = 0 \<and>
    (case fst (check_prerequisites env (pipeline_new (register_user_defined_callbacks cfg) w)) of
       Ok _ \<Rightarrow> pl_errors pl = [] \<and> \<not> has_warning (pl_sys pl)
     | _ \<Rightarrow> report (pl_sys pl) = stats_report_new)"
proof -
  let ?pl0 = "pipeline_new (register_user_defined_callbacks cfg) w"
  obtain r pl1 where c: "check_prerequisites env ?pl0 = (r, pl1)" by fastforce
  show ?thesis
  proof (cases r)
    case (Ok u)
    with assms c obtain q pl2 where r: "run n env pl1 = Some (q, pl2)"
      and "(case q of Panic m \<Rightarrow> (EXIT_CODE_ABNORMAL_TERMINATION, pl2)
        | _ \<Rightarrow> final_status indicator_panics ctrl_c_received pl2) = (0, pl)"
      by (auto simp: main_run_def split: option.splits outcome.splits)
    moreover from this have "\<not> is_panic q" by (auto simp: EXIT_CODE_ABNORMAL_TERMINATION_def split: outcome.splits)
    moreover have "q \<noteq> Err e" for e using r
      by (auto simp: run_def Let_def split: option.splits outcome.splits if_splits prod.splits)
    ultimately have q: "q = Ok ()" and f: "final_status indicator_panics ctrl_c_received pl2 = (0, pl)"
      by (cases q; simp)+
    from run_after_check [OF c [unfolded Ok] r [unfolded q]] final_status_zero [OF f]
    have "pl = pl2" "pl_errors pl = []" "\<not> has_warning (pl_sys pl)" "failures_warned (pl_sys pl)" by auto
    with c Ok show ?thesis by (simp add: failures_warned_def)
  next
    case (Err e)
    with assms c have "pl = close_stats_sender pl1" by (simp add: main_run_def)
    moreover have "report (pl_sys pl1) = stats_report_new"
      using prerequisites_outcome [OF c] by (simp add: same_outcome_def sys_new_def)
    ultimately show ?thesis using c Err by (simp add: close_stats_sender_def stats_report_new_def)
  next
    case (Panic m)
    with assms c show ?thesis by (simp add: main_run_def EXIT_CODE_ABNORMAL_TERMINATION_def)
  qed
qed


section \<open>The progress of a run\<close>

lemma stats_channel_finish [simp]:
  "stats_channel (pl_sys (run_finish env pl)) = stats_channel (pl_sys pl)"
  by (simp add: run_finish_def fire_completion_events_def close_stats_sender_def Let_def
      is_cancelled_def split_beta pl_trigger_def)

text \<open>
  C17: the progress summary agrees with the report. When the task has received all the messages
  of a run and then finds the channel closed, its count of deleted objects and its bytes are
  those of the report at the end, whatever happened in the run, failures, cancellations and
  dry runs included.
\<close>

theorem progress_agrees_with_report:
  assumes "check_prerequisites env (pipeline_new cfg w) = (Ok u, pl1)"
    and "run n env pl1 = Some (Ok (), pl)"
    and "polls_read ps = stats_channel (pl_sys pl)"
    and "list_ex (\<lambda>p. po_closed p \<and> \<not> po_period_over p) ps"
  shows "\<exists>t ind. show_indicator lib dl sp sr dry ps indicator_start = Some (t, ind)
    \<and> total_delete_count t = ds_deleted_objects (get_deletion_stats pl)
    \<and> total_delete_bytes t = ds_deleted_bytes (get_deletion_stats pl)"
proof -
  have "progress_told (pl_sys (pipeline_new cfg w))"
    by (simp add: pipeline_new_def progress_told_def messages_match_def sys_new_def stats_report_new_def)
  from keepsD [OF told.prerequisites_kept this assms(1)] have told: "progress_told (pl_sys pl1)" .
  have ready: "pl_ready pl1"
    using prerequisites_outcome [OF assms(1)] by (simp add: same_outcome_def pipeline_new_def)
  from told.run_kept [OF assms(2) ready told] obtain pl3 where
    pl3: "pl = run_finish env pl3" "progress_told (pl_sys pl3)" .
  then have "messages_match (polls_read ps) (report (pl_sys pl))"
    using assms(3) by (simp add: progress_told_def)
  moreover obtain t ind where "show_indicator lib dl sp sr dry ps indicator_start = Some (t, ind)"
    using show_indicator_returns [of lib dl sp sr dry ps indicator_start] assms(4) by auto
  moreover from show_indicator_totals [OF this] have "t = add_messages (polls_read ps) summary_zero"
    by (simp add: indicator_start_def)
  ultimately show ?thesis
    by (simp add: messages_match_def add_messages_def summary_zero_def get_deletion_stats_def snapshot_def)
qed


section \<open>Instances\<close>

text \<open>The program on the demonstration service: it deletes two objects, or finds none.\<close>

lemma demo_registered [simp]: "register_user_defined_callbacks demo_config = demo_config"
  by (simp add: register_user_defined_callbacks_def demo_config_def config_for_target_def config_default_def)

abbreviation demo_checked :: "string list \<Rightarrow> string list pipeline" where
  "demo_checked w \<equiv> (pipeline_new demo_config w)\<lparr> pl_prerequisites_checked := True \<rparr>"

lemma demo_check:
  "check_prerequisites demo_env (pipeline_new demo_config w) = (Ok (), demo_checked w)"
  by (simp add: check_prerequisites_def pipeline_new_def on_sys_def check_before_deletion_def
      safety_checker_new_def demo_config_def filter_config_default_def seq_def split_beta bind_Ok)

abbreviation demo_started :: "string list \<Rightarrow> string list pipeline" where
  "demo_started w \<equiv> pl_trigger demo_env (event_data_new PIPELINE_START)
     ((demo_checked w)\<lparr> pl_ready := False \<rparr>)"

lemma demo_started_sys:
  "world (pl_sys (demo_started w)) = w" "\<not> cancelled (pl_sys (demo_started w))"
  "\<not> has_warning (pl_sys (demo_started w))" "pl_prerequisites_checked (demo_started w)"
  "pl_config (demo_started w) = demo_config" "pl_target (demo_started w) = create_storage demo_config"
  "\<not> pl_has_error (demo_started w)"
  by (simp_all add: pl_trigger_def trigger_event_def update_pipeline_stats_def Let_def
      demo_config_def event_manager_new_def demo_env_def sys_new_def event_types_numerals)

lemma demo_runs:
  assumes "execute_pipeline 1 demo_env (demo_started w) = Some pl"
  shows "run 1 demo_env (demo_checked w) = Some (Ok (), run_finish demo_env pl)"
  using assms demo_started_sys(4) by (simp add: run_def Let_def pipeline_new_def)

lemma demo_deletes: "\<exists>pl. run 1 demo_env (demo_checked [''a'', ''b'']) = Some (Ok (), pl)"
  using demo_executes_from [of "demo_started [''a'', ''b'']"] demo_started_sys demo_runs by blast

theorem exit_status_decision_witness:
  "\<exists>pl1 pl2 pl. check_prerequisites demo_env (pipeline_new demo_config [''a'', ''b'']) = (Ok (), pl1)
    \<and> run 1 demo_env pl1 = Some (Ok (), pl2)
    \<and> main_run 1 demo_env False False demo_config [''a'', ''b''] = Some
    (if pl_has_panic pl2 then 101
     else if pl_errors pl2 \<noteq> [] then Max (insert 1 (exit_code_from_error ` set (pl_errors pl2)))
     else if has_warning (pl_sys pl2) then 3
     else 0, pl)"
proof -
  obtain pl2 where r: "run 1 demo_env (demo_checked [''a'', ''b'']) = Some (Ok (), pl2)"
    using demo_deletes by blast
  have c: "check_prerequisites demo_env
      (pipeline_new (register_user_defined_callbacks demo_config) [''a'', ''b''])
      = (Ok (), demo_checked [''a'', ''b''])"
    by (simp add: demo_check)
  from exit_status_decision [OF c r, of False False] r demo_check show ?thesis by auto
qed

definition demo_display :: display_libs where
  "demo_display = \<lparr> dl_human_count = show_word, dl_human_bytes = show_word,
     dl_human_duration = show_word, dl_average = sum_list \<rparr>"

theorem progress_agrees_with_report_witness:
  "\<exists>pl t ind. run 1 demo_env (demo_checked [''a'', ''b'']) = Some (Ok (), pl)
    \<and> show_indicator demo_libs demo_display True True False
        [\<lparr> po_received = stats_channel (pl_sys pl), po_period_over = False, po_closed = True,
           po_elapsed = 5 \<rparr>] indicator_start = Some (t, ind)
    \<and> total_delete_count t = ds_deleted_objects (get_deletion_stats pl)
    \<and> total_delete_bytes t = ds_deleted_bytes (get_deletion_stats pl)"
proof -
  obtain pl where r: "run 1 demo_env (demo_checked [''a'', ''b'']) = Some (Ok (), pl)"
    using demo_deletes by blast
  let ?ps = "[\<lparr> po_received = stats_channel (pl_sys pl), po_period_over = False, po_closed = True,
    po_elapsed = 5 \<rparr>]"
  have "polls_read ?ps = stats_channel (pl_sys pl)"
    "list_ex (\<lambda>p. po_closed p \<and> \<not> po_period_over p) ?ps" by simp_all
  from progress_agrees_with_report [OF demo_check r this, of demo_libs demo_display True True False] r
  show ?thesis by blast
qed

lemma demo_finds_none:
  "\<exists>pl. execute_pipeline 1 demo_env (demo_started []) = Some pl \<and> \<not> pl_has_error pl
    \<and> \<not> has_warning (pl_sys pl)"
proof -
  let ?pl = "demo_started []"
  have "service_lists (pl_target ?pl) demo_env (listing_mode_of (pl_config ?pl))
      (max_keys (pl_config ?pl)) (world (pl_sys ?pl)) (demo_listed []) 1 []"
    using demo_lists by (simp only: demo_started_sys demo_run_facts)
  from list_target_complete [OF quiet_demo demo_started_sys(2) le_refl this]
  have l: "list_target 1 demo_env ?pl = Some ([], ?pl\<lparr> pl_sys := listed (pl_target ?pl) [] [] 1
      ((pl_sys ?pl)\<lparr> sent := [] \<rparr>) \<rparr>)" by simp
  have f: "filter_stages demo_config = []" "\<not> warn_as_error demo_config"
    by (simp_all add: filter_stages_def demo_config_def filter_config_default_def)
  show ?thesis
    unfolding execute_pipeline_def l
    using f demo_started_sys demo_run_facts
    by (simp add: filter_objects_def Let_def pipeline_delete_objects_def idle_workers quiet_demo
        terminate_def listed_def)
qed

theorem exit_zero_means_clean_witness:
  "\<exists>pl. main_run 1 demo_env False False demo_config [] = Some (0, pl)
    \<and> sr_failed_objects (report (pl_sys pl)) = 0 \<and> pl_errors pl = [] \<and> \<not> has_warning (pl_sys pl)"
proof -
  obtain pl3 where e: "execute_pipeline 1 demo_env (demo_started []) = Some pl3"
    "\<not> pl_has_error pl3" "\<not> has_warning (pl_sys pl3)" using demo_finds_none by blast
  have "\<not> has_warning (pl_sys (run_finish demo_env pl3))"
    using e(3) by (simp add: run_finish_def fire_completion_events_def close_stats_sender_def Let_def
      is_cancelled_def split_beta pl_trigger_def)
  with demo_runs [OF e(1)] e(2) have "main_run 1 demo_env False False demo_config []
      = Some (0, run_finish demo_env pl3)"
    by (simp add: main_run_def demo_check final_status_def pipeline_has_warning_def)
  from this exit_zero_means_clean [OF this] show ?thesis by (auto simp: demo_check)
qed

end
