(* ===== verification/Supervisors.thy ===== *)
theory Supervisors
  imports Cli_Facts
begin

text \<open>
  The tasks that wait for the stages of a run (\<open>src/pipeline.rs\<close>), interleaved with the end of
  \<open>run\<close>. Every stage runs in an inner task, and an outer task waits for it and records its
  failure: it cancels the token, sets the flags and puts the error into the list, one after the
  other. \<open>run\<close> waits for the terminator only. So the outer tasks, from the moment at which the
  terminator has ended, run beside the last part of \<open>run\<close>; a stage that is still running is an
  outer task that has not moved yet.
\<close>

section \<open>The outer tasks\<close>

text \<open>What an outer task waits for: a lister or filter, with the text for a panic, or a worker.\<close>

datatype supervised = StageTask string | WorkerTask

datatype supervisor_phase =
    Waiting "unit result"
  | Cancelling anyhow bool
  | Flagging anyhow bool
  | FlaggingPanic anyhow
  | Recording anyhow
  | Joined

text \<open>The failure an end of the inner task is, and whether it is a panic.\<close>

definition failure :: "'w env \<Rightarrow> supervised \<Rightarrow> unit result \<Rightarrow> (anyhow \<times> bool) option" where
  "failure env k r = (case r of
       Ok _ \<Rightarrow> None
     | Err e \<Rightarrow> if k = WorkerTask \<and> is_cancelled_error e then None else Some (e, False)
     | Panic m \<Rightarrow> Some (Message ((case k of StageTask label \<Rightarrow> label
           | WorkerTask \<Rightarrow> ''delete worker panicked: '') @ join_error_text (env_libs env) m), True))"

definition supervisor_step ::
  "'w env \<Rightarrow> supervised \<Rightarrow> supervisor_phase \<Rightarrow> 'w pipeline \<Rightarrow> (supervisor_phase \<times> 'w pipeline) option" where
  "supervisor_step env k ph pl = (case ph of
       Waiting r \<Rightarrow> Some (case failure env k r of
           None \<Rightarrow> (Joined, pl)
         | Some (e, panics) \<Rightarrow> (Cancelling e panics, pl))
     | Cancelling e panics \<Rightarrow> Some (Flagging e panics, pl\<lparr> pl_sys := (pl_sys pl)\<lparr> cancelled := True \<rparr> \<rparr>)
     | Flagging e panics \<Rightarrow>
         Some (if panics then FlaggingPanic e else Recording e, pl\<lparr> pl_has_error := True \<rparr>)
     | FlaggingPanic e \<Rightarrow> Some (Recording e, pl\<lparr> pl_has_panic := True \<rparr>)
     | Recording e \<Rightarrow> Some (Joined, pl\<lparr> pl_errors := pl_errors pl @ [e] \<rparr>)
     | Joined \<Rightarrow> None)"

text \<open>The same at once, as \<open>Pipeline\<close> has it.\<close>

definition join_supervised :: "'w env \<Rightarrow> supervised \<times> unit result \<Rightarrow> 'w pipeline \<Rightarrow> 'w pipeline" where
  "join_supervised env kr pl = (case kr of
       (StageTask label, r) \<Rightarrow> join_stage env label r pl
     | (WorkerTask, r) \<Rightarrow> join_worker env r pl)"


section \<open>The end of a run\<close>

datatype finish_phase =
    Promoting
  | Promoted
  | ClosingStats
  | ErrorEvent
  | CancelEvent
  | EndEvent
  | Returned

definition promotes :: "'w pipeline \<Rightarrow> bool" where
  "promotes pl \<longleftrightarrow> warn_as_error (pl_config pl) \<and> has_warning (pl_sys pl)"

definition error_event :: "'w env \<Rightarrow> 'w pipeline \<Rightarrow> 'w pipeline" where
  "error_event env pl = (if pl_has_error pl
     then pl_trigger env ((event_data_new PIPELINE_ERROR)
            \<lparr> ed_message := Some (case unwrap_or (get_error_messages pl) [] of
                 m # _ \<Rightarrow> m | [] \<Rightarrow> ''Unknown error'') \<rparr>) pl
     else pl)"

definition cancel_event :: "'w env \<Rightarrow> 'w pipeline \<Rightarrow> 'w pipeline" where
  "cancel_event env pl = (case is_cancelled env (pl_sys pl) of (c, s) \<Rightarrow>
     let pl' = pl\<lparr> pl_sys := s \<rparr> in
     if c = Ok True
     then pl_trigger env ((event_data_new DELETE_CANCEL)
            \<lparr> ed_message := Some ''Pipeline was cancelled'' \<rparr>) pl'
     else pl')"

definition finish_step :: "'w env \<Rightarrow> finish_phase \<Rightarrow> 'w pipeline \<Rightarrow> (finish_phase \<times> 'w pipeline) option" where
  "finish_step env ph pl = (case ph of
       Promoting \<Rightarrow> Some (if promotes pl then (Promoted, pl\<lparr> pl_has_error := True \<rparr>) else (ClosingStats, pl))
     | Promoted \<Rightarrow> Some (ClosingStats, pl\<lparr> pl_errors := pl_errors pl @ [Message warnings_promoted] \<rparr>)
     | ClosingStats \<Rightarrow> Some (ErrorEvent, close_stats_sender pl)
     | ErrorEvent \<Rightarrow> Some (CancelEvent, error_event env pl)
     | CancelEvent \<Rightarrow> Some (EndEvent, cancel_event env pl)
     | EndEvent \<Rightarrow> Some (Returned, pl_trigger env (event_data_new PIPELINE_END) pl)
     | Returned \<Rightarrow> None)"

lemma fire_completion_steps:
  "fire_completion_events env pl
     = pl_trigger env (event_data_new PIPELINE_END) (cancel_event env (error_event env pl))"
  by (simp add: fire_completion_events_def error_event_def cancel_event_def Let_def split: prod.split)


section \<open>All of them\<close>

record 'w ending =
  en_supervisors :: "(supervised \<times> supervisor_phase) list"
  en_phase :: finish_phase
  en_pipeline :: "'w pipeline"

datatype ending_action = Supervise nat | Finish

fun ending_step :: "'w env \<Rightarrow> ending_action \<Rightarrow> 'w ending \<Rightarrow> 'w ending option" where
  "ending_step env (Supervise i) en =
     (if i < length (en_supervisors en) then
        (case en_supervisors en ! i of (k, ph) \<Rightarrow>
           map_option (\<lambda>(ph', pl). en\<lparr> en_supervisors := (en_supervisors en)[i := (k, ph')],
               en_pipeline := pl \<rparr>) (supervisor_step env k ph (en_pipeline en)))
      else None)"
| "ending_step env Finish en =
     map_option (\<lambda>(ph, pl). en\<lparr> en_phase := ph, en_pipeline := pl \<rparr>)
       (finish_step env (en_phase en) (en_pipeline en))"

fun ending_run :: "'w env \<Rightarrow> ending_action list \<Rightarrow> 'w ending \<Rightarrow> 'w ending option" where
  "ending_run env [] en = Some en"
| "ending_run env (a # as) en = (case ending_step env a en of
       None \<Rightarrow> None
     | Some en' \<Rightarrow> ending_run env as en')"

definition ending_start :: "(supervised \<times> unit result) list \<Rightarrow> 'w pipeline \<Rightarrow> 'w ending" where
  "ending_start krs pl = \<lparr> en_supervisors = map (\<lambda>(k, r). (k, Waiting r)) krs,
     en_phase = Promoting, en_pipeline = pl \<rparr>"

lemma ending_run_invariant:
  assumes "\<And>a en en'. ending_step env a en = Some en' \<Longrightarrow> P en \<Longrightarrow> P en'"
  shows "ending_run env as en = Some en' \<Longrightarrow> P en \<Longrightarrow> P en'"
  by (induction as arbitrary: en) (auto split: option.splits dest: assms)


section \<open>What is still to be recorded\<close>

fun pending_errors :: "'w env \<Rightarrow> supervised \<times> supervisor_phase \<Rightarrow> anyhow list" where
  "pending_errors env (k, Waiting r) = (case failure env k r of None \<Rightarrow> [] | Some (e, p) \<Rightarrow> [e])"
| "pending_errors env (k, Cancelling e p) = [e]"
| "pending_errors env (k, Flagging e p) = [e]"
| "pending_errors env (k, FlaggingPanic e) = [e]"
| "pending_errors env (k, Recording e) = [e]"
| "pending_errors env (k, Joined) = []"

fun pending_flag :: "'w env \<Rightarrow> supervised \<times> supervisor_phase \<Rightarrow> bool" where
  "pending_flag env (k, Waiting r) \<longleftrightarrow> failure env k r \<noteq> None"
| "pending_flag env (k, Cancelling e p) \<longleftrightarrow> True"
| "pending_flag env (k, Flagging e p) \<longleftrightarrow> True"
| "pending_flag env (k, ph) \<longleftrightarrow> False"

fun pending_panic :: "'w env \<Rightarrow> supervised \<times> supervisor_phase \<Rightarrow> bool" where
  "pending_panic env (k, Waiting r) \<longleftrightarrow> (\<exists>e. failure env k r = Some (e, True))"
| "pending_panic env (k, Cancelling e p) \<longleftrightarrow> p"
| "pending_panic env (k, Flagging e p) \<longleftrightarrow> p"
| "pending_panic env (k, FlaggingPanic e) \<longleftrightarrow> True"
| "pending_panic env (k, ph) \<longleftrightarrow> False"

definition pending_promotion :: "'w ending \<Rightarrow> anyhow list" where
  "pending_promotion en =
     (if en_phase en = Promoted \<or> en_phase en = Promoting \<and> promotes (en_pipeline en)
      then [Message warnings_promoted] else [])"

definition all_errors :: "'w env \<Rightarrow> 'w ending \<Rightarrow> anyhow multiset" where
  "all_errors env en = mset (pl_errors (en_pipeline en))
     + mset (concat (map (pending_errors env) (en_supervisors en))) + mset (pending_promotion en)"

definition any_error :: "'w env \<Rightarrow> 'w ending \<Rightarrow> bool" where
  "any_error env en \<longleftrightarrow> pl_has_error (en_pipeline en) \<or> (\<exists>s \<in> set (en_supervisors en). pending_flag env s)
     \<or> en_phase en = Promoting \<and> promotes (en_pipeline en)"

definition any_panic :: "'w env \<Rightarrow> 'w ending \<Rightarrow> bool" where
  "any_panic env en \<longleftrightarrow> pl_has_panic (en_pipeline en) \<or> (\<exists>s \<in> set (en_supervisors en). pending_panic env s)"

lemma concat_map_update:
  "i < length xs \<Longrightarrow> mset (concat (map f (xs[i := y]))) + mset (f (xs ! i)) = mset (concat (map f xs)) + mset (f y)"
proof (induction xs arbitrary: i)
  case (Cons x xs)
  show ?case
  proof (cases i)
    case (Suc j)
    with Cons.IH [of j] Cons.prems show ?thesis by (simp add: add.assoc)
  qed (simp add: ac_simps)
qed simp

lemma ex_update:
  assumes "i < length xs"
  shows "(\<exists>z \<in> set (xs[i := y]). P z) \<or> P (xs ! i) \<longleftrightarrow> (\<exists>z \<in> set xs. P z) \<or> P y"
proof -
  have "set (xs[i := y]) \<union> {xs ! i} = set xs \<union> {y}"
    using assms by (auto simp: in_set_conv_nth nth_list_update split: if_splits)
  then show ?thesis by (metis Un_iff singletonD singletonI)
qed

lemma ex_step:
  assumes "i < length xs" and "xs ! i = x" and "h' \<or> P y \<longleftrightarrow> h \<or> P x" and "h \<Longrightarrow> h'"
  shows "h' \<or> (\<exists>z \<in> set (xs[i := y]). P z) \<longleftrightarrow> h \<or> (\<exists>z \<in> set xs. P z)"
proof -
  have "x \<in> set xs" "y \<in> set (xs[i := y])" using assms(1,2) set_update_memI by auto
  with ex_update [OF assms(1), of y P] assms(2-4) show ?thesis by blast
qed

lemma event_steps [simp]:
  "pl_config (error_event env pl) = pl_config pl" "pl_errors (error_event env pl) = pl_errors pl"
  "pl_has_error (error_event env pl) = pl_has_error pl" "pl_has_panic (error_event env pl) = pl_has_panic pl"
  "has_warning (pl_sys (error_event env pl)) = has_warning (pl_sys pl)"
  "cancelled (pl_sys (error_event env pl)) = cancelled (pl_sys pl)"
  "pl_config (cancel_event env pl) = pl_config pl" "pl_errors (cancel_event env pl) = pl_errors pl"
  "pl_has_error (cancel_event env pl) = pl_has_error pl" "pl_has_panic (cancel_event env pl) = pl_has_panic pl"
  "has_warning (pl_sys (cancel_event env pl)) = has_warning (pl_sys pl)"
  "cancelled (pl_sys pl) \<Longrightarrow> cancelled (pl_sys (cancel_event env pl))"
  by (auto simp: error_event_def cancel_event_def is_cancelled_def Let_def pl_trigger_def split: prod.split)

lemma supervisor_step_pending:
  assumes "supervisor_step env k ph pl = Some (ph', pl')"
  shows "mset (pl_errors pl') + mset (pending_errors env (k, ph')) = mset (pl_errors pl) + mset (pending_errors env (k, ph))"
    and "pl_has_error pl' \<or> pending_flag env (k, ph') \<longleftrightarrow> pl_has_error pl \<or> pending_flag env (k, ph)"
    and "pl_has_panic pl' \<or> pending_panic env (k, ph') \<longleftrightarrow> pl_has_panic pl \<or> pending_panic env (k, ph)"
    and "promotes pl' = promotes pl" and "has_warning (pl_sys pl') = has_warning (pl_sys pl)"
    and "pl_has_error pl \<Longrightarrow> pl_has_error pl'" and "pl_has_panic pl \<Longrightarrow> pl_has_panic pl'"
  using assms by (auto simp: supervisor_step_def promotes_def split: supervisor_phase.splits option.splits if_splits)

lemma finish_step_pending:
  assumes "finish_step env (en_phase en) (en_pipeline en) = Some (ph', pl')"
    and "en' = en\<lparr> en_phase := ph', en_pipeline := pl' \<rparr>"
  shows "all_errors env en' = all_errors env en" and "any_error env en' = any_error env en"
    and "any_panic env en' = any_panic env en" and "promotes pl' = promotes (en_pipeline en)"
    and "has_warning (pl_sys pl') = has_warning (pl_sys (en_pipeline en))"
  using assms(1)
  by (cases "en_phase en";
      auto simp: assms(2) finish_step_def all_errors_def any_error_def any_panic_def pending_promotion_def
        promotes_def close_stats_sender_def pl_trigger_def split: if_splits)+

lemma conserved:
  "(a :: 'a multiset) + c = a' + c' \<Longrightarrow> b + c' = b' + c \<Longrightarrow> a + b + d = a' + b' + d"
proof -
  assume "a + c = a' + c'" "b + c' = b' + c"
  then have "(a + b) + (c + c') = (a' + b') + (c + c')" by (metis add.assoc add.commute)
  then show ?thesis by simp
qed

lemma ending_step_pending:
  assumes "ending_step env a en = Some en'"
  shows "all_errors env en' = all_errors env en \<and> any_error env en' = any_error env en
    \<and> any_panic env en' = any_panic env en \<and> has_warning (pl_sys (en_pipeline en')) = has_warning (pl_sys (en_pipeline en))"
proof (cases a)
  case (Supervise i)
  with assms obtain k ph ph' pl where i: "i < length (en_supervisors en)" "en_supervisors en ! i = (k, ph)"
    and s: "supervisor_step env k ph (en_pipeline en) = Some (ph', pl)"
    and en': "en' = en\<lparr> en_supervisors := (en_supervisors en)[i := (k, ph')], en_pipeline := pl \<rparr>"
    by (auto split: if_splits prod.splits)
  note p = supervisor_step_pending [OF s]
  have f: "en_pipeline en' = pl" "en_supervisors en' = (en_supervisors en)[i := (k, ph')]"
    "pending_promotion en' = pending_promotion en" by (simp_all add: en' pending_promotion_def p(4))
  have "all_errors env en' = all_errors env en"
    unfolding all_errors_def f
    by (rule conserved [OF p(1) concat_map_update [OF i(1), of "pending_errors env" "(k, ph')", unfolded i(2)]])
  moreover have "any_error env en' = any_error env en"
    using ex_step [OF i, where P = "pending_flag env", OF p(2,6)] by (auto simp: any_error_def en' p(4))
  moreover have "any_panic env en' = any_panic env en"
    using ex_step [OF i, where P = "pending_panic env", OF p(3,7)] by (auto simp: any_panic_def en')
  ultimately show ?thesis using p(5) by (simp add: en')
next
  case Finish
  with assms obtain ph' pl' where "finish_step env (en_phase en) (en_pipeline en) = Some (ph', pl')"
    "en' = en\<lparr> en_phase := ph', en_pipeline := pl' \<rparr>" by auto
  from finish_step_pending [OF this] this(2) show ?thesis by simp
qed


section \<open>Joining at once\<close>

definition promote :: "'w pipeline \<Rightarrow> 'w pipeline" where
  "promote pl = (if promotes pl then record_error (Message warnings_promoted) pl else pl)"

lemma join_supervised_failure:
  "join_supervised env (k, r) pl = (case failure env k r of
     None \<Rightarrow> pl
   | Some (e, panics) \<Rightarrow> pl\<lparr> pl_sys := (pl_sys pl)\<lparr> cancelled := True \<rparr>, pl_has_error := True,
       pl_has_panic := pl_has_panic pl \<or> panics, pl_errors := pl_errors pl @ [e] \<rparr>)"
  by (auto simp: join_supervised_def failure_def join_stage_def join_worker_def record_error_def
      split: supervised.splits outcome.splits)

lemma joins_outcome:
  "all_errors env (ending_start krs pl) = mset (pl_errors (promote (fold (join_supervised env) krs pl)))
   \<and> any_error env (ending_start krs pl) = pl_has_error (promote (fold (join_supervised env) krs pl))
   \<and> any_panic env (ending_start krs pl) = pl_has_panic (promote (fold (join_supervised env) krs pl))
   \<and> pipeline_has_warning (promote (fold (join_supervised env) krs pl)) = pipeline_has_warning pl"
proof (induction krs arbitrary: pl)
  case Nil
  then show ?case
    by (auto simp: all_errors_def any_error_def any_panic_def ending_start_def promote_def record_error_def
        pending_promotion_def pipeline_has_warning_def)
next
  case (Cons kr krs)
  obtain k r where kr: "kr = (k, r)" by fastforce
  have "all_errors env (ending_start (kr # krs) pl) = all_errors env (ending_start krs (join_supervised env kr pl))
     \<and> any_error env (ending_start (kr # krs) pl) = any_error env (ending_start krs (join_supervised env kr pl))
     \<and> any_panic env (ending_start (kr # krs) pl) = any_panic env (ending_start krs (join_supervised env kr pl))
     \<and> pipeline_has_warning (join_supervised env kr pl) = pipeline_has_warning pl"
    by (cases "failure env k r") (auto simp: kr join_supervised_failure all_errors_def any_error_def any_panic_def
        ending_start_def pending_promotion_def promotes_def pipeline_has_warning_def)
  with Cons.IH [of "join_supervised env kr pl"] show ?case by simp
qed

lemma error_status_cancelled:
  "\<exists>e \<in> set es. is_cancelled_error e \<Longrightarrow> error_status es code = 0"
  by (induction es arbitrary: code) auto

lemma error_status_mset:
  assumes "mset es = mset es'"
  shows "error_status es code = error_status es' code"
proof (cases "list_all (\<lambda>e. \<not> is_cancelled_error e) es")
  case True
  then have "list_all (\<lambda>e. \<not> is_cancelled_error e) es'"
    using mset_eq_setD [OF assms] by (simp add: list_all_iff)
  with True mset_eq_setD [OF assms] show ?thesis by (simp add: error_status_max)
next
  case False
  then have "\<exists>e \<in> set es. is_cancelled_error e" "\<exists>e \<in> set es'. is_cancelled_error e"
    using mset_eq_setD [OF assms] by (auto simp: list_all_iff)
  then show ?thesis by (simp add: error_status_cancelled)
qed

lemma final_status_cong:
  assumes "pl_has_error p = pl_has_error q" and "pl_has_panic p = pl_has_panic q"
    and "mset (pl_errors p) = mset (pl_errors q)" and "pipeline_has_warning p = pipeline_has_warning q"
  shows "fst (final_status a b p) = fst (final_status a b q)"
  using assms error_status_mset [OF assms(3)] by (simp add: final_status_def get_errors_and_consume_def)

text \<open>
  C18: once all outer tasks have come to their end, it does not matter how they were interleaved
  with each other and with the end of the run: the errors are those of joining one stage after
  another as \<open>Pipeline\<close> does, up to their order, the flags are the same, and so is the exit status.
\<close>

theorem late_joins_agree:
  assumes "ending_run env as (ending_start krs pl) = Some en"
    and "list_all (\<lambda>s. snd s = Joined) (en_supervisors en)" and "en_phase en = Returned"
  shows "let p = en_pipeline en; q = promote (fold (join_supervised env) krs pl) in
      mset (pl_errors p) = mset (pl_errors q) \<and> pl_has_error p = pl_has_error q
    \<and> pl_has_panic p = pl_has_panic q
    \<and> fst (final_status indicator_panics ctrl_c p) = fst (final_status indicator_panics ctrl_c q)"
proof -
  let ?s = "ending_start krs pl" and ?p = "en_pipeline en" and ?q = "promote (fold (join_supervised env) krs pl)"
  have i: "all_errors env en = all_errors env ?s \<and> any_error env en = any_error env ?s
      \<and> any_panic env en = any_panic env ?s \<and> pipeline_has_warning ?p = pipeline_has_warning pl"
    by (rule ending_run_invariant [OF _ assms(1)])
      (auto dest!: ending_step_pending simp: pipeline_has_warning_def ending_start_def)
  have j: "\<forall>s \<in> set (en_supervisors en). pending_errors env s = [] \<and> \<not> pending_flag env s \<and> \<not> pending_panic env s"
    using assms(2) by (auto simp: list_all_iff)
  then have "concat (map (pending_errors env) (en_supervisors en)) = []" by simp
  with j have e: "all_errors env en = mset (pl_errors ?p)" "any_error env en = pl_has_error ?p"
    "any_panic env en = pl_has_panic ?p"
    by (auto simp: all_errors_def any_error_def any_panic_def pending_promotion_def assms(3))
  from i e joins_outcome [of env krs pl] have "mset (pl_errors ?p) = mset (pl_errors ?q)"
    "pl_has_error ?p = pl_has_error ?q" "pl_has_panic ?p = pl_has_panic ?q"
    "pipeline_has_warning ?p = pipeline_has_warning ?q" by simp_all
  with final_status_cong [OF this(2,3,1,4)] show ?thesis by simp
qed

text \<open>A run with a lister that fails and a worker that panics; the two outer tasks take turns.\<close>

definition failing_ends :: "(supervised \<times> unit result) list" where
  "failing_ends = [(StageTask ''object lister task panicked: '', Err (Message ''denied'')),
     (WorkerTask, Panic ''overflow'')]"

definition taking_turns :: "ending_action list" where
  "taking_turns = concat (replicate 4 [Supervise 0, Supervise 1]) @ replicate 3 Finish @ [Supervise 1]
     @ replicate 2 Finish"

abbreviation demo_ending :: "string list ending" where
  "demo_ending \<equiv> ending_start failing_ends (pipeline_new demo_config [''a''])"

lemmas ending_eval = ending_start_def failing_ends_def taking_turns_def numeral_eq_Suc supervisor_step_def
  finish_step_def failure_def promotes_def pipeline_new_def error_event_def cancel_event_def is_cancelled_def
  close_stats_sender_def pl_trigger_def sys_new_def demo_env_def demo_config_def config_default_def Let_def

lemma taking_turns_ends:
  "\<exists>en. ending_run demo_env taking_turns demo_ending = Some en
     \<and> list_all (\<lambda>s. snd s = Joined) (en_supervisors en) \<and> en_phase en = Returned"
  by (simp add: ending_eval)

theorem late_joins_agree_witness:
  "\<exists>en. ending_run demo_env taking_turns demo_ending = Some en
     \<and> fst (final_status False False (en_pipeline en)) = 101"
proof -
  obtain en where en: "ending_run demo_env taking_turns demo_ending = Some en"
    "list_all (\<lambda>s. snd s = Joined) (en_supervisors en)" "en_phase en = Returned"
    using taking_turns_ends by blast
  let ?q = "promote (fold (join_supervised demo_env) failing_ends (pipeline_new demo_config [''a'']))"
  have "pl_has_error ?q \<and> pl_has_panic ?q"
    by (simp add: failing_ends_def join_supervised_failure failure_def promote_def record_error_def)
  then have "fst (final_status False False ?q) = 101"
    by (simp add: final_status_def EXIT_CODE_ABNORMAL_TERMINATION_def)
  with late_joins_agree [OF en, of False False] en(1) show ?thesis by (simp add: Let_def)
qed

text \<open>
  But \<open>run\<close> does not wait for the outer tasks: it can return, and the program end with status 0,
  before the failure of a stage is recorded.
\<close>

theorem errors_can_come_too_late:
  "\<exists>as en. ending_run demo_env as demo_ending = Some en \<and> en_phase en = Returned
     \<and> \<not> pl_has_error (en_pipeline en) \<and> fst (final_status False False (en_pipeline en)) = 0
     \<and> list_all (pending_flag demo_env) (en_supervisors en)"
  by (rule exI [of _ "replicate 5 Finish"])
    (simp add: ending_eval final_status_def pipeline_has_warning_def)


section \<open>The order of the effects\<close>

fun in_order :: "'w pipeline \<Rightarrow> supervisor_phase \<Rightarrow> bool" where
  "in_order pl (Flagging e p) \<longleftrightarrow> cancelled (pl_sys pl)"
| "in_order pl (FlaggingPanic e) \<longleftrightarrow> cancelled (pl_sys pl) \<and> pl_has_error pl"
| "in_order pl (Recording e) \<longleftrightarrow> cancelled (pl_sys pl) \<and> pl_has_error pl"
| "in_order pl ph \<longleftrightarrow> True"

definition ordered :: "'w ending \<Rightarrow> bool" where
  "ordered en \<longleftrightarrow> (let p = en_pipeline en in
     (pl_errors p \<noteq> [] \<or> pl_has_panic p \<or> en_phase en = Promoted \<longrightarrow> pl_has_error p)
   \<and> (pl_has_error p \<longrightarrow> cancelled (pl_sys p) \<or> promotes p)
   \<and> (\<forall>s \<in> set (en_supervisors en). in_order p (snd s)))"

lemma in_order_mono:
  "in_order p ph \<Longrightarrow> (cancelled (pl_sys p) \<longrightarrow> cancelled (pl_sys q)) \<Longrightarrow> (pl_has_error p \<longrightarrow> pl_has_error q)
     \<Longrightarrow> in_order q ph"
  by (cases ph) auto

lemma supervisor_step_in_order:
  assumes "supervisor_step env k ph p = Some (ph', q)" and "in_order p ph"
  shows "in_order q ph'" and "cancelled (pl_sys p) \<longrightarrow> cancelled (pl_sys q)"
    and "pl_has_error p \<longrightarrow> pl_has_error q" and "pl_has_error q \<longrightarrow> pl_has_error p \<or> cancelled (pl_sys q)"
    and "pl_errors q \<noteq> [] \<or> pl_has_panic q \<longrightarrow> pl_errors p \<noteq> [] \<or> pl_has_panic p \<or> pl_has_error q"
  using assms by (auto simp: supervisor_step_def split: supervisor_phase.splits option.splits if_splits)

lemma finish_step_in_order:
  assumes "finish_step env ph p = Some (ph', q)" and "ph = Promoted \<longrightarrow> pl_has_error p"
  shows "cancelled (pl_sys p) \<longrightarrow> cancelled (pl_sys q)" and "pl_has_error p \<longrightarrow> pl_has_error q"
    and "pl_has_error q \<longrightarrow> pl_has_error p \<or> promotes q" and "promotes q = promotes p"
    and "pl_errors q \<noteq> [] \<or> pl_has_panic q \<or> ph' = Promoted \<longrightarrow> pl_errors p \<noteq> [] \<or> pl_has_panic p \<or> pl_has_error q"
  using assms
  by (cases ph; auto simp: finish_step_def promotes_def close_stats_sender_def pl_trigger_def split: if_splits)+

lemma ordered_step:
  assumes "ending_step env a en = Some en'" and "ordered en"
  shows "ordered en'"
proof (cases a)
  case (Supervise i)
  with assms(1) obtain k ph ph' q where i: "i < length (en_supervisors en)" "en_supervisors en ! i = (k, ph)"
    and s: "supervisor_step env k ph (en_pipeline en) = Some (ph', q)"
    and en': "en' = en\<lparr> en_supervisors := (en_supervisors en)[i := (k, ph')], en_pipeline := q \<rparr>"
    by (auto split: if_splits prod.splits)
  have "in_order (en_pipeline en) ph"
    using assms(2) nth_mem [OF i(1)] i(2) by (auto simp: ordered_def Let_def)
  note o = supervisor_step_in_order [OF s this]
  have "\<forall>s \<in> set (en_supervisors en'). in_order q (snd s)"
    using assms(2) o(1-3) set_update_subset_insert [of "en_supervisors en" i "(k, ph')"]
    by (auto simp: en' ordered_def Let_def dest!: subsetD intro: in_order_mono)
  with assms(2) o(2-5) show ?thesis
    by (auto simp: en' ordered_def Let_def supervisor_step_pending(4) [OF s])
next
  case Finish
  with assms(1) obtain ph' q where s: "finish_step env (en_phase en) (en_pipeline en) = Some (ph', q)"
    and en': "en' = en\<lparr> en_phase := ph', en_pipeline := q \<rparr>" by auto
  have "en_phase en = Promoted \<longrightarrow> pl_has_error (en_pipeline en)" using assms(2) by (auto simp: ordered_def Let_def)
  note o = finish_step_in_order [OF s this]
  have "\<forall>s \<in> set (en_supervisors en). in_order q (snd s)"
    using assms(2) o(1,2) by (auto simp: ordered_def Let_def intro: in_order_mono)
  with assms(2) o show ?thesis by (auto simp: en' ordered_def Let_def)
qed

text \<open>
  C29: in every interleaving of the outer tasks with the end of a run, and at every moment, a
  recorded error and the panic flag imply the error flag, and the error flag implies that the
  token is cancelled, unless warnings are promoted to errors. So a caller that finds no error flag
  misses no error that is in the list, and whoever finds it set finds a run that is told to stop.
\<close>

theorem error_flag_order:
  assumes "ending_run env as (ending_start krs pl) = Some en"
    and "\<not> pl_has_error pl" and "\<not> pl_has_panic pl" and "pl_errors pl = []"
  shows "let p = en_pipeline en in
      (pl_errors p \<noteq> [] \<or> pl_has_panic p \<longrightarrow> pl_has_error p)
    \<and> (pl_has_error p \<longrightarrow> cancelled (pl_sys p) \<or> promotes p)"
proof -
  have start: "ordered (ending_start krs pl)"
    using assms(2-4) by (auto simp: ordered_def ending_start_def Let_def)
  have "ordered en"
    by (rule ending_run_invariant [where P = ordered, OF _ assms(1)]) (use start in \<open>auto intro: ordered_step\<close>)
  then show ?thesis by (auto simp: ordered_def Let_def)
qed

theorem error_flag_order_witness:
  "\<exists>en. ending_run demo_env taking_turns demo_ending = Some en
     \<and> (pl_has_error (en_pipeline en) \<longrightarrow> cancelled (pl_sys (en_pipeline en)) \<or> promotes (en_pipeline en))"
proof -
  obtain en where en: "ending_run demo_env taking_turns demo_ending = Some en"
    using taking_turns_ends by blast
  show ?thesis using error_flag_order [OF en] en by (simp add: pipeline_new_def Let_def)
qed

end
