(* ===== verification/Listing.thy ===== *)
theory Listing
  imports Storage
begin

text \<open>
  The tasks of a parallel listing, interleaved (\<open>list_with_parallel\<close> in
  \<open>src/storage/s3/mod.rs\<close>). A task lists one prefix. It releases its permit of the semaphore
  before it spawns the first task for a sub-prefix, acquires a permit for each task it spawns, and
  joins them all before it goes on to the next page, without a permit then.

  A task is a tree: it owns the tasks it has spawned in its \<open>JoinSet\<close>. A step of one task goes
  from one look at the token, request, send or wait to the next; its effects on the state the
  tasks share are the operations of \<open>Storage\<close>. An aborted task makes no further step.
\<close>

section \<open>Tasks\<close>

datatype listing_phase =
    AtPage
  | Fetching
  | SendingPage "s3_object list" list_page
  | Spawning "string list" list_page
  | Acquiring string "string list" list_page
  | Joining list_page
  | Ended "unit result"

datatype listing_task =
  ListingTask (lt_prefix: string) (lt_depth: nat) (lt_cursor: cursor) (lt_permit: bool)
    (lt_phase: listing_phase) (lt_subtasks: "listing_task list")

text \<open>The state the tasks share: the free permits of the semaphore, and the state of the run.\<close>

record 'w listing_shared =
  ls_free :: nat
  ls_sys :: "'w sys"

fun permits_held :: "listing_task \<Rightarrow> nat" where
  "permits_held (ListingTask p d cur permit ph ts) = of_bool permit + sum_list (map permits_held ts)"

definition spawn_listing :: "s3_storage \<Rightarrow> string \<Rightarrow> nat \<Rightarrow> listing_task" where
  "spawn_listing st p d = ListingTask (effective_prefix st p) d cursor_start True AtPage []"

text \<open>A task that returns drops its permit and its \<open>JoinSet\<close>, which aborts what is left in it.\<close>

definition end_listing ::
  "unit result \<Rightarrow> listing_task \<Rightarrow> nat \<Rightarrow> 'w sys \<Rightarrow> listing_task \<times> 'w listing_shared" where
  "end_listing r t free s =
     (ListingTask (lt_prefix t) (lt_depth t) (lt_cursor t) False (Ended r) [],
      \<lparr> ls_free = free + permits_held t, ls_sys = s \<rparr>)"

definition remove_nth :: "nat \<Rightarrow> 'a list \<Rightarrow> 'a list" where
  "remove_nth i xs = take i xs @ drop (Suc i) xs"


section \<open>Steps\<close>

text \<open>
  A step of the task itself; \<open>i\<close> is the subtask that \<open>join_next\<close> finds finished.
\<close>

definition join_step ::
  "s3_storage \<Rightarrow> 'w env \<Rightarrow> listing_mode \<Rightarrow> nat \<Rightarrow> list_page \<Rightarrow> listing_task \<Rightarrow> 'w listing_shared
     \<Rightarrow> (listing_task \<times> 'w listing_shared) option" where
  "join_step st env mode i page t sh = (case t of ListingTask p d cur b ph ts \<Rightarrow>
     let k = ls_free sh; s = ls_sys sh in
     if ts = [] then
       Some (if lp_is_truncated page then
               (case next_cursor st p mode page cur of
                  Ok cur' \<Rightarrow> (ListingTask p d cur' b AtPage [], sh)
                | Err e \<Rightarrow> end_listing (Err e) t k s
                | Panic m \<Rightarrow> end_listing (Panic m) t k s)
             else end_listing (Ok ()) t k s)
     else if i < length ts then
       (case lt_phase (ts ! i) of
          Ended r \<Rightarrow> Some (case join_subtasks env mode [r] s of
              (Ok u, s') \<Rightarrow> (ListingTask p d cur b ph (remove_nth i ts), sh\<lparr> ls_sys := s' \<rparr>)
            | (r', s') \<Rightarrow> end_listing r' t k s')
        | _ \<Rightarrow> None)
     else None)"

definition own_step ::
  "s3_storage \<Rightarrow> 'w env \<Rightarrow> listing_mode \<Rightarrow> i32 \<Rightarrow> nat \<Rightarrow> listing_task \<Rightarrow> 'w listing_shared
     \<Rightarrow> (listing_task \<times> 'w listing_shared) option" where
  "own_step st env mode mk i t sh = (case t of ListingTask p d cur b ph ts \<Rightarrow>
     let k = ls_free sh; s = ls_sys sh in
     case ph of
       AtPage \<Rightarrow> (case is_cancelled env s of (c, s') \<Rightarrow>
           Some (if c = Ok True then end_listing (Ok ()) t k s'
                 else (ListingTask p d cur b Fetching ts, sh\<lparr> ls_sys := s' \<rparr>)))
     | Fetching \<Rightarrow> (case seq (exec_rate_limit_one st)
           (fetch_list_page st env mode p (parallel_delimiter st d) mk cur) s of
         (Ok page, s') \<Rightarrow>
           Some (ListingTask p d cur b (SendingPage (lp_objects page) page) ts, sh\<lparr> ls_sys := s' \<rparr>)
       | (Err e, s') \<Rightarrow> Some (end_listing (Err e) t k s')
       | (Panic m, s') \<Rightarrow> Some (end_listing (Panic m) t k s'))
     | SendingPage [] page \<Rightarrow>
         Some (ListingTask p d cur b (Spawning (lp_sub_prefixes page) page) ts, sh)
     | SendingPage (x # xs) page \<Rightarrow> (case send_listed_objects env [x] s of
         (Ok stop, s') \<Rightarrow> Some (if stop then end_listing (Ok ()) t k s'
             else (ListingTask p d cur b (SendingPage xs page) ts, sh\<lparr> ls_sys := s' \<rparr>))
       | (Err e, s') \<Rightarrow> Some (end_listing (Err e) t k s')
       | (Panic m, s') \<Rightarrow> Some (end_listing (Panic m) t k s'))
     | Spawning [] page \<Rightarrow> Some (ListingTask p d cur b (Joining page) ts, sh)
     | Spawning (q # qs) page \<Rightarrow> (case is_cancelled env s of (c, s') \<Rightarrow>
         Some (if c = Ok True then (ListingTask p d cur b (Joining page) ts, sh\<lparr> ls_sys := s' \<rparr>)
               else (ListingTask p d cur False (Acquiring q qs page) ts,
                     \<lparr> ls_free = k + of_bool b, ls_sys = s' \<rparr>)))
     | Acquiring q qs page \<Rightarrow>
         if k = 0 then None
         else Some (ListingTask p d cur b (Spawning qs page) (ts @ [spawn_listing st q (Suc d)]),
                    sh\<lparr> ls_free := k - 1 \<rparr>)
     | Joining page \<Rightarrow> join_step st env mode i page t sh
     | Ended r \<Rightarrow> None)"

text \<open>A step of the task at the end of a path of subtask indices; the other tasks stay as they are.\<close>

fun step_at ::
  "s3_storage \<Rightarrow> 'w env \<Rightarrow> listing_mode \<Rightarrow> i32 \<Rightarrow> nat list \<Rightarrow> nat \<Rightarrow> listing_task
     \<Rightarrow> 'w listing_shared \<Rightarrow> (listing_task \<times> 'w listing_shared) option" where
  "step_at st env mode mk [] i t sh = own_step st env mode mk i t sh"
| "step_at st env mode mk (j # js) i (ListingTask p d cur b ph ts) sh =
     (if j < length ts then
        (case step_at st env mode mk js i (ts ! j) sh of
           None \<Rightarrow> None
         | Some (t', sh') \<Rightarrow> Some (ListingTask p d cur b ph (ts[j := t']), sh'))
      else None)"

type_synonym listing_action = "nat list \<times> nat"

fun listing_run ::
  "s3_storage \<Rightarrow> 'w env \<Rightarrow> listing_mode \<Rightarrow> i32 \<Rightarrow> listing_action list \<Rightarrow> listing_task
     \<Rightarrow> 'w listing_shared \<Rightarrow> (listing_task \<times> 'w listing_shared) option" where
  "listing_run st env mode mk [] t sh = Some (t, sh)"
| "listing_run st env mode mk ((path, i) # as) t sh =
     (case step_at st env mode mk path i t sh of
        None \<Rightarrow> None
      | Some (t', sh') \<Rightarrow> listing_run st env mode mk as t' sh')"

text \<open>The first task takes one of the permits before it starts.\<close>

definition listing_start :: "s3_storage \<Rightarrow> 'w sys \<Rightarrow> 'w listing_shared" where
  "listing_start st s = \<lparr> ls_free = st_listing_permits st - 1, ls_sys = s \<rparr>"

end
