(* ===== verification/Listing_Facts.thy ===== *)
theory Listing_Facts
  imports Listing
begin

text \<open>
  The tasks of a parallel listing: what a step amounts to, the permits, and why some task can
  always move.
\<close>

section \<open>Steps in a tree of tasks\<close>

lemma step_at_induct [consumes 1, case_names own sub]:
  assumes "step_at st env mode mk path i t sh = Some (t', sh')"
    and "\<And>i t sh t' sh'. own_step st env mode mk i t sh = Some (t', sh') \<Longrightarrow> P t sh t' sh'"
    and "\<And>j t1 p d cur b ph ts sh sh'. j < length ts \<Longrightarrow> P (ts ! j) sh t1 sh' \<Longrightarrow>
      P (ListingTask p d cur b ph ts) sh (ListingTask p d cur b ph (ts[j := t1])) sh'"
  shows "P t sh t' sh'"
  using assms
proof (induction st env mode mk path i t sh arbitrary: t' sh' rule: step_at.induct)
  case (1 st env mode mk i t sh)
  from 1(1) [unfolded step_at.simps] show ?case by (rule 1(2))
next
  case (2 st env mode mk j js i p d cur b ph ts sh)
  then show ?case by (auto split: if_splits option.splits)
qed

lemma listing_run_invariant:
  assumes "\<And>path i t sh t' sh'. step_at st env mode mk path i t sh = Some (t', sh') \<Longrightarrow> P t sh \<Longrightarrow> P t' sh'"
  shows "listing_run st env mode mk as t sh = Some (t', sh') \<Longrightarrow> P t sh \<Longrightarrow> P t' sh'"
proof (induction as arbitrary: t sh)
  case (Cons a as)
  obtain path i where a: "a = (path, i)" by fastforce
  with Cons.prems obtain t1 sh1 where 1: "step_at st env mode mk path i t sh = Some (t1, sh1)"
    "listing_run st env mode mk as t1 sh1 = Some (t', sh')" by (auto split: option.splits)
  show ?case by (rule Cons.IH [OF 1(2) assms [OF 1(1) Cons.prems(2)]])
qed simp

lemma mset_remove_nth: "i < length xs \<Longrightarrow> mset xs = add_mset (xs ! i) (mset (remove_nth i xs))"
  by (subst id_take_nth_drop [of i xs]) (simp_all add: remove_nth_def)

lemma set_remove_nth: "i < length xs \<Longrightarrow> set (remove_nth i xs) \<subseteq> set xs"
  by (auto simp: remove_nth_def dest: in_set_takeD in_set_dropD)

lemma mset_update_nth:
  "i < length xs \<Longrightarrow> mset (xs[i := x]) = add_mset x (mset (remove_nth i xs))"
  by (simp add: upd_conv_take_nth_drop remove_nth_def)

lemma remove_nth_update [simp]: "remove_nth i (xs[i := x]) = remove_nth i xs"
  by (simp add: remove_nth_def)

lemma sum_list_mset: "sum_list (map f xs) = \<Sum>\<^sub># (image_mset f (mset xs))"
  by (simp flip: sum_mset_sum_list)

lemma sum_list_nth:
  fixes f :: "'a \<Rightarrow> nat"
  assumes "i < length xs"
  shows "sum_list (map f xs) = f (xs ! i) + sum_list (map f (remove_nth i xs))"
    and "sum_list (map f (xs[i := x])) = f x + sum_list (map f (remove_nth i xs))"
  unfolding sum_list_mset mset_update_nth [OF assms] by (simp_all add: mset_remove_nth [OF assms])


section \<open>The permits\<close>

lemma end_listing_iff:
  "end_listing r t k s = (t', sh') \<longleftrightarrow>
     t' = ListingTask (lt_prefix t) (lt_depth t) (lt_cursor t) False (Ended r) []
     \<and> sh' = \<lparr> ls_free = k + permits_held t, ls_sys = s \<rparr>"
  by (auto simp: end_listing_def)

fun wf_listing :: "listing_task \<Rightarrow> bool" where
  "wf_listing (ListingTask p d cur b ph ts) \<longleftrightarrow> list_all wf_listing ts \<and> (case ph of
       Spawning qs page \<Rightarrow> b \<longrightarrow> ts = []
     | Joining page \<Rightarrow> b \<longrightarrow> ts = []
     | Acquiring q qs page \<Rightarrow> \<not> b
     | Ended r \<Rightarrow> \<not> b \<and> ts = []
     | _ \<Rightarrow> ts = [])"

lemma wf_start [simp]:
  "wf_listing (spawn_listing st p d)" "permits_held (spawn_listing st p d) = 1"
  by (simp_all add: spawn_listing_def)

lemma wf_ended: "wf_listing t \<Longrightarrow> lt_phase t = Ended r \<Longrightarrow> permits_held t = 0"
  by (cases t) simp

lemma fetch_step:
  "seq (exec_rate_limit_one st) (fetch_list_page st env mode p delim mk cur) s =
     (case fetch_answer st env mode p delim mk cur (world s) of
        (r, w) \<Rightarrow> (r, s\<lparr> world := w, rate_tokens := rate_tokens s + rated st 1 \<rparr>))"
  by (simp add: seq_def bind_def exec_rate_limit_one_def exec_rate_limit_run fetch_list_page_answer
      rated_def split: prod.splits)

text \<open>
  What a step of a task amounts to. A task ends early only in a cancelled run, when its channel
  is gone, or after a failure of its request, of its paging or of a subtask.
\<close>

definition calm :: "'w env \<Rightarrow> 'w sys \<Rightarrow> 'w sys \<Rightarrow> bool" where
  "calm env s s' \<longleftrightarrow> (quiet env \<and> \<not> cancelled s \<longrightarrow> \<not> cancelled s')"

inductive listing_moves ::
  "s3_storage \<Rightarrow> 'w env \<Rightarrow> listing_mode \<Rightarrow> i32 \<Rightarrow> listing_task \<Rightarrow> 'w listing_shared
     \<Rightarrow> listing_task \<Rightarrow> 'w listing_shared \<Rightarrow> bool"
  for st env mode mk where
  looked: "sent s' = sent s \<Longrightarrow> calm env s s' \<Longrightarrow>
    listing_moves st env mode mk (ListingTask p d cur b AtPage ts) \<lparr> ls_free = k, ls_sys = s \<rparr>
      (ListingTask p d cur b Fetching ts) \<lparr> ls_free = k, ls_sys = s' \<rparr>"
| fetched: "fst (fetch_answer st env mode p (parallel_delimiter st d) mk cur (world s)) = Ok page \<Longrightarrow>
    sent s' = sent s \<Longrightarrow> calm env s s' \<Longrightarrow>
    listing_moves st env mode mk (ListingTask p d cur b Fetching ts) \<lparr> ls_free = k, ls_sys = s \<rparr>
      (ListingTask p d cur b (SendingPage (lp_objects page) page) ts) \<lparr> ls_free = k, ls_sys = s' \<rparr>"
| sent_one: "sent s' = sent s @ [x] \<Longrightarrow> calm env s s' \<Longrightarrow>
    listing_moves st env mode mk (ListingTask p d cur b (SendingPage (x # xs) page) ts) \<lparr> ls_free = k, ls_sys = s \<rparr>
      (ListingTask p d cur b (SendingPage xs page) ts) \<lparr> ls_free = k, ls_sys = s' \<rparr>"
| sent_all:
    "listing_moves st env mode mk (ListingTask p d cur b (SendingPage [] page) ts) sh
      (ListingTask p d cur b (Spawning (lp_sub_prefixes page) page) ts) sh"
| spawned_all:
    "listing_moves st env mode mk (ListingTask p d cur b (Spawning [] page) ts) sh
      (ListingTask p d cur b (Joining page) ts) sh"
| cut_short: "sent s' = sent s \<Longrightarrow> \<not> (quiet env \<and> \<not> cancelled s) \<Longrightarrow>
    listing_moves st env mode mk (ListingTask p d cur b (Spawning qs page) ts) \<lparr> ls_free = k, ls_sys = s \<rparr>
      (ListingTask p d cur b (Joining page) ts) \<lparr> ls_free = k, ls_sys = s' \<rparr>"
| waits: "sent s' = sent s \<Longrightarrow> calm env s s' \<Longrightarrow>
    listing_moves st env mode mk (ListingTask p d cur b (Spawning (q # qs) page) ts) \<lparr> ls_free = k, ls_sys = s \<rparr>
      (ListingTask p d cur False (Acquiring q qs page) ts) \<lparr> ls_free = k + of_bool b, ls_sys = s' \<rparr>"
| acquired:
    "listing_moves st env mode mk (ListingTask p d cur b (Acquiring q qs page) ts) \<lparr> ls_free = Suc k, ls_sys = s \<rparr>
      (ListingTask p d cur b (Spawning qs page) (ts @ [spawn_listing st q (Suc d)])) \<lparr> ls_free = k, ls_sys = s \<rparr>"
| joined: "i < length ts \<Longrightarrow> lt_phase (ts ! i) = Ended (Ok u) \<Longrightarrow>
    listing_moves st env mode mk (ListingTask p d cur b (Joining page) ts) sh
      (ListingTask p d cur b (Joining page) (remove_nth i ts)) sh"
| next_page: "lp_is_truncated page \<Longrightarrow> next_cursor st p mode page cur = Ok cur' \<Longrightarrow>
    listing_moves st env mode mk (ListingTask p d cur b (Joining page) []) sh
      (ListingTask p d cur' b AtPage []) sh"
| finished: "\<not> lp_is_truncated page \<Longrightarrow>
    listing_moves st env mode mk (ListingTask p d cur b (Joining page) []) \<lparr> ls_free = k, ls_sys = s \<rparr>
      (ListingTask p d cur False (Ended (Ok ())) []) \<lparr> ls_free = k + of_bool b, ls_sys = s \<rparr>"
| aborted: "sent s' = sent s \<Longrightarrow> \<forall>r'. ph \<noteq> Ended r' \<Longrightarrow>
    (quiet env \<and> \<not> cancelled s \<Longrightarrow>
       (\<exists>w. \<not> is_ok (fst (fetch_answer st env mode p (parallel_delimiter st d) mk cur w)))
       \<or> (\<exists>page. ph = Joining page \<and> lp_is_truncated page \<and> \<not> is_ok (next_cursor st p mode page cur))
       \<or> (\<exists>u \<in> set ts. \<exists>r. lt_phase u = Ended r \<and> r \<noteq> Ok ())) \<Longrightarrow>
    listing_moves st env mode mk (ListingTask p d cur b ph ts) \<lparr> ls_free = k, ls_sys = s \<rparr>
      (ListingTask p d cur False (Ended r) [])
      \<lparr> ls_free = k + permits_held (ListingTask p d cur b ph ts), ls_sys = s' \<rparr>"

lemma send_one_cases:
  obtains (sent) s' where "send_listed_objects env [x] s = (Ok False, s')" "sent s' = sent s @ [x]" "calm env s s'"
  | (stop) r s' where "send_listed_objects env [x] s = (r, s')" "r \<noteq> Ok False" "sent s' = sent s"
      "\<not> (quiet env \<and> \<not> cancelled s)"
proof (cases "quiet env \<and> \<not> cancelled s")
  case True
  then show thesis
    by (intro sent [of "s\<lparr> sent := sent s @ [x] \<rparr>"])
      (simp_all add: send_listed_quiet calm_def del: send_listed_objects.simps)
next
  case False
  obtain c w where c: "is_cancelled env s = (Ok c, s\<lparr> world := w, cancelled := c \<rparr>)"
    by (rule is_cancelled_cases)
  show thesis
  proof (cases "\<not> c \<and> env_send env (sent s) = Accepts")
    case True
    with c False show thesis by (intro sent) (auto simp: bind_def stage_send_def calm_def)
  next
    case n: False
    show thesis
      by (rule stop [OF surjective_pairing])
        (use n c False in \<open>auto simp: bind_def stage_send_def split: send_env.splits\<close>)
  qed
qed

lemma is_cancelled_calm:
  obtains c s' where "is_cancelled env s = (Ok c, s')" "sent s' = sent s" "calm env s s'"
    "quiet env \<and> \<not> cancelled s \<longrightarrow> \<not> c"
  by (rule is_cancelled_cases [of env s]) (force simp: calm_def quiet_is_cancelled)

lemma end_moves:
  assumes "end_listing r (ListingTask p d cur b ph ts) k s' = (t', sh')" and "sent s' = sent s"
    and "\<forall>r'. ph \<noteq> Ended r'"
    and "quiet env \<and> \<not> cancelled s \<Longrightarrow>
       (\<exists>w. \<not> is_ok (fst (fetch_answer st env mode p (parallel_delimiter st d) mk cur w)))
       \<or> (\<exists>page. ph = Joining page \<and> lp_is_truncated page \<and> \<not> is_ok (next_cursor st p mode page cur))
       \<or> (\<exists>u \<in> set ts. \<exists>r. lt_phase u = Ended r \<and> r \<noteq> Ok ())"
  shows "listing_moves st env mode mk (ListingTask p d cur b ph ts) \<lparr> ls_free = k, ls_sys = s \<rparr> t' sh'"
  using assms(1) aborted [OF assms(2-4), where r = r and k = k and b = b]
  by (simp add: end_listing_iff del: permits_held.simps)

lemma own_step_moves:
  assumes "own_step st env mode mk i t sh = Some (t', sh')" and "wf_listing t"
  shows "listing_moves st env mode mk t sh t' sh'"
proof -
  obtain p d cur b ph ts where t: "t = ListingTask p d cur b ph ts" by (cases t) auto
  obtain k s where sh: "sh = \<lparr> ls_free = k, ls_sys = s \<rparr>" by (cases sh) auto
  note defs = own_step_def t sh Let_def
  obtain c s1 where c: "is_cancelled env s = (Ok c, s1)" "sent s1 = sent s" "calm env s s1"
    "quiet env \<and> \<not> cancelled s \<longrightarrow> \<not> c" by (rule is_cancelled_calm [of env s])
  show ?thesis
  proof (cases ph)
    case AtPage
    with assms c show ?thesis
      by (auto simp: defs intro!: looked elim!: end_moves split: if_splits)
  next
    case Fetching
    with assms show ?thesis
      by (auto simp: defs fetch_step calm_def intro!: fetched elim!: end_moves
          split: prod.splits outcome.splits) (metis fst_conv is_ok.simps)+
  next
    case (SendingPage xs page)
    show ?thesis
    proof (cases xs)
      case (Cons x ys)
      then show ?thesis
      proof (cases rule: send_one_cases [of env x s])
        case (sent s')
        with assms SendingPage Cons show ?thesis by (auto simp: defs intro: sent_one)
      next
        case (stop r s')
        with assms SendingPage Cons show ?thesis
          by (cases r) (auto simp: defs elim!: end_moves)
      qed
    qed (use assms SendingPage in \<open>auto simp: defs intro: sent_all\<close>)
  next
    case (Spawning qs page)
    show ?thesis
      using assms c Spawning by (cases qs) (auto simp: defs intro!: spawned_all cut_short waits split: if_splits)
  next
    case (Acquiring q qs page)
    with assms show ?thesis by (cases k) (auto simp: defs intro: acquired)
  next
    case (Joining page)
    have j: "join_step st env mode i page t sh = Some (t', sh')"
      using assms(1) Joining by (simp add: defs)
    show ?thesis
    proof (cases "ts = []")
      case True
      show ?thesis
      proof (cases "lp_is_truncated page")
        case trunc: True
        show ?thesis
          using j Joining True trunc
          by (cases "next_cursor st p mode page cur")
            (auto simp: defs join_step_def intro: next_page elim!: end_moves)
      next
        case False
        with j Joining True finished [OF False, of st env mode mk p d cur b k s] show ?thesis
          by (simp add: defs join_step_def end_listing_iff)
      qed
    next
      case False
      with j have i: "i < length ts" and "\<exists>r. lt_phase (ts ! i) = Ended r"
        by (auto simp: defs join_step_def split: if_splits listing_phase.splits)
      then obtain r where r: "lt_phase (ts ! i) = Ended r" by blast
      show ?thesis
      proof (cases r)
        case (Ok u)
        with j False i r Joining show ?thesis
          by (auto simp: defs join_step_def intro: joined)
      qed (use j False i r Joining nth_mem [OF i] in \<open>auto simp: defs join_step_def elim!: end_moves\<close>)
    qed
  next
    case (Ended r)
    with assms show ?thesis by (simp add: defs)
  qed
qed

lemma moves_wf:
  assumes "listing_moves st env mode mk t sh t' sh'" and "wf_listing t"
  shows "wf_listing t'" and "permits_held t' + ls_free sh' = permits_held t + ls_free sh"
  using assms
  by (induction rule: listing_moves.induct)
    (auto simp: list_all_iff sum_list_nth wf_ended dest: set_remove_nth [THEN subsetD])

lemma step_at_wf:
  assumes "step_at st env mode mk path i t sh = Some (t', sh')"
  shows "wf_listing t \<longrightarrow> wf_listing t' \<and> permits_held t' + ls_free sh' = permits_held t + ls_free sh"
  using assms
proof (induction rule: step_at_induct)
  case (own i t sh t' sh')
  then show ?case using moves_wf [OF own_step_moves] by blast
next
  case (sub j t1 p d cur b ph ts sh sh')
  then show ?case
    by (auto simp: list_all_length nth_list_update sum_list_nth split: listing_phase.splits)
qed

lemma run_wf:
  assumes "listing_run st env mode mk as (spawn_listing st p d) (listing_start st s) = Some (t, sh)"
    and "0 < st_listing_permits st"
  shows "wf_listing t" and "permits_held t + ls_free sh = st_listing_permits st"
proof -
  let ?P = "\<lambda>t sh. wf_listing t \<and> permits_held t + ls_free sh = st_listing_permits st"
  have "?P t sh"
    by (rule listing_run_invariant [where P = ?P, OF _ assms(1)])
      (use step_at_wf assms(2) in \<open>fastforce simp: listing_start_def\<close>)+
  then show "wf_listing t" "permits_held t + ls_free sh = st_listing_permits st" by simp_all
qed


section \<open>No deadlock\<close>

text \<open>A task with a permit can move; a task that waits for one holds none.\<close>

definition can_move :: "s3_storage \<Rightarrow> 'w env \<Rightarrow> listing_mode \<Rightarrow> i32 \<Rightarrow> listing_task \<Rightarrow> 'w listing_shared \<Rightarrow> bool" where
  "can_move st env mode mk t sh \<longleftrightarrow> (\<exists>path i t' sh'. step_at st env mode mk path i t sh = Some (t', sh'))"

lemma can_move_sub:
  assumes "can_move st env mode mk u sh" and "u \<in> set ts"
  shows "can_move st env mode mk (ListingTask p d cur b ph ts) sh"
proof -
  obtain j where j: "j < length ts" "ts ! j = u" using assms(2) by (auto simp: in_set_conv_nth)
  from assms(1) obtain path i t' sh' where "step_at st env mode mk path i u sh = Some (t', sh')"
    by (auto simp: can_move_def)
  with j show ?thesis unfolding can_move_def by (intro exI [of _ "j # path"] exI [of _ i] exI) simp
qed

lemma can_move_own:
  "own_step st env mode mk i t sh \<noteq> None \<Longrightarrow> can_move st env mode mk t sh"
  unfolding can_move_def by (intro exI [of _ "[]"] exI [of _ i]) auto

lemma own_step_enabled:
  assumes "\<And>q qs page. ph = Acquiring q qs page \<Longrightarrow> 0 < ls_free sh"
    and "\<And>page. ph = Joining page \<Longrightarrow> ts = []" and "\<And>r. ph \<noteq> Ended r"
  shows "can_move st env mode mk (ListingTask p d cur b ph ts) sh"
proof (rule can_move_own [where i = 0], cases ph)
  case (SendingPage xs page)
  then show "own_step st env mode mk 0 (ListingTask p d cur b ph ts) sh \<noteq> None"
    by (cases xs) (auto simp: own_step_def Let_def split: prod.splits outcome.splits)
next
  case (Spawning qs page)
  then show "own_step st env mode mk 0 (ListingTask p d cur b ph ts) sh \<noteq> None"
    by (cases qs) (auto simp: own_step_def Let_def split: prod.splits outcome.splits)
qed (use assms in \<open>auto simp: own_step_def join_step_def Let_def split: prod.splits outcome.splits\<close>)

lemma sum_list_pos: "0 < sum_list (map f xs) \<Longrightarrow> \<exists>x \<in> set xs. 0 < f x" for f :: "'a \<Rightarrow> nat"
  by (induction xs) auto

lemma holder_moves: "wf_listing t \<Longrightarrow> 0 < permits_held t \<Longrightarrow> can_move st env mode mk t sh"
proof (induction t)
  case (ListingTask p d cur b ph ts)
  show ?case
  proof (cases b)
    case True
    with ListingTask.prems show ?thesis by (intro own_step_enabled) (auto split: listing_phase.splits)
  next
    case False
    with ListingTask.prems(2) obtain u where u: "u \<in> set ts" "0 < permits_held u"
      using sum_list_pos [of permits_held ts] by auto
    with ListingTask.prems(1) have "wf_listing u" by (simp add: list_all_iff)
    from can_move_sub [OF ListingTask.IH [OF u(1) this u(2)] u(1)] show ?thesis .
  qed
qed

lemma free_permit_moves:
  "0 < ls_free sh \<Longrightarrow> \<not> (\<exists>r. lt_phase t = Ended r) \<Longrightarrow> can_move st env mode mk t sh"
proof (induction t)
  case (ListingTask p d cur b ph ts)
  show ?case
  proof (cases "\<exists>page u. ph = Joining page \<and> u \<in> set ts")
    case True
    then obtain page u where u: "ph = Joining page" "u \<in> set ts" by blast
    show ?thesis
    proof (cases "\<exists>r. lt_phase u = Ended r")
      case ended: True
      from u(2) obtain j where j: "j < length ts" "ts ! j = u" by (auto simp: in_set_conv_nth)
      with ended u show ?thesis
        by (intro can_move_own [where i = j]) (auto simp: own_step_def join_step_def Let_def)
    next
      case False
      from can_move_sub [OF ListingTask.IH [OF u(2) ListingTask.prems(1) False] u(2)] show ?thesis .
    qed
  next
    case False
    with ListingTask.prems show ?thesis by (intro own_step_enabled) auto
  qed
qed

lemma listing_moves_on:
  assumes "wf_listing t" and "0 < permits_held t + ls_free sh" and "\<not> (\<exists>r. lt_phase t = Ended r)"
  shows "can_move st env mode mk t sh"
  using assms holder_moves free_permit_moves by (cases "0 < ls_free sh") auto

end
