(* ===== verification/Listing_Work.thy ===== *)
theory Listing_Work
  imports Listing_Facts
begin

text \<open>
  What the tasks of a parallel listing have still to send, and the steps they have still to take,
  on a service whose answers do not change during the listing.
\<close>

section \<open>What is left to list\<close>

text \<open>
  A service whose answers do not change during the listing: whenever a request for a page
  succeeds, it returns the page \<open>answers\<close> gives. The pages of a prefix then form a tree; it is
  described by the objects on it and by the number of steps that list it.
\<close>

type_synonym answers = "string \<Rightarrow> string option \<Rightarrow> cursor \<Rightarrow> list_page"

definition answers_are :: "s3_storage \<Rightarrow> 'w env \<Rightarrow> listing_mode \<Rightarrow> i32 \<Rightarrow> answers \<Rightarrow> bool" where
  "answers_are st env mode mk ans \<longleftrightarrow> (\<forall>p delim cur w.
     case fst (fetch_answer st env mode p delim mk cur w) of Ok page \<Rightarrow> page = ans p delim cur | _ \<Rightarrow> True)"

definition always_answers :: "s3_storage \<Rightarrow> 'w env \<Rightarrow> listing_mode \<Rightarrow> i32 \<Rightarrow> answers \<Rightarrow> bool" where
  "always_answers st env mode mk ans \<longleftrightarrow>
     (\<forall>p delim cur w. fst (fetch_answer st env mode p delim mk cur w) = Ok (ans p delim cur))"

inductive
  page_tree :: "s3_storage \<Rightarrow> listing_mode \<Rightarrow> answers \<Rightarrow> string \<Rightarrow> nat \<Rightarrow> cursor
     \<Rightarrow> s3_object multiset \<Rightarrow> nat \<Rightarrow> bool"
  and page_trees :: "s3_storage \<Rightarrow> listing_mode \<Rightarrow> answers \<Rightarrow> string list \<Rightarrow> nat
     \<Rightarrow> s3_object multiset \<Rightarrow> nat \<Rightarrow> bool"
  and pages_after :: "s3_storage \<Rightarrow> listing_mode \<Rightarrow> answers \<Rightarrow> string \<Rightarrow> nat \<Rightarrow> cursor \<Rightarrow> list_page
     \<Rightarrow> s3_object multiset \<Rightarrow> nat \<Rightarrow> bool"
  for st mode ans where
  page: "page = ans p (parallel_delimiter st d) cur \<Longrightarrow>
    page_trees st mode ans (lp_sub_prefixes page) (Suc d) Y j \<Longrightarrow>
    pages_after st mode ans p d cur page Z k \<Longrightarrow>
    page_tree st mode ans p d cur (mset (lp_objects page) + Y + Z) (5 + length (lp_objects page) + j + k)"
| no_prefixes: "page_trees st mode ans [] d {#} 0"
| more_prefixes: "page_tree st mode ans (effective_prefix st q) d cursor_start X i \<Longrightarrow>
    page_trees st mode ans qs d Y j \<Longrightarrow>
    page_trees st mode ans (q # qs) d (X + Y) (3 + i + j)"
| last: "\<not> lp_is_truncated page \<Longrightarrow> pages_after st mode ans p d cur page {#} 0"
| truncated: "lp_is_truncated page \<Longrightarrow> next_cursor st p mode page cur = Ok cur' \<Longrightarrow>
    page_tree st mode ans p d cur' Z k \<Longrightarrow> pages_after st mode ans p d cur page Z k"

inductive_cases page_treeE: "page_tree st mode ans p d cur M n"
inductive_cases page_treesE: "page_trees st mode ans (q # qs) d M n"
inductive_simps page_trees_Nil [simp]: "page_trees st mode ans [] d M n"
inductive_cases pages_afterE: "pages_after st mode ans p d cur page Z k"

text \<open>What a task has still to send, and the steps it has still to take.\<close>

inductive
  to_list :: "s3_storage \<Rightarrow> listing_mode \<Rightarrow> answers \<Rightarrow> listing_task \<Rightarrow> s3_object multiset \<Rightarrow> nat \<Rightarrow> bool"
  and all_to_list :: "s3_storage \<Rightarrow> listing_mode \<Rightarrow> answers \<Rightarrow> listing_task list
     \<Rightarrow> s3_object multiset \<Rightarrow> nat \<Rightarrow> bool"
  for st mode ans where
  left_at_page: "page_tree st mode ans p d cur M n \<Longrightarrow>
    to_list st mode ans (ListingTask p d cur b AtPage []) M n"
| left_fetching: "page_tree st mode ans p d cur M (Suc n) \<Longrightarrow>
    to_list st mode ans (ListingTask p d cur b Fetching []) M n"
| left_sending: "page_trees st mode ans (lp_sub_prefixes page) (Suc d) Y j \<Longrightarrow>
    pages_after st mode ans p d cur page Z k \<Longrightarrow>
    to_list st mode ans (ListingTask p d cur b (SendingPage xs page) []) (mset xs + Y + Z) (3 + length xs + j + k)"
| left_spawning: "page_trees st mode ans qs (Suc d) Y j \<Longrightarrow> all_to_list st mode ans ts W w \<Longrightarrow>
    pages_after st mode ans p d cur page Z k \<Longrightarrow>
    to_list st mode ans (ListingTask p d cur b (Spawning qs page) ts) (W + Y + Z) (2 + w + j + k)"
| left_acquiring: "page_tree st mode ans (effective_prefix st q) (Suc d) cursor_start X i \<Longrightarrow>
    page_trees st mode ans qs (Suc d) Y j \<Longrightarrow> all_to_list st mode ans ts W w \<Longrightarrow>
    pages_after st mode ans p d cur page Z k \<Longrightarrow>
    to_list st mode ans (ListingTask p d cur b (Acquiring q qs page) ts) (W + (X + Y) + Z) (4 + w + (i + j) + k)"
| left_joining: "all_to_list st mode ans ts W w \<Longrightarrow> pages_after st mode ans p d cur page Z k \<Longrightarrow>
    to_list st mode ans (ListingTask p d cur b (Joining page) ts) (W + Z) (1 + w + k)"
| left_ended: "to_list st mode ans (ListingTask p d cur b (Ended r) []) {#} 0"
| all_Nil: "all_to_list st mode ans [] {#} 0"
| all_Cons: "to_list st mode ans t M n \<Longrightarrow> all_to_list st mode ans ts W w \<Longrightarrow>
    all_to_list st mode ans (t # ts) (M + W) (Suc n + w)"

inductive_cases to_listE:
  "to_list st mode ans (ListingTask p d cur b AtPage ts) M n"
  "to_list st mode ans (ListingTask p d cur b Fetching ts) M n"
  "to_list st mode ans (ListingTask p d cur b (SendingPage xs page) ts) M n"
  "to_list st mode ans (ListingTask p d cur b (Spawning qs page) ts) M n"
  "to_list st mode ans (ListingTask p d cur b (Acquiring q qs page) ts) M n"
  "to_list st mode ans (ListingTask p d cur b (Joining page) ts) M n"
  "to_list st mode ans (ListingTask p d cur b (Ended r) ts) M n"

inductive_simps all_to_list_Nil [simp]: "all_to_list st mode ans [] W w"
inductive_cases all_ConsE: "all_to_list st mode ans (t # ts) W w"

lemma all_to_list_appendI:
  assumes "all_to_list st mode ans us W' w'"
  shows "all_to_list st mode ans ts W w \<Longrightarrow> all_to_list st mode ans (ts @ us) (W + W') (w + w')"
proof (induction ts arbitrary: W w)
  case (Cons t ts)
  then obtain M n V v where "to_list st mode ans t M n" "all_to_list st mode ans ts V v" "W = M + V" "w = Suc n + v"
    by (auto elim: all_ConsE)
  with all_Cons [OF this(1) Cons.IH [OF this(2)]] show ?case by (simp add: add.assoc)
qed (use assms in simp)

lemma all_to_list_appendE:
  assumes "all_to_list st mode ans (ts @ us) V v"
  obtains W w W' w' where "all_to_list st mode ans ts W w" "all_to_list st mode ans us W' w'"
    "V = W + W'" "v = w + w'"
  using assms
proof (induction ts arbitrary: V v thesis)
  case Nil
  from Nil(1) [OF all_Nil] Nil(2) show ?case by simp
next
  case (Cons t ts)
  from Cons.prems(2) obtain M n V1 v1 where t: "to_list st mode ans t M n"
    and V: "all_to_list st mode ans (ts @ us) V1 v1" "V = M + V1" "v = Suc n + v1"
    by (auto elim: all_ConsE)
  from Cons.IH [OF _ V(1)] obtain W w W' w' where "all_to_list st mode ans ts W w"
    "all_to_list st mode ans us W' w'" "V1 = W + W'" "v1 = w + w'" by blast
  with Cons.prems(1) [OF all_Cons [OF t this(1)] this(2)] V show ?case by (simp add: add.assoc)
qed

text \<open>The subtask at an index, and the others.\<close>

lemma all_to_list_nth:
  assumes "all_to_list st mode ans ts V v" and "j < length ts"
  obtains M n W w where "to_list st mode ans (ts ! j) M n" "all_to_list st mode ans (remove_nth j ts) W w"
    "V = M + W" "v = Suc n + w"
    "\<forall>u M' n'. to_list st mode ans u M' n' \<longrightarrow> all_to_list st mode ans (ts[j := u]) (M' + W) (Suc n' + w)"
proof -
  have "all_to_list st mode ans (take j ts @ ts ! j # drop (Suc j) ts) V v"
    using assms by (simp flip: id_take_nth_drop)
  then obtain W1 w1 V2 v2 where l: "all_to_list st mode ans (take j ts) W1 w1"
    and r: "all_to_list st mode ans (ts ! j # drop (Suc j) ts) V2 v2" "V = W1 + V2" "v = w1 + v2"
    by (rule all_to_list_appendE)
  from r(1) obtain M n W2 w2 where "to_list st mode ans (ts ! j) M n"
    and d: "all_to_list st mode ans (drop (Suc j) ts) W2 w2" and "V2 = M + W2" "v2 = Suc n + w2"
    by (auto elim: all_ConsE)
  moreover have "all_to_list st mode ans (ts[j := u]) (M' + (W1 + W2)) (Suc n' + (w1 + w2))"
    if "to_list st mode ans u M' n'" for u M' n'
    using all_to_list_appendI [OF all_Cons [OF that d] l] assms(2) by (simp add: upd_conv_take_nth_drop add_ac)
  ultimately show thesis
    using that [of M n "W1 + W2" "w1 + w2"] all_to_list_appendI [OF d l] r(2,3)
    by (simp add: remove_nth_def add_ac)
qed

fun all_ok :: "listing_task \<Rightarrow> bool" where
  "all_ok (ListingTask p d cur b ph ts) \<longleftrightarrow> (\<forall>r. ph = Ended r \<longrightarrow> r = Ok ()) \<and> list_all all_ok ts"

text \<open>
  A step takes one of the steps left, and what it sends was left to send. In an undisturbed run
  nothing gets lost.
\<close>

definition undisturbed_listing ::
  "s3_storage \<Rightarrow> 'w env \<Rightarrow> listing_mode \<Rightarrow> i32 \<Rightarrow> answers \<Rightarrow> listing_task \<Rightarrow> 'w listing_shared \<Rightarrow> bool" where
  "undisturbed_listing st env mode mk ans t sh \<longleftrightarrow>
     always_answers st env mode mk ans \<and> quiet env \<and> \<not> cancelled (ls_sys sh) \<and> all_ok t"

definition lists_on ::
  "s3_storage \<Rightarrow> 'w env \<Rightarrow> listing_mode \<Rightarrow> i32 \<Rightarrow> answers \<Rightarrow> listing_task \<Rightarrow> 'w listing_shared
     \<Rightarrow> s3_object multiset \<Rightarrow> nat \<Rightarrow> listing_task \<Rightarrow> 'w listing_shared \<Rightarrow> bool" where
  "lists_on st env mode mk ans t sh M n t' sh' \<longleftrightarrow> (\<exists>M' n' ys.
     to_list st mode ans t' M' n' \<and> n' < n \<and> sent (ls_sys sh') = sent (ls_sys sh) @ ys \<and> mset ys + M' \<subseteq># M
     \<and> (undisturbed_listing st env mode mk ans t sh \<longrightarrow>
          mset ys + M' = M \<and> undisturbed_listing st env mode mk ans t' sh'))"

lemma lists_onI:
  assumes "to_list st mode ans t' M' n'" and "n' < n" and "sent (ls_sys sh') = sent (ls_sys sh) @ ys"
    and "mset ys + M' \<subseteq># M"
    and "undisturbed_listing st env mode mk ans t sh \<Longrightarrow>
      mset ys + M' = M \<and> undisturbed_listing st env mode mk ans t' sh'"
  shows "lists_on st env mode mk ans t sh M n t' sh'"
  using assms unfolding lists_on_def by blast

lemma page_tree_pos: "page_tree st mode ans p d cur M n \<Longrightarrow> 5 \<le> n"
  by (erule page_treeE) simp

lemma to_list_pos:
  "to_list st mode ans (ListingTask p d cur b ph ts) M n \<Longrightarrow> (\<And>r. ph \<noteq> Ended r) \<Longrightarrow> 0 < n"
  by (cases ph) (auto elim!: to_listE dest!: page_tree_pos)

lemma all_ok_remove: "list_all all_ok ts \<Longrightarrow> list_all all_ok (remove_nth i ts)"
  by (auto simp: list_all_iff remove_nth_def dest: in_set_takeD in_set_dropD)

lemma moves_lists_on:
  assumes "listing_moves st env mode mk t sh t' sh'" and "to_list st mode ans t M n"
    and "answers_are st env mode mk ans" and "wf_listing t"
  shows "lists_on st env mode mk ans t sh M n t' sh'"
  using assms
proof (induction rule: listing_moves.induct)
  case (looked s' s p d cur b ts k)
  from looked.prems(1) have "page_tree st mode ans p d cur M n" "ts = []" by (auto elim: to_listE)
  moreover from page_tree_pos [OF this(1)] obtain m where "n = Suc m" by (cases n) auto
  ultimately show ?case
    using looked by (auto intro!: lists_onI [OF left_fetching, where ys = "[]"]
        simp: undisturbed_listing_def calm_def)
next
  case (fetched p d cur s page s' b ts k)
  then have page: "page = ans p (parallel_delimiter st d) cur"
    by (auto simp: answers_are_def split: outcome.splits dest!: spec [of _ "world s"])
  from fetched have ts: "ts = []" by simp
  from fetched.prems(1) have "page_tree st mode ans p d cur M (Suc n)" by (auto elim: to_listE)
  then obtain Y j Z l where "page_trees st mode ans (lp_sub_prefixes page) (Suc d) Y j"
    "pages_after st mode ans p d cur page Z l" "M = mset (lp_objects page) + Y + Z"
    "Suc n = 5 + length (lp_objects page) + j + l"
    by (rule page_treeE) (use page in auto)
  with fetched ts show ?case
    by (auto intro!: lists_onI [OF left_sending, where ys = "[]"] simp: undisturbed_listing_def calm_def)
next
  case (sent_one s1 s x p d cur b xs page ts k)
  then show ?case
    by (auto elim!: to_listE intro!: lists_onI [OF left_sending, where ys = "[x]"]
        simp: undisturbed_listing_def calm_def)
next
  case (sent_all p d cur b page ts sh)
  then show ?case
    by (auto elim!: to_listE intro!: lists_onI [OF left_spawning [OF _ all_Nil], where ys = "[]"]
        simp: undisturbed_listing_def)
next
  case (spawned_all p d cur b page ts sh)
  then show ?case
    by (auto elim!: to_listE intro!: lists_onI [OF left_joining, where ys = "[]"]
        simp: undisturbed_listing_def)
next
  case (cut_short s' s p d cur b qs page ts k)
  then show ?case
    by (auto elim!: to_listE intro!: lists_onI [OF left_joining, where ys = "[]"]
        simp: undisturbed_listing_def)
next
  case (waits s' s p d cur b q qs page ts k)
  then show ?case
    by (auto elim!: to_listE page_treesE intro!: lists_onI [OF left_acquiring, where ys = "[]"]
        simp: undisturbed_listing_def calm_def)
next
  case (acquired p d cur b q qs page ts k s)
  from acquired.prems(1) obtain X i Y j W w Z l where
    q: "page_tree st mode ans (effective_prefix st q) (Suc d) cursor_start X i"
    and qs: "page_trees st mode ans qs (Suc d) Y j" and ts: "all_to_list st mode ans ts W w"
    and after: "pages_after st mode ans p d cur page Z l"
    and sums: "M = W + (X + Y) + Z" "n = 4 + w + (i + j) + l" by (auto elim: to_listE)
  have us: "all_to_list st mode ans (ts @ [spawn_listing st q (Suc d)]) (W + (X + {#})) (w + (Suc i + 0))"
    unfolding spawn_listing_def by (intro all_to_list_appendI [OF _ ts] all_Cons left_at_page [OF q] all_Nil)
  show ?case
    by (rule lists_onI [OF left_spawning [OF qs us after], where ys = "[]"])
      (use sums in \<open>auto simp: undisturbed_listing_def spawn_listing_def add_ac\<close>)
next
  case (joined i ts u p d cur b page sh)
  from joined.prems(1) obtain W w Z l where "all_to_list st mode ans ts W w"
    and after: "pages_after st mode ans p d cur page Z l" "M = W + Z" "n = 1 + w + l"
    by (auto elim: to_listE)
  from all_to_list_nth [OF this(1) joined(1)] obtain M1 n1 V v where "to_list st mode ans (ts ! i) M1 n1"
    and rest: "all_to_list st mode ans (remove_nth i ts) V v" "W = M1 + V" "w = Suc n1 + v" by metis
  with joined(2) have "M1 = {#}" by (cases "ts ! i") (auto elim: to_listE)
  with after rest show ?case
    by (intro lists_onI [OF left_joining, where ys = "[]"])
      (auto simp: undisturbed_listing_def all_ok_remove)
next
  case (next_page page p cur cur' d b sh)
  then show ?case
    by (auto elim!: to_listE pages_afterE intro!: lists_onI [OF left_at_page, where ys = "[]"]
        simp: undisturbed_listing_def)
next
  case (finished page p d cur b k s)
  then show ?case
    by (auto elim!: to_listE pages_afterE intro!: lists_onI [OF left_ended, where ys = "[]"]
        simp: undisturbed_listing_def)
next
  case (aborted s' s ph p d cur ts b k r)
  let ?t = "ListingTask p d cur b ph ts"
  have "0 < n" using to_list_pos [OF aborted.prems(1)] aborted(2) by blast
  moreover have False if "undisturbed_listing st env mode mk ans ?t \<lparr> ls_free = k, ls_sys = s \<rparr>"
  proof -
    from that have u: "always_answers st env mode mk ans" "quiet env \<and> \<not> cancelled s" "list_all all_ok ts"
      by (simp_all add: undisturbed_listing_def)
    from aborted(3) [OF u(2)] show False
    proof (elim disjE exE conjE bexE)
      fix page assume "ph = Joining page" "lp_is_truncated page" "\<not> is_ok (next_cursor st p mode page cur)"
      with aborted.prems(1) show False by (auto elim!: to_listE pages_afterE)
    next
      fix v r1 assume "v \<in> set ts" "lt_phase v = Ended r1" "r1 \<noteq> Ok ()"
      with u(3) show False by (cases v) (auto simp: list_all_iff)
    qed (use u(1) in \<open>simp add: always_answers_def\<close>)
  qed
  ultimately show ?case
    using aborted(1) by (intro lists_onI [OF left_ended, where ys = "[]"]) auto
qed

lemma to_list_sub:
  assumes "to_list st mode ans (ListingTask p d cur b ph ts) M n" and "j < length ts"
  obtains M1 n1 V v where "to_list st mode ans (ts ! j) M1 n1" "M = M1 + V" "n = n1 + v"
    "\<forall>u M' n'. to_list st mode ans u M' n' \<longrightarrow>
       to_list st mode ans (ListingTask p d cur b ph (ts[j := u])) (M' + V) (n' + v)"
proof -
  obtain W w V0 v0 where ts: "all_to_list st mode ans ts W w" and "M = W + V0" "n = w + v0"
    and up: "\<And>us W' w'. all_to_list st mode ans us W' w' \<Longrightarrow>
      to_list st mode ans (ListingTask p d cur b ph us) (W' + V0) (w' + v0)"
  proof (cases ph)
    case (Spawning qs page)
    from assms(1) [unfolded this] obtain Y y W w Z k where "page_trees st mode ans qs (Suc d) Y y"
      "all_to_list st mode ans ts W w" "pages_after st mode ans p d cur page Z k"
      "M = W + Y + Z" "n = 2 + w + y + k" by (auto elim: to_listE)
    with Spawning show thesis
      using left_spawning [of st mode ans qs d Y y _ _ _ p cur page Z k]
      by (intro that [of W w "Y + Z" "2 + y + k"]) (auto simp: add_ac)
  next
    case (Acquiring q qs page)
    from assms(1) [unfolded this] obtain X x Y y W w Z k where
      "page_tree st mode ans (effective_prefix st q) (Suc d) cursor_start X x"
      "page_trees st mode ans qs (Suc d) Y y"
      "all_to_list st mode ans ts W w" "pages_after st mode ans p d cur page Z k"
      "M = W + (X + Y) + Z" "n = 4 + w + (x + y) + k" by (auto elim: to_listE)
    with Acquiring show thesis
      using left_acquiring [of st mode ans q d X x qs Y y _ _ _ p cur page Z k]
      by (intro that [of W w "X + Y + Z" "4 + (x + y) + k"]) (auto simp: add_ac)
  next
    case (Joining page)
    from assms(1) [unfolded this] obtain W w Z k where
      "all_to_list st mode ans ts W w" "pages_after st mode ans p d cur page Z k"
      "M = W + Z" "n = 1 + w + k" by (auto elim: to_listE)
    with Joining show thesis
      using left_joining [of st mode ans _ _ _ p d cur page Z k]
      by (intro that [of W w Z "1 + k"]) (auto simp: add_ac)
  qed (use assms in \<open>auto elim: to_listE\<close>)
  obtain M1 n1 V1 v1 where "to_list st mode ans (ts ! j) M1 n1"
    and eq: "W = M1 + V1" "w = Suc n1 + v1"
    and upd: "\<forall>u M' n'. to_list st mode ans u M' n' \<longrightarrow> all_to_list st mode ans (ts[j := u]) (M' + V1) (Suc n' + v1)"
    using all_to_list_nth [OF ts assms(2)] by metis
  show thesis
  proof (rule that)
    show "to_list st mode ans (ts ! j) M1 n1" by fact
    show "M = M1 + (V1 + V0)" "n = n1 + Suc (v1 + v0)"
      using eq \<open>M = W + V0\<close> \<open>n = w + v0\<close> by (simp_all add: add.assoc)
    show "\<forall>u M' n'. to_list st mode ans u M' n' \<longrightarrow>
        to_list st mode ans (ListingTask p d cur b ph (ts[j := u])) (M' + (V1 + V0)) (n' + Suc (v1 + v0))"
      using up [OF upd [rule_format]] by (simp add: add.assoc)
  qed
qed

lemma step_at_lists_on:
  assumes "step_at st env mode mk path i t sh = Some (t', sh')" and "answers_are st env mode mk ans"
  shows "\<forall>M n. wf_listing t \<longrightarrow> to_list st mode ans t M n \<longrightarrow> lists_on st env mode mk ans t sh M n t' sh'"
  using assms(1)
proof (induction rule: step_at_induct)
  case (own i t sh t' sh')
  then show ?case using moves_lists_on [OF own_step_moves _ assms(2)] by blast
next
  case (sub j t1 p d cur b ph ts sh sh')
  let ?t = "ListingTask p d cur b ph ts"
  show ?case
  proof (intro allI impI)
    fix M n assume "wf_listing ?t" and l: "to_list st mode ans ?t M n"
    then have wf: "wf_listing (ts ! j)" using sub(1) by (simp add: list_all_length)
    obtain M1 n1 V v where u: "to_list st mode ans (ts ! j) M1 n1"
      and eq: "M = M1 + V" "n = n1 + v"
      and up: "\<forall>u M' n'. to_list st mode ans u M' n' \<longrightarrow>
        to_list st mode ans (ListingTask p d cur b ph (ts[j := u])) (M' + V) (n' + v)"
      using to_list_sub [OF l sub(1)] by metis
    from sub(2) wf u obtain M' n' ys where n: "to_list st mode ans t1 M' n'" "n' < n1"
      "sent (ls_sys sh') = sent (ls_sys sh) @ ys" "mset ys + M' \<subseteq># M1"
      and calm: "undisturbed_listing st env mode mk ans (ts ! j) sh \<longrightarrow>
        mset ys + M' = M1 \<and> undisturbed_listing st env mode mk ans t1 sh'"
      unfolding lists_on_def by blast
    show "lists_on st env mode mk ans ?t sh M n (ListingTask p d cur b ph (ts[j := t1])) sh'"
    proof (rule lists_onI [OF up [rule_format, OF n(1)] _ n(3)])
      show "mset ys + (M' + V) \<subseteq># M"
        using n(4) eq by (simp add: add.assoc [symmetric] del: add.assoc)
    next
      assume "undisturbed_listing st env mode mk ans ?t sh"
      with calm sub(1) eq show "mset ys + (M' + V) = M
          \<and> undisturbed_listing st env mode mk ans (ListingTask p d cur b ph (ts[j := t1])) sh'"
        by (auto simp: undisturbed_listing_def list_all_length nth_list_update)
    qed (use n(2) eq in simp)
  qed
qed

lemma run_lists_on:
  assumes "answers_are st env mode mk ans"
  shows "listing_run st env mode mk as t sh = Some (t', sh') \<Longrightarrow> wf_listing t \<Longrightarrow>
    to_list st mode ans t M n \<Longrightarrow> \<exists>M' n' ys. to_list st mode ans t' M' n' \<and> length as + n' \<le> n
      \<and> sent (ls_sys sh') = sent (ls_sys sh) @ ys \<and> mset ys + M' \<subseteq># M
      \<and> (undisturbed_listing st env mode mk ans t sh \<longrightarrow>
          mset ys + M' = M \<and> undisturbed_listing st env mode mk ans t' sh')"
proof (induction as arbitrary: t sh M n)
  case Nil
  then show ?case by auto
next
  case (Cons a as)
  obtain path i where a: "a = (path, i)" by fastforce
  with Cons.prems(1) obtain t1 sh1 where 1: "step_at st env mode mk path i t sh = Some (t1, sh1)"
    "listing_run st env mode mk as t1 sh1 = Some (t', sh')" by (auto split: option.splits)
  have wf: "wf_listing t1" using step_at_wf [OF 1(1)] Cons.prems(2) by simp
  from step_at_lists_on [OF 1(1) assms] Cons.prems obtain M1 n1 ys where
    l: "to_list st mode ans t1 M1 n1" "n1 < n" "sent (ls_sys sh1) = sent (ls_sys sh) @ ys" "mset ys + M1 \<subseteq># M"
    and u: "undisturbed_listing st env mode mk ans t sh \<longrightarrow>
        mset ys + M1 = M \<and> undisturbed_listing st env mode mk ans t1 sh1"
    unfolding lists_on_def by blast
  from Cons.IH [OF 1(2) wf l(1)] obtain M' n' zs where
    r: "to_list st mode ans t' M' n'" "length as + n' \<le> n1" "sent (ls_sys sh') = sent (ls_sys sh1) @ zs"
      "mset zs + M' \<subseteq># M1"
    and v: "undisturbed_listing st env mode mk ans t1 sh1 \<longrightarrow>
        mset zs + M' = M1 \<and> undisturbed_listing st env mode mk ans t' sh'" by blast
  have "mset (ys @ zs) + M' \<subseteq># M"
    using subset_mset.order_trans [OF _ l(4), of "mset (ys @ zs) + M'"] r(4) by (simp add: add.assoc)
  moreover have "undisturbed_listing st env mode mk ans t sh \<longrightarrow>
      mset (ys @ zs) + M' = M \<and> undisturbed_listing st env mode mk ans t' sh'"
    using u v by (auto simp: add.assoc)
  ultimately show ?case
    using r(1-3) l(2,3) by (intro exI [of _ M'] exI [of _ n'] exI [of _ "ys @ zs"]) simp
qed

end
