(* ===== verification/Listing_Runs.thy ===== *)
theory Listing_Runs
  imports Listing_Work
begin

text \<open>
  What every schedule of a parallel listing does: it ends, sends nothing twice, and, undisturbed,
  lists what the schedule of \<open>Storage\<close> lists, which runs the tasks one after another.
\<close>

section \<open>A listing\<close>

text \<open>
  A service with three prefixes below the target, of which the first has two pages and a prefix
  of its own, listed with two permits.
\<close>

definition branch_page :: "string list \<Rightarrow> string list \<Rightarrow> string option \<Rightarrow> list_objects_output" where
  "branch_page ks ps next = \<lparr> lo_contents = map (\<lambda>k. \<lparr> ob_key = Some k, ob_size = Some 1,
       ob_last_modified = Some (DateTime 0 0), ob_e_tag = None \<rparr>) ks,
     lo_common_prefixes = map Some ps, lo_is_truncated = Some (next \<noteq> None),
     lo_next_continuation_token = next \<rparr>"

definition branch_answer :: "string \<Rightarrow> string option \<Rightarrow> list_objects_output" where
  "branch_answer p token =
     (if p = ''a/'' then branch_page [] [''a/b/'', ''a/c/'', ''a/d/''] None
      else if p = ''a/b/'' \<and> token = None then branch_page [''a/b/x''] [''a/b/e/''] (Some ''1'')
      else branch_page [p @ ''y''] [] None)"

definition branch_env :: "unit env" where
  "branch_env = \<lparr> env_libs = demo_libs,
     env_client = \<lparr>
       cl_head_object = (\<lambda>rq k v w. (Inr \<lparr> ho_content_type = None, ho_metadata = None \<rparr>, w)),
       cl_get_object_tagging = (\<lambda>rq k v w. (Inr [], w)),
       cl_delete_object = (\<lambda>rq k v e w. (Inr (), w)),
       cl_delete_objects = (\<lambda>rq ids w. (Inr \<lparr> do_deleted = [], do_errors = [] \<rparr>, w)),
       cl_get_bucket_versioning = (\<lambda>b w. (Inr None, w)),
       cl_list_objects_v2 = (\<lambda>rq t w. (Inr (branch_answer (lr_prefix rq) t), w)),
       cl_list_object_versions = (\<lambda>rq k v w.
         (Inr \<lparr> lv_versions = [], lv_delete_markers = [], lv_common_prefixes = [],
                lv_is_truncated = Some False, lv_next_key_marker = None,
                lv_next_version_id_marker = None \<rparr>, w)) \<rparr>,
     env_now = (\<lambda>w. (0, w)), env_filter_callback = (\<lambda>x w. (Ok True, w)), env_send = (\<lambda>xs. Accepts),
     env_cancel = (\<lambda>w. (False, w)), env_select = (\<lambda>w. (False, w)),
     env_is_terminal = True, env_read_line = (\<lambda>p w. (Ok ''yes'', w)) \<rparr>"

abbreviation branch_storage :: s3_storage where
  "branch_storage \<equiv> create_storage (demo_config\<lparr> max_parallel_listings := 2 \<rparr>)"

definition branch_answers :: answers where
  "branch_answers p delim cur = page_of_objects (branch_answer p (cu_continuation_token cur))"

lemma branch_quiet: "quiet branch_env"
  by (simp add: quiet_def branch_env_def)

lemma branch_storage_simps:
  "st_prefix branch_storage = ''a/''" "st_listing_permits branch_storage = 2"
  "st_rate_limiter branch_storage = None"
  by (simp_all add: create_storage_def s3_storage_create_def demo_config_def config_for_target_def
      config_default_def)

lemma branch_fetch:
  "fetch_answer branch_storage branch_env Objects p delim mk cur w = (Ok (branch_answers p delim cur), w)"
  by (simp add: fetch_answer_def fetch_list_page_def sdk_call_def create_storage_def
      s3_storage_create_def demo_config_def branch_env_def bind_def sys_new_def branch_answers_def)

lemma branch_always: "always_answers branch_storage branch_env Objects mk branch_answers"
  by (simp add: always_answers_def branch_fetch)

definition crowded :: "listing_action list" where
  "crowded = replicate 8 ([], 0) @ replicate 7 ([0], 0) @ replicate 6 ([0, 0], 0) @ replicate 3 ([0], 0)
     @ [([], 0), ([1], 0), ([2], 0)]"

definition completing :: "listing_action list" where
  "completing = replicate 5 ([0], 0) @ replicate 5 ([1], 0) @ replicate 5 ([2], 0) @ replicate 5 ([], 0)"

abbreviation branch_start :: "unit listing_shared" where
  "branch_start \<equiv> listing_start branch_storage (sys_new ())"

abbreviation branch_sys :: "string list \<Rightarrow> unit sys" where
  "branch_sys ks \<equiv> (sys_new ())\<lparr> sent := demo_listed ks \<rparr>"

lemma branch_cancelled: "is_cancelled branch_env s = (Ok (cancelled s), s)"
  by (rule quiet_is_cancelled [OF branch_quiet])

lemma branch_send:
  "\<not> cancelled s \<Longrightarrow> send_listed_objects branch_env xs s = (Ok False, s\<lparr> sent := sent s @ xs \<rparr>)"
  by (rule send_listed_quiet [OF branch_quiet])

lemmas branch_eval = own_step_def join_step_def end_listing_def Let_def branch_cancelled branch_send fetch_step
  branch_fetch branch_answers_def branch_answer_def branch_page_def page_of_objects_def map_filter_simps
  spawn_listing_def effective_prefix_def cursor_start_def next_cursor_def remove_nth_def rated_def
  branch_storage_simps sys_new_def listing_start_def comp_def numeral_eq_Suc

text \<open>The tasks with a list request under way.\<close>

fun requests_out :: "listing_task \<Rightarrow> nat" where
  "requests_out (ListingTask p d cur b ph ts) = of_bool (ph = Fetching) + sum_list (map requests_out ts)"

text \<open>
  The permits do not bound the requests: a task that has joined its subtasks goes on without a
  permit, and here three requests are under way with two permits.
\<close>

lemma requests_exceed_permits:
  "\<exists>t sh. listing_run branch_storage branch_env Objects 1000 crowded
       (spawn_listing branch_storage [] 1) branch_start = Some (t, sh)
     \<and> st_listing_permits branch_storage < requests_out t"
  by (simp add: branch_eval crowded_def del: send_listed_objects.simps)

lemma completed_run:
  "\<exists>t sh. listing_run branch_storage branch_env Objects 1000 (crowded @ completing)
       (spawn_listing branch_storage [] 1) branch_start = Some (t, sh)
     \<and> lt_phase t = Ended (Ok ()) \<and> permits_held t = 0
     \<and> sent (ls_sys sh) = demo_listed [''a/b/x'', ''a/b/e/y'', ''a/b/y'', ''a/c/y'', ''a/d/y'']"
  by (simp add: branch_eval crowded_def completing_def del: send_listed_objects.simps)

lemma page_treeI:
  assumes "page = ans p (parallel_delimiter st d) cur"
    and "page_trees st mode ans (lp_sub_prefixes page) (Suc d) Y j"
    and "pages_after st mode ans p d cur page Z k"
    and "M = mset (lp_objects page) + Y + Z" and "n = 5 + length (lp_objects page) + j + k"
  shows "page_tree st mode ans p d cur M n"
  using page_tree_page_trees_pages_after.page [OF assms(1-3)] assms(4,5) by simp

lemmas branch_pages = branch_answers_def branch_answer_def branch_page_def page_of_objects_def
  map_filter_simps comp_def

lemma branch_leaf:
  assumes "p \<noteq> ''a/''" and "p \<noteq> ''a/b/'' \<or> cu_continuation_token cur \<noteq> None"
  shows "page_tree branch_storage Objects branch_answers p d cur (mset (demo_listed [p @ ''y''])) 6"
  by (rule page_treeI [OF refl, where Y = "{#}" and j = 0 and Z = "{#}" and k = 0])
    (use assms in \<open>auto simp: branch_pages intro: no_prefixes last\<close>)

lemma branch_tree:
  "page_tree branch_storage Objects branch_answers ''a/'' 1 cursor_start
     (mset (demo_listed [''a/b/x'', ''a/b/e/y'', ''a/b/y'', ''a/c/y'', ''a/d/y''])) 47"
proof -
  let ?b = "page_of_objects (branch_page [''a/b/x''] [''a/b/e/''] (Some ''1''))"
  let ?a = "page_of_objects (branch_page [] [''a/b/'', ''a/c/'', ''a/d/''] None)"
  let ?cur = "cursor_start\<lparr> cu_continuation_token := Some ''1'' \<rparr>"
  have prefix: "effective_prefix branch_storage (c # cs) = c # cs" for c cs
    by (simp add: effective_prefix_def)
  have e: "page_trees branch_storage Objects branch_answers [''a/b/e/''] 3
      (mset (demo_listed [''a/b/e/y'']) + {#}) (3 + 6 + 0)"
    using branch_leaf [of "''a/b/e/''" cursor_start 3]
    by (intro more_prefixes no_prefixes) (simp add: prefix)
  have b2: "pages_after branch_storage Objects branch_answers ''a/b/'' 2 cursor_start ?b
      (mset (demo_listed [''a/b/y''])) 6"
    using branch_leaf [of "''a/b/''" ?cur 2]
    by (intro truncated [where cur' = ?cur])
      (simp_all add: branch_page_def page_of_objects_def next_cursor_def cursor_start_def)
  have b: "page_tree branch_storage Objects branch_answers ''a/b/'' 2 cursor_start
      (mset (demo_listed [''a/b/x'', ''a/b/e/y'', ''a/b/y''])) 21"
    by (rule page_treeI [of ?b, OF _ _ b2, where Y = "mset (demo_listed [''a/b/e/y'']) + {#}" and j = "3 + 6 + 0"])
      (use e in \<open>auto simp: branch_pages cursor_start_def add_mset_commute\<close>)
  have subs: "page_trees branch_storage Objects branch_answers [''a/b/'', ''a/c/'', ''a/d/''] 2
      (mset (demo_listed [''a/b/x'', ''a/b/e/y'', ''a/b/y'']) + (mset (demo_listed [''a/c/y''])
        + (mset (demo_listed [''a/d/y'']) + {#}))) (3 + 21 + (3 + 6 + (3 + 6 + 0)))"
    using b branch_leaf [of "''a/c/''" cursor_start 2] branch_leaf [of "''a/d/''" cursor_start 2]
    by (intro more_prefixes no_prefixes) (simp_all add: prefix)
  have a: "pages_after branch_storage Objects branch_answers ''a/'' 1 cursor_start ?a {#} 0"
    by (rule last) (simp add: branch_page_def page_of_objects_def)
  show ?thesis
    by (rule page_treeI [of ?a, OF _ _ a, where j = "3 + 21 + (3 + 6 + (3 + 6 + 0))"
        and Y = "mset (demo_listed [''a/b/x'', ''a/b/e/y'', ''a/b/y'']) + (mset (demo_listed [''a/c/y''])
          + (mset (demo_listed [''a/d/y'']) + {#}))"])
      (use subs in \<open>simp_all add: branch_pages add_mset_commute numeral_2_eq_2\<close>)
qed

abbreviation branch_objects :: "s3_object multiset" where
  "branch_objects \<equiv> mset (demo_listed [''a/b/x'', ''a/b/e/y'', ''a/b/y'', ''a/c/y'', ''a/d/y''])"

lemma branch_tree_start:
  "page_tree branch_storage Objects branch_answers (effective_prefix branch_storage []) 1 cursor_start branch_objects 47"
  using branch_tree by (simp add: effective_prefix_def branch_storage_simps)

lemma branch_answers_are: "answers_are branch_storage branch_env Objects mk branch_answers"
  by (simp add: answers_are_def branch_fetch)


section \<open>Every schedule of a listing\<close>

lemma start_lists:
  assumes "page_tree st mode ans (effective_prefix st p) d cursor_start M n"
  shows "to_list st mode ans (spawn_listing st p d) M n"
  using assms by (simp add: spawn_listing_def left_at_page)

text \<open>
  C11: a parallel listing cannot deadlock, and every schedule of its tasks ends. In whatever state
  the schedule, failures and cancellations have brought the tasks, some task can move or the
  listing has returned: the tasks that wait for a permit hold none, and never more permits are
  out than there are. On a service with a finite tree of pages no schedule takes more steps
  than the tree accounts for.
\<close>

theorem listing_never_stuck:
  assumes "listing_run st env mode mk as (spawn_listing st p d) (listing_start st s) = Some (t, sh)"
    and "0 < st_listing_permits st" and "answers_are st env mode mk ans"
    and "page_tree st mode ans (effective_prefix st p) d cursor_start M n"
  shows "((\<exists>path i t' sh'. step_at st env mode mk path i t sh = Some (t', sh')) \<or> (\<exists>r. lt_phase t = Ended r))
    \<and> permits_held t \<le> st_listing_permits st \<and> length as \<le> n"
proof -
  note wf = run_wf [OF assms(1,2)]
  have "can_move st env mode mk t sh \<or> (\<exists>r. lt_phase t = Ended r)"
    using listing_moves_on [OF wf(1), of sh st env mode mk] wf(2) assms(2) by auto
  moreover have "length as \<le> n"
    using run_lists_on [OF assms(3,1) wf_start(1) start_lists [OF assms(4)]] by auto
  ultimately show ?thesis using wf(2) by (auto simp: can_move_def)
qed

theorem listing_never_stuck_witness:
  "\<exists>t sh. listing_run branch_storage branch_env Objects 1000 crowded (spawn_listing branch_storage [] 1) branch_start
       = Some (t, sh)
     \<and> ((\<exists>path i t' sh'. step_at branch_storage branch_env Objects 1000 path i t sh = Some (t', sh'))
        \<or> (\<exists>r. lt_phase t = Ended r))
     \<and> permits_held t \<le> st_listing_permits branch_storage \<and> length crowded \<le> 47"
proof -
  obtain t sh where run: "listing_run branch_storage branch_env Objects 1000 crowded
    (spawn_listing branch_storage [] 1) branch_start = Some (t, sh)" using requests_exceed_permits by blast
  have "0 < st_listing_permits branch_storage" by (simp add: branch_storage_simps)
  from listing_never_stuck [OF run this branch_answers_are branch_tree_start] run show ?thesis by blast
qed

text \<open>
  No schedule of the tasks sends an object twice, or one that is not on the pages of the
  service, whatever fails and whenever the run is cancelled.
\<close>

lemma listing_sends_nothing_twice:
  assumes "listing_run st env mode mk as (spawn_listing st p d) (listing_start st s) = Some (t, sh)"
    and "answers_are st env mode mk ans"
    and "page_tree st mode ans (effective_prefix st p) d cursor_start M n"
  shows "mset (sent (ls_sys sh)) \<subseteq># mset (sent s) + M"
  using run_lists_on [OF assms(2,1) wf_start(1) start_lists [OF assms(3)]]
  by (auto simp: listing_start_def dest: subset_mset.order_trans [OF mset_subset_eq_add_left])

lemma page_tree_listing_tree:
  assumes "always_answers st env mode mk ans"
  shows "page_tree st mode ans p d cur M n \<Longrightarrow>
      \<forall>w. \<exists>xs k w'. listing_tree st env mode mk p d cur w xs k w' \<and> mset xs = M"
    and "page_trees st mode ans qs d M n \<Longrightarrow>
      \<forall>w. \<exists>xs k w'. listing_subtrees st env mode mk qs d w xs k w' \<and> mset xs = M"
    and "pages_after st mode ans p d cur page M n \<Longrightarrow>
      (if lp_is_truncated page then \<exists>cur'. next_cursor st p mode page cur = Ok cur' \<and>
         (\<forall>w. \<exists>xs k w'. listing_tree st env mode mk p d cur' w xs k w' \<and> mset xs = M)
       else M = {#})"
proof (induction rule: page_tree_page_trees_pages_after.inducts)
  case (page pg p d cur Y j Z k)
  show ?case
  proof
    fix w
    obtain w1 where f: "fetch_answer st env mode p (parallel_delimiter st d) mk cur w = (Ok pg, w1)"
      using assms page(1) by (cases "fetch_answer st env mode p (parallel_delimiter st d) mk cur w")
        (auto simp: always_answers_def dest!: spec [of _ p] spec [of _ "parallel_delimiter st d"] spec [of _ cur] spec [of _ w])
    from page(3) obtain ys j' w2 where
      s: "listing_subtrees st env mode mk (lp_sub_prefixes pg) (Suc d) w1 ys j' w2" "mset ys = Y" by blast
    show "\<exists>xs k w'. listing_tree st env mode mk p d cur w xs k w' \<and> mset xs = mset (lp_objects pg) + Y + Z"
    proof (cases "lp_is_truncated pg")
      case True
      with page(5) obtain cur' where n: "next_cursor st p mode pg cur = Ok cur'"
        and "\<forall>w. \<exists>xs k w'. listing_tree st env mode mk p d cur' w xs k w' \<and> mset xs = Z" by auto
      from this(2) [rule_format, of w2] obtain zs k' w3 where
        z: "listing_tree st env mode mk p d cur' w2 zs k' w3" "mset zs = Z" by blast
      from tree_more [OF f s(1) True n z(1)] s(2) z(2) show ?thesis
        by (intro exI [of _ "lp_objects pg @ ys @ zs"]) (auto simp: add.assoc)
    next
      case False
      with page(5) tree_last [OF f s(1)] s(2) show ?thesis by (metis mset_append add_0_right)
    qed
  qed
next
  case (more_prefixes q d X i qs Y j)
  show ?case
  proof
    fix w
    from more_prefixes(2) obtain xs k1 w1 where
      1: "listing_tree st env mode mk (effective_prefix st q) d cursor_start w xs k1 w1" "mset xs = X" by blast
    from more_prefixes(4) obtain ys k2 w2 where
      2: "listing_subtrees st env mode mk qs d w1 ys k2 w2" "mset ys = Y" by blast
    from more_subtrees [OF 1(1) 2(1)] 1(2) 2(2)
    show "\<exists>xs k w'. listing_subtrees st env mode mk (q # qs) d w xs k w' \<and> mset xs = X + Y"
      by (metis mset_append)
  qed
qed (auto intro: no_subtrees)

lemma listing_sends_all:
  assumes "listing_run st env mode mk as (spawn_listing st p d) (listing_start st s) = Some (t, sh)"
    and "lt_phase t = Ended r" and "quiet env" and "\<not> cancelled s" and "always_answers st env mode mk ans"
    and "page_tree st mode ans (effective_prefix st p) d cursor_start M n"
  shows "r = Ok ()" and "mset (sent (ls_sys sh)) = mset (sent s) + M"
proof -
  have "answers_are st env mode mk ans"
    using assms(5) by (simp add: answers_are_def always_answers_def)
  moreover have u: "undisturbed_listing st env mode mk ans (spawn_listing st p d) (listing_start st s)"
    using assms(3-5) by (simp add: undisturbed_listing_def spawn_listing_def listing_start_def)
  ultimately obtain M' n' ys where l: "to_list st mode ans t M' n'" "sent (ls_sys sh) = sent s @ ys"
    "mset ys + M' = M" "undisturbed_listing st env mode mk ans t sh"
    using run_lists_on [OF _ assms(1) wf_start(1) start_lists [OF assms(6)]] by (auto simp: listing_start_def)
  from l(1,4) assms(2) have "M' = {#}" "r = Ok ()"
    by (cases t, auto elim: to_listE simp: undisturbed_listing_def)+
  with l(2,3) show "r = Ok ()" "mset (sent (ls_sys sh)) = mset (sent s) + M" by simp_all
qed

text \<open>
  C12: the schedule of a parallel listing does not matter for what is listed. In an undisturbed
  run, whenever the listing returns, it returns successfully and has sent the same objects, each as
  often, as the listing that runs the tasks one after another, which returns too.
\<close>

theorem listing_schedules_agree:
  assumes "listing_run st env mode mk as (spawn_listing st p d) (listing_start st s) = Some (t, sh)"
    and "lt_phase t = Ended r" and "quiet env" and "\<not> cancelled s" and "always_answers st env mode mk ans"
    and "page_tree st mode ans (effective_prefix st p) d cursor_start M n"
  shows "r = Ok () \<and> (\<exists>k s'. list_with_parallel k st env mode p mk d s = Some (Ok (), s')
    \<and> mset (sent s') = mset (sent (ls_sys sh)))"
proof -
  note all = listing_sends_all [OF assms]
  from page_tree_listing_tree(1) [OF assms(5,6)] obtain xs k w' where x:
    "listing_tree st env mode mk (effective_prefix st p) d cursor_start (world s) xs k w'" "mset xs = M" by blast
  have "list_with_parallel k st env mode p mk d s = Some (Ok (), listed st w' xs k s)"
    using parallel_tree(1) [OF assms(3) x(1), rule_format, OF refl assms(4) le_refl]
    by (simp add: list_with_parallel_def)
  moreover have "mset (sent (listed st w' xs k s)) = mset (sent (ls_sys sh))"
    using all(2) x(2) by simp
  ultimately show ?thesis using all(1) by blast
qed

theorem listing_schedules_agree_witness:
  "\<exists>k s'. list_with_parallel k branch_storage branch_env Objects [] 1000 1 (sys_new ()) = Some (Ok (), s')
     \<and> mset (sent s') = branch_objects"
proof -
  obtain t sh where run: "listing_run branch_storage branch_env Objects 1000 (crowded @ completing)
      (spawn_listing branch_storage [] 1) branch_start = Some (t, sh)"
    and "lt_phase t = Ended (Ok ())"
    and "sent (ls_sys sh) = demo_listed [''a/b/x'', ''a/b/e/y'', ''a/b/y'', ''a/c/y'', ''a/d/y'']"
    using completed_run by blast
  from listing_schedules_agree [OF this(1,2) branch_quiet _ branch_always branch_tree_start] this(3)
  show ?thesis by simp
qed

end
