(* ===== verification/Network.thy ===== *)
theory Network
  imports Pipeline
begin

text \<open>
  The tasks of a run as a network (\<open>src/pipeline.rs\<close>, with the loops of \<open>src/filters/mod.rs\<close>,
  \<open>src/lister.rs\<close>, \<open>src/deleter/mod.rs\<close> and \<open>src/terminator.rs\<close>): the lister, the filters, the
  deletion workers and the terminator run concurrently and pass objects through bounded
  channels. A step is what one task does between two of its uses of a channel or of the token;
  any interleaving of the steps is a run. The theory shows that the order in which \<open>Pipeline\<close> runs the stages, one
  after another, is representative of all of them.

  Task 0 is the lister: it reads its inbox, which holds what the service lists, and passes every
  object. The other tasks are the filters, with the predicates of \<open>Filters\<close>. Each inbox
  remembers what was received from it. What a worker does with an object before it is buffered
  (skip it, keep it, find the threshold exceeded) is a choice of the schedule.
\<close>

section \<open>Tasks and channels\<close>

datatype task_phase = Look | Await | Push s3_object | Done | Halted

record task =
  tk_pred :: "s3_object \<Rightarrow> bool result"
  tk_phase :: task_phase

record inbox =
  ib_queue :: "s3_object list"
  ib_received :: "s3_object list"

text \<open>What a worker does after it has flushed its buffer.\<close>

datatype after_flush = Resume | Leave | CancelRun

datatype taker_phase = Collecting | Flushing after_flush | Gone

record taker =
  tr_phase :: taker_phase
  tr_buffer :: "s3_object list"

record network =
  nw_tasks :: "task list"
  nw_inboxes :: "inbox list"
  nw_takers :: "taker list"
  nw_output :: "s3_object list"
  nw_cancelled :: bool

abbreviation pred_of :: "network \<Rightarrow> nat \<Rightarrow> s3_object \<Rightarrow> bool result" where
  "pred_of nw j \<equiv> tk_pred (nw_tasks nw ! j)"

abbreviation phase :: "network \<Rightarrow> nat \<Rightarrow> task_phase" where
  "phase nw j \<equiv> tk_phase (nw_tasks nw ! j)"

abbreviation queue :: "network \<Rightarrow> nat \<Rightarrow> s3_object list" where
  "queue nw j \<equiv> ib_queue (nw_inboxes nw ! j)"

abbreviation received :: "network \<Rightarrow> nat \<Rightarrow> s3_object list" where
  "received nw j \<equiv> ib_received (nw_inboxes nw ! j)"

text \<open>The inbox of the workers is the last one.\<close>

definition pool :: "network \<Rightarrow> nat" where
  "pool nw = length (nw_tasks nw)"

fun is_done :: "task_phase \<Rightarrow> bool" where
  "is_done Done = True"
| "is_done Halted = True"
| "is_done _ = False"

text \<open>A task drops both ends of its channels when it ends.\<close>

definition senders_gone :: "network \<Rightarrow> nat \<Rightarrow> bool" where
  "senders_gone nw j \<longleftrightarrow> j = 0 \<or> is_done (phase nw (j - 1))"

definition receivers_gone :: "network \<Rightarrow> nat \<Rightarrow> bool" where
  "receivers_gone nw j \<longleftrightarrow>
     (if j < pool nw then is_done (phase nw j)
      else list_all (\<lambda>w. tr_phase w = Gone) (nw_takers nw))"

definition set_phase :: "nat \<Rightarrow> task_phase \<Rightarrow> network \<Rightarrow> network" where
  "set_phase j ph nw = nw\<lparr> nw_tasks := (nw_tasks nw)[j := (nw_tasks nw ! j)\<lparr> tk_phase := ph \<rparr>] \<rparr>"

definition put :: "nat \<Rightarrow> s3_object \<Rightarrow> network \<Rightarrow> network" where
  "put j x nw = nw\<lparr> nw_inboxes := (nw_inboxes nw)
     [j := (nw_inboxes nw ! j)\<lparr> ib_queue := queue nw j @ [x] \<rparr>] \<rparr>"

definition take_first :: "nat \<Rightarrow> network \<Rightarrow> network" where
  "take_first j nw = nw\<lparr> nw_inboxes := (nw_inboxes nw)
     [j := \<lparr> ib_queue = tl (queue nw j), ib_received = received nw j @ [hd (queue nw j)] \<rparr>] \<rparr>"

definition set_taker :: "nat \<Rightarrow> taker_phase \<Rightarrow> s3_object list \<Rightarrow> network \<Rightarrow> network" where
  "set_taker i ph b nw = nw\<lparr> nw_takers := (nw_takers nw)[i := \<lparr> tr_phase = ph, tr_buffer = b \<rparr>] \<rparr>"

definition cancel_network :: "network \<Rightarrow> network" where
  "cancel_network nw = nw\<lparr> nw_cancelled := True \<rparr>"


section \<open>Steps\<close>

text \<open>
  The loop of the lister and of a filter: look at the token, receive, test, send. A send waits
  for room; when the receivers are gone the task returns. A failing test ends the task, and its
  join cancels the run.
\<close>

definition task_step :: "nat \<Rightarrow> nat \<Rightarrow> network \<Rightarrow> network option" where
  "task_step cap j nw = (case phase nw j of
       Look \<Rightarrow> Some (set_phase j (if nw_cancelled nw then Halted else Await) nw)
     | Await \<Rightarrow> (case queue nw j of
           [] \<Rightarrow> if senders_gone nw j then Some (set_phase j Done nw) else None
         | x # q \<Rightarrow> (case pred_of nw j x of
               Ok True \<Rightarrow> Some (set_phase j (Push x) (take_first j nw))
             | Ok False \<Rightarrow> Some (set_phase j Look (take_first j nw))
             | _ \<Rightarrow> Some (cancel_network (set_phase j Halted (take_first j nw)))))
     | Push x \<Rightarrow>
         if receivers_gone nw (Suc j) then Some (set_phase j Halted nw)
         else if length (queue nw (Suc j)) < cap then Some (set_phase j Look (put (Suc j) x nw))
         else None
     | _ \<Rightarrow> None)"

datatype decision = Keep | Skip | Exceeded | RequestFails

text \<open>
  A worker receives an object. In a cancelled run it returns after it. Beyond the threshold it
  flushes what it has and cancels; a full buffer is flushed; a failing HeadObject or
  GetObjectTagging request cancels and ends it.
\<close>

definition take_step :: "nat \<Rightarrow> nat \<Rightarrow> decision \<Rightarrow> network \<Rightarrow> network option" where
  "take_step batch i d nw = (let w = nw_takers nw ! i; b = tr_buffer w in
     if tr_phase w = Collecting \<and> queue nw (pool nw) \<noteq> [] then
       let x = hd (queue nw (pool nw)); nw1 = take_first (pool nw) nw in
       if nw_cancelled nw then Some (set_taker i Gone [] nw1)
       else Some (case d of
           Skip \<Rightarrow> nw1
         | Keep \<Rightarrow> set_taker i (if batch \<le> length (b @ [x]) then Flushing Resume else Collecting) (b @ [x]) nw1
         | Exceeded \<Rightarrow> if b = [] then cancel_network (set_taker i Gone [] nw1)
                        else set_taker i (Flushing CancelRun) b nw1
         | RequestFails \<Rightarrow> cancel_network (set_taker i Gone [] nw1))
     else None)"

text \<open>The channel is closed and empty: the worker flushes what is left and ends.\<close>

definition close_step :: "nat \<Rightarrow> network \<Rightarrow> network option" where
  "close_step i nw = (let w = nw_takers nw ! i in
     if tr_phase w = Collecting \<and> queue nw (pool nw) = [] \<and> senders_gone nw (pool nw) then
       if tr_buffer w = [] \<or> nw_cancelled nw then Some (set_taker i Gone [] nw)
       else Some (set_taker i (Flushing Leave) (tr_buffer w) nw)
     else None)"

text \<open>The objects of a flushed batch are forwarded to the terminator, each when there is room.\<close>

definition forward_step :: "nat \<Rightarrow> nat \<Rightarrow> network \<Rightarrow> network option" where
  "forward_step cap i nw = (let w = nw_takers nw ! i in
     case (tr_phase w, tr_buffer w) of
       (Flushing after, x # b) \<Rightarrow>
         if length (nw_output nw) < cap then
           let nw1 = nw\<lparr> nw_output := nw_output nw @ [x] \<rparr> in
           Some (if b \<noteq> [] then set_taker i (Flushing after) b nw1
             else case after of
               Resume \<Rightarrow> set_taker i (if nw_cancelled nw then Gone else Collecting) [] nw1
             | Leave \<Rightarrow> set_taker i Gone [] nw1
             | CancelRun \<Rightarrow> cancel_network (set_taker i Gone [] nw1))
         else None
     | _ \<Rightarrow> None)"

text \<open>
  The steps: of a task, a failure of a task (a listing error, a send that fails, a panic), the
  four of a worker, its failure in a flush, the branch of the cancelled token in its
  \<open>select!\<close>, the terminator, and a cancellation from outside.
\<close>

datatype net_action = TaskStep nat | TaskFails nat | Take nat decision | CloseSeen nat | Forward nat
  | FlushFails nat | Quit nat | Drain | CancelToken

fun network_step :: "nat \<Rightarrow> nat \<Rightarrow> net_action \<Rightarrow> network \<Rightarrow> network option" where
  "network_step cap batch (TaskStep j) nw = (if j < pool nw then task_step cap j nw else None)"
| "network_step cap batch (TaskFails j) nw =
     (if j < pool nw \<and> \<not> is_done (phase nw j) then Some (cancel_network (set_phase j Halted nw)) else None)"
| "network_step cap batch (Take i d) nw = (if i < length (nw_takers nw) then take_step batch i d nw else None)"
| "network_step cap batch (CloseSeen i) nw = (if i < length (nw_takers nw) then close_step i nw else None)"
| "network_step cap batch (Forward i) nw = (if i < length (nw_takers nw) then forward_step cap i nw else None)"
| "network_step cap batch (FlushFails i) nw =
     (if i < length (nw_takers nw) \<and> tr_phase (nw_takers nw ! i) \<notin> {Collecting, Gone}
      then Some (cancel_network (set_taker i Gone [] nw)) else None)"
| "network_step cap batch (Quit i) nw =
     (if i < length (nw_takers nw) \<and> tr_phase (nw_takers nw ! i) = Collecting \<and> nw_cancelled nw
      then Some (set_taker i Gone [] nw) else None)"
| "network_step cap batch Drain nw =
     (case nw_output nw of [] \<Rightarrow> None | x # xs \<Rightarrow> Some (nw\<lparr> nw_output := xs \<rparr>))"
| "network_step cap batch CancelToken nw = (if nw_cancelled nw then None else Some (cancel_network nw))"

fun network_run :: "nat \<Rightarrow> nat \<Rightarrow> net_action list \<Rightarrow> network \<Rightarrow> network option" where
  "network_run cap batch [] nw = Some nw"
| "network_run cap batch (a # as) nw = (case network_step cap batch a nw of
       None \<Rightarrow> None
     | Some nw' \<Rightarrow> network_run cap batch as nw')"


section \<open>The network of a configuration\<close>

text \<open>
  The channels have the capacity of the listing queue. The user-defined filter, when registered,
  comes last; here it is a function of the object.
\<close>

definition network_tasks :: "libs \<Rightarrow> config \<Rightarrow> (s3_object \<Rightarrow> bool result) \<Rightarrow> task list" where
  "network_tasks lib cfg callback =
     map (\<lambda>p. \<lparr> tk_pred = p, tk_phase = Look \<rparr>)
       ((\<lambda>x. Ok True) # map (\<lambda>(name, f) x. f lib x (filter_config cfg)) (filter_stages cfg)
        @ (if fm_callback_registered (filter_manager cfg) then [callback] else []))"

definition network_start ::
  "libs \<Rightarrow> config \<Rightarrow> (s3_object \<Rightarrow> bool result) \<Rightarrow> s3_object list \<Rightarrow> network" where
  "network_start lib cfg callback xs = (let ts = network_tasks lib cfg callback in
     \<lparr> nw_tasks = ts,
       nw_inboxes = \<lparr> ib_queue = xs, ib_received = [] \<rparr>
         # replicate (length ts) \<lparr> ib_queue = [], ib_received = [] \<rparr>,
       nw_takers = replicate (unat (worker_size cfg)) \<lparr> tr_phase = Collecting, tr_buffer = [] \<rparr>,
       nw_output = [], nw_cancelled = False \<rparr>)"

definition channel_capacity :: "config \<Rightarrow> nat" where
  "channel_capacity cfg = unat (object_listing_queue_size cfg)"

end
