(* ===== verification/Network_Facts.thy ===== *)
theory Network_Facts
  imports Network
begin

text \<open>
  Every interleaving of the tasks of a run: what reaches the workers, that the network never
  stops before everything has ended, and how long it can run.
\<close>

section \<open>What a step changes\<close>

lemma nth_update: "xs[i := x] ! j = (if i = j \<and> i < length xs then x else xs ! j)"
  by (cases "i < length xs") (simp_all add: nth_list_update list_update_beyond leI)

lemma phase_set_phase [simp]:
  "phase (set_phase i ph nw) j = (if i = j \<and> i < pool nw then ph else phase nw j)"
  "pred_of (set_phase i ph nw) j = pred_of nw j"
  by (auto simp: set_phase_def pool_def nth_update)

lemma queue_put [simp]:
  "queue (put i x nw) j = (if i = j \<and> i < length (nw_inboxes nw) then queue nw j @ [x] else queue nw j)"
  "received (put i x nw) j = received nw j"
  by (auto simp: put_def nth_update)

lemma queue_take_first [simp]:
  "queue (take_first i nw) j = (if i = j \<and> i < length (nw_inboxes nw) then tl (queue nw j) else queue nw j)"
  "received (take_first i nw) j
     = (if i = j \<and> i < length (nw_inboxes nw) then received nw j @ [hd (queue nw j)] else received nw j)"
  by (auto simp: take_first_def nth_update)

lemma network_frames [simp]:
  "nw_inboxes (set_phase i ph nw) = nw_inboxes nw" "nw_takers (set_phase i ph nw) = nw_takers nw"
  "nw_output (set_phase i ph nw) = nw_output nw" "nw_cancelled (set_phase i ph nw) = nw_cancelled nw"
  "nw_tasks (put i x nw) = nw_tasks nw" "nw_takers (put i x nw) = nw_takers nw"
  "nw_output (put i x nw) = nw_output nw" "nw_cancelled (put i x nw) = nw_cancelled nw"
  "nw_tasks (take_first i nw) = nw_tasks nw" "nw_takers (take_first i nw) = nw_takers nw"
  "nw_output (take_first i nw) = nw_output nw" "nw_cancelled (take_first i nw) = nw_cancelled nw"
  "nw_tasks (set_taker i p b nw) = nw_tasks nw" "nw_inboxes (set_taker i p b nw) = nw_inboxes nw"
  "nw_output (set_taker i p b nw) = nw_output nw" "nw_cancelled (set_taker i p b nw) = nw_cancelled nw"
  "nw_tasks (cancel_network nw) = nw_tasks nw" "nw_inboxes (cancel_network nw) = nw_inboxes nw"
  "nw_takers (cancel_network nw) = nw_takers nw" "nw_output (cancel_network nw) = nw_output nw"
  "nw_cancelled (cancel_network nw)"
  "length (nw_tasks (set_phase i ph nw)) = length (nw_tasks nw)"
  "length (nw_inboxes (put i x nw)) = length (nw_inboxes nw)"
  "length (nw_inboxes (take_first i nw)) = length (nw_inboxes nw)"
  "nw_takers (set_taker i p b nw) = (nw_takers nw)[i := \<lparr> tr_phase = p, tr_buffer = b \<rparr>]"
  by (simp_all add: set_phase_def put_def take_first_def set_taker_def cancel_network_def)

lemma pool_simps [simp]:
  "pool (set_phase i ph nw) = pool nw" "pool (put i x nw) = pool nw" "pool (take_first i nw) = pool nw"
  "pool (set_taker i p b nw) = pool nw" "pool (cancel_network nw) = pool nw"
  "pool (nw\<lparr> nw_output := out \<rparr>) = pool nw"
  by (simp_all add: pool_def)


section \<open>What reaches the workers\<close>

text \<open>
  Between a task and the inbox behind it: what has come out of the inbox, what lies in it and
  what the task is about to send are, in this order, what the task has received and its test
  has passed. A task that was stopped may have lost the end of it.
\<close>

fun pending :: "task_phase \<Rightarrow> s3_object list" where
  "pending (Push x) = [x]"
| "pending _ = []"

definition passed :: "network \<Rightarrow> nat \<Rightarrow> s3_object list" where
  "passed nw j = filter (\<lambda>x. pred_of nw j x = Ok True) (received nw j)"

definition sent_on :: "network \<Rightarrow> nat \<Rightarrow> s3_object list" where
  "sent_on nw j = received nw (Suc j) @ queue nw (Suc j) @ pending (phase nw j)"

definition link :: "network \<Rightarrow> nat \<Rightarrow> bool" where
  "link nw j \<longleftrightarrow> Sublist.prefix (sent_on nw j) (passed nw j)
     \<and> (phase nw j \<noteq> Halted \<longrightarrow> sent_on nw j = passed nw j)"

definition shaped :: "network \<Rightarrow> bool" where
  "shaped nw \<longleftrightarrow> length (nw_inboxes nw) = Suc (pool nw) \<and> 0 < pool nw \<and> nw_takers nw \<noteq> []"

definition flowing :: "s3_object list \<Rightarrow> network \<Rightarrow> bool" where
  "flowing xs nw \<longleftrightarrow> shaped nw \<and> received nw 0 @ queue nw 0 = xs \<and> (\<forall>j < pool nw. link nw j)"

lemmas flow_defs = link_def sent_on_def passed_def

lemma link_cong:
  assumes "phase nw' j = phase nw j" and "pred_of nw' j = pred_of nw j" and "received nw' j = received nw j"
    and "received nw' (Suc j) @ queue nw' (Suc j) = received nw (Suc j) @ queue nw (Suc j)"
  shows "link nw' j = link nw j"
proof -
  have "sent_on nw' j = sent_on nw j"
    using assms(1,4) by (simp add: sent_on_def flip: append_assoc)
  with assms(1-3) show ?thesis by (simp add: link_def passed_def)
qed

lemma flowing_simps [simp]:
  "flowing xs (set_taker i p b nw) = flowing xs nw"
  "flowing xs (cancel_network nw) = flowing xs nw"
  "flowing xs (nw\<lparr> nw_output := out \<rparr>) = flowing xs nw"
  by (auto simp: flowing_def shaped_def flow_defs)

lemma flowing_stop:
  assumes "flowing xs nw" and "j < pool nw"
  shows "flowing xs (set_phase j Halted nw)"
proof -
  have "link (set_phase j Halted nw) i" if "i < pool nw" for i
  proof (cases "i = j")
    case True
    have "Sublist.prefix ((received nw (Suc j) @ queue nw (Suc j)) @ pending (phase nw j)) (passed nw j)"
      using assms by (simp add: flowing_def link_def sent_on_def)
    from append_prefixD [OF this] True assms(2) show ?thesis by (simp add: flow_defs)
  qed (use assms that in \<open>simp add: flowing_def flow_defs\<close>)
  with assms show ?thesis by (simp add: flowing_def shaped_def)
qed

lemma flowing_idle:
  assumes "flowing xs nw" and "j < pool nw" and "pending (phase nw j) = []" and "phase nw j \<noteq> Halted"
    and "pending ph = []"
  shows "flowing xs (set_phase j ph nw)"
proof -
  have "link (set_phase j ph nw) i" if "i < pool nw" for i
    using assms that by (cases "i = j") (auto simp: flowing_def flow_defs)
  with assms show ?thesis by (simp add: flowing_def shaped_def)
qed

lemma flowing_receive:
  assumes "flowing xs nw" and "j < pool nw" and "phase nw j = Await" and "queue nw j = x # q"
    and "pending ph = (if pred_of nw j x = Ok True then [x] else [])"
  shows "flowing xs (set_phase j ph (take_first j nw))"
proof -
  let ?nw = "set_phase j ph (take_first j nw)"
  have len: "j < length (nw_inboxes nw)" using assms(1,2) by (simp add: flowing_def shaped_def)
  have "link ?nw i" if "i < pool nw" for i
  proof (cases "i = j")
    case True
    with assms len that show ?thesis by (auto simp: flowing_def flow_defs)
  next
    case False
    then have "link ?nw i = link nw i"
      using assms(4) by (intro link_cong) auto
    with assms(1) that show ?thesis by (simp add: flowing_def)
  qed
  moreover have "received ?nw 0 @ queue ?nw 0 = xs"
    using assms(1,4) len by (auto simp: flowing_def)
  ultimately show ?thesis using assms(1) by (simp add: flowing_def shaped_def)
qed

lemma flowing_send:
  assumes "flowing xs nw" and "j < pool nw" and "phase nw j = Push x"
  shows "flowing xs (set_phase j Look (put (Suc j) x nw))"
proof -
  let ?nw = "set_phase j Look (put (Suc j) x nw)"
  have len: "Suc j < length (nw_inboxes nw)" using assms(1,2) by (simp add: flowing_def shaped_def)
  have "link ?nw i" if "i < pool nw" for i
  proof (cases "i = j")
    case True
    with assms len that show ?thesis by (auto simp: flowing_def flow_defs)
  next
    case False
    then have "link ?nw i = link nw i" by (intro link_cong) auto
    with assms(1) that show ?thesis by (simp add: flowing_def)
  qed
  then show ?thesis using assms(1) by (simp add: flowing_def shaped_def)
qed

lemma flowing_take:
  assumes "flowing xs nw" and "queue nw (pool nw) \<noteq> []"
  shows "flowing xs (take_first (pool nw) nw)"
proof -
  have "link (take_first (pool nw) nw) i = link nw i" if "i < pool nw" for i
    using assms that by (intro link_cong) (auto simp: flowing_def shaped_def)
  with assms show ?thesis by (auto simp: flowing_def shaped_def)
qed

lemma flowing_task_step:
  assumes "task_step cap j nw = Some nw'" and "j < pool nw" and "flowing xs nw"
  shows "flowing xs nw'"
proof (cases "phase nw j")
  case Await
  show ?thesis
  proof (cases "queue nw j")
    case (Cons x q)
    note r = flowing_receive [OF assms(3,2) Await Cons]
    from assms(1) Await Cons show ?thesis
      by (auto simp: task_step_def r split: outcome.splits bool.splits)
  qed (use assms Await in \<open>auto simp: task_step_def intro: flowing_idle split: if_splits\<close>)
qed (use assms in \<open>auto simp: task_step_def intro: flowing_idle flowing_stop flowing_send split: if_splits\<close>)

lemma flowing_step:
  assumes "network_step cap batch a nw = Some nw'" and "flowing xs nw"
  shows "flowing xs nw'"
  using assms
  by (cases a) (auto simp: flowing_task_step flowing_stop take_step_def close_step_def forward_step_def Let_def
      flowing_take split: if_splits decision.splits after_flush.splits list.splits taker_phase.splits)

lemma network_run_invariant:
  assumes "\<And>a nw nw'. network_step cap batch a nw = Some nw' \<Longrightarrow> P nw \<Longrightarrow> P nw'"
  shows "network_run cap batch as nw = Some nw' \<Longrightarrow> P nw \<Longrightarrow> P nw'"
  by (induction as arbitrary: nw) (auto split: option.splits dest: assms)


section \<open>A run\<close>

text \<open>A run of two stages over two objects, one of which the second stage deselects.\<close>

definition demo_network_config :: config where
  "demo_network_config = demo_config\<lparr> worker_size := 1,
     filter_config := filter_config_default\<lparr> include_regex := Some ''a'' \<rparr> \<rparr>"

lemma demo_network_workers: "worker_size demo_network_config = 1"
  by (simp add: demo_network_config_def)

definition demo_schedule :: "net_action list" where
  "demo_schedule = replicate 3 (TaskStep 0) @ replicate 3 (TaskStep 1) @ replicate 3 (TaskStep 0)
     @ [Take 0 Keep] @ replicate 2 (TaskStep 0) @ replicate 4 (TaskStep 1) @ [CloseSeen 0, Forward 0, Drain]"

abbreviation demo_tests :: "s3_object \<Rightarrow> bool result" where
  "demo_tests x \<equiv> is_match demo_libs x (filter_config demo_network_config)"

lemma demo_network_tests:
  "demo_tests (demo_object ''a'') = Ok True" "demo_tests (demo_object ''b'') = Ok False"
  by (simp_all add: is_match_def demo_network_config_def demo_libs_def s3_object_new_def)

lemma demo_network_tasks:
  "network_tasks demo_libs demo_network_config cb
     = [\<lparr> tk_pred = \<lambda>x. Ok True, tk_phase = Look \<rparr>, \<lparr> tk_pred = demo_tests, tk_phase = Look \<rparr>]"
  by (simp add: network_tasks_def filter_stages_def demo_network_config_def demo_config_def
      filter_config_default_def filter_manager_new_def)

lemmas network_eval = network_start_def Let_def pool_def task_step_def take_step_def close_step_def
  forward_step_def set_phase_def put_def take_first_def set_taker_def cancel_network_def
  receivers_gone_def senders_gone_def numeral_eq_Suc

definition demo_network_end :: network where
  "demo_network_end = \<lparr> nw_tasks = [\<lparr> tk_pred = \<lambda>x. Ok True, tk_phase = Done \<rparr>, \<lparr> tk_pred = demo_tests, tk_phase = Done \<rparr>],
       nw_inboxes = [\<lparr> ib_queue = [], ib_received = [demo_object ''a'', demo_object ''b''] \<rparr>,
         \<lparr> ib_queue = [], ib_received = [demo_object ''a'', demo_object ''b''] \<rparr>,
         \<lparr> ib_queue = [], ib_received = [demo_object ''a''] \<rparr>],
       nw_takers = [\<lparr> tr_phase = Gone, tr_buffer = [] \<rparr>], nw_output = [], nw_cancelled = False \<rparr>"

lemma demo_network_run:
  "network_run 1 2 demo_schedule (network_start demo_libs demo_network_config cb
     [demo_object ''a'', demo_object ''b''])
   = Some demo_network_end"
  by (simp add: network_eval demo_network_tasks demo_schedule_def demo_network_tests demo_network_end_def
      demo_network_workers del: network_frames pool_simps phase_set_phase queue_put queue_take_first)


section \<open>What a configuration selects\<close>

lemma step_preds: "network_step cap batch a nw = Some nw' \<Longrightarrow> map tk_pred (nw_tasks nw') = map tk_pred (nw_tasks nw)"
proof -
  have p: "map tk_pred (nw_tasks (set_phase j ph nw)) = map tk_pred (nw_tasks nw)" for j ph nw
    by (rule nth_equalityI) (auto simp: set_phase_def nth_update)
  show "network_step cap batch a nw = Some nw' \<Longrightarrow> map tk_pred (nw_tasks nw') = map tk_pred (nw_tasks nw)"
    by (cases a) (auto simp: p task_step_def take_step_def close_step_def forward_step_def Let_def
        split: if_splits decision.splits after_flush.splits list.splits taker_phase.splits
          task_phase.splits outcome.splits bool.splits)
qed

lemma flowing_prefix:
  assumes "flowing xs nw"
  shows "k \<le> pool nw \<Longrightarrow> Sublist.prefix (received nw k @ queue nw k)
    (filter (\<lambda>x. \<forall>j < k. pred_of nw j x = Ok True) xs)"
proof (induction k)
  case 0
  with assms show ?case by (simp add: flowing_def)
next
  case (Suc k)
  have "Sublist.prefix ((received nw (Suc k) @ queue nw (Suc k)) @ pending (phase nw k)) (passed nw k)"
    using assms Suc.prems by (simp add: flowing_def link_def sent_on_def)
  then have "Sublist.prefix (received nw (Suc k) @ queue nw (Suc k)) (passed nw k)"
    by (rule append_prefixD)
  also have "Sublist.prefix (passed nw k) (filter (\<lambda>x. pred_of nw k x = Ok True)
      (filter (\<lambda>x. \<forall>j < k. pred_of nw j x = Ok True) xs))"
    unfolding passed_def using Suc by (intro filter_mono_prefix append_prefixD [OF Suc.IH]) simp
  also have "\<dots> = filter (\<lambda>x. \<forall>j < Suc k. pred_of nw j x = Ok True) xs"
    by (auto simp: less_Suc_eq intro!: filter_cong)
  finally show ?case .
qed

text \<open>The objects a configuration selects, with the user-defined filter when it is registered.\<close>

definition network_selects :: "libs \<Rightarrow> config \<Rightarrow> (s3_object \<Rightarrow> bool result) \<Rightarrow> s3_object \<Rightarrow> bool" where
  "network_selects lib cfg callback x \<longleftrightarrow> selects lib cfg x
     \<and> (if fm_callback_registered (filter_manager cfg) then callback x = Ok True else True)"

lemma network_start_simps:
  "nw_tasks (network_start lib cfg cb xs) = network_tasks lib cfg cb"
  "pool (network_start lib cfg cb xs) = length (network_tasks lib cfg cb)"
  "\<not> nw_cancelled (network_start lib cfg cb xs)" "nw_output (network_start lib cfg cb xs) = []"
  "nw_takers (network_start lib cfg cb xs)
     = replicate (unat (worker_size cfg)) \<lparr> tr_phase = Collecting, tr_buffer = [] \<rparr>"
  by (simp_all add: network_start_def Let_def pool_def)

lemma start_inboxes:
  "queue (network_start lib cfg cb xs) 0 = xs" "received (network_start lib cfg cb xs) 0 = []"
  "j < length (network_tasks lib cfg cb) \<Longrightarrow> queue (network_start lib cfg cb xs) (Suc j) = []"
  "j < length (network_tasks lib cfg cb) \<Longrightarrow> received (network_start lib cfg cb xs) (Suc j) = []"
  "j \<le> length (network_tasks lib cfg cb) \<Longrightarrow> received (network_start lib cfg cb xs) j = []"
  by (auto simp: network_start_def Let_def nth_Cons')

lemma start_phase:
  "j < length (network_tasks lib cfg cb) \<Longrightarrow> tk_phase (network_tasks lib cfg cb ! j) = Look"
proof -
  have "\<forall>t \<in> set (network_tasks lib cfg cb). tk_phase t = Look" by (auto simp: network_tasks_def)
  then show "j < length (network_tasks lib cfg cb) \<Longrightarrow> tk_phase (network_tasks lib cfg cb ! j) = Look"
    by simp
qed

lemma start_flowing:
  assumes "worker_size cfg \<noteq> 0"
  shows "flowing xs (network_start lib cfg cb xs)"
proof -
  have "0 < length (network_tasks lib cfg cb)" by (simp add: network_tasks_def)
  with assms show ?thesis
    by (auto simp: flowing_def shaped_def flow_defs network_start_simps start_inboxes start_phase
        unat_gt_0 simp del: length_greater_0_conv) (simp add: network_start_def Let_def)
qed

lemma task_preds_select:
  assumes "wf_object x" and "map tk_pred ts = map tk_pred (network_tasks lib cfg cb)"
  shows "(\<forall>j < length ts. tk_pred (ts ! j) x = Ok True) \<longleftrightarrow> network_selects lib cfg cb x"
proof -
  have "(\<forall>j < length ts. tk_pred (ts ! j) x = Ok True) \<longleftrightarrow> (\<forall>p \<in> set (map tk_pred ts). p x = Ok True)"
    by (auto simp: all_set_conv_all_nth)
  also have "\<dots> \<longleftrightarrow> (\<forall>nf \<in> set (filter_stages cfg). passes_stage nf lib (filter_config cfg) x)
      \<and> (if fm_callback_registered (filter_manager cfg) then cb x = Ok True else True)"
    unfolding assms(2) by (auto simp: network_tasks_def passes_stage_def comp_def)
  finally show ?thesis
    using filter_stages_select [OF assms(1)] by (simp add: network_selects_def)
qed

lemma run_facts:
  assumes "network_run cap batch as (network_start lib cfg cb xs) = Some nw" and "worker_size cfg \<noteq> 0"
  shows "flowing xs nw" "map tk_pred (nw_tasks nw) = map tk_pred (network_tasks lib cfg cb)"
proof -
  let ?P = "\<lambda>nw. flowing xs nw \<and> map tk_pred (nw_tasks nw) = map tk_pred (network_tasks lib cfg cb)"
  have "?P nw"
    by (rule network_run_invariant [OF _ assms(1)])
      (use flowing_step step_preds start_flowing [OF assms(2)] in \<open>auto simp: network_start_simps\<close>)
  then show "flowing xs nw" "map tk_pred (nw_tasks nw) = map tk_pred (network_tasks lib cfg cb)" by simp_all
qed

lemma chain_select:
  assumes "list_all wf_object xs" and "map tk_pred (nw_tasks nw) = map tk_pred (network_tasks lib cfg cb)"
  shows "filter (\<lambda>x. \<forall>j < pool nw. pred_of nw j x = Ok True) xs = filter (network_selects lib cfg cb) xs"
  using task_preds_select [OF _ assms(2)] assms(1)
  by (intro filter_cong) (simp_all add: list_all_iff pool_def)

lemma received_selected:
  assumes "network_run cap batch as (network_start lib cfg cb xs) = Some nw"
    and "worker_size cfg \<noteq> 0" and "list_all wf_object xs"
  shows "Sublist.prefix (received nw (pool nw)) (filter (network_selects lib cfg cb) xs)"
  using append_prefixD [OF flowing_prefix [OF run_facts(1) [OF assms(1,2)] order_refl]]
    chain_select [OF assms(3) run_facts(2) [OF assms(1,2)]] by simp

text \<open>
  C9: whatever the interleaving, the capacity of the channels, the failures and the moments of a
  cancellation, the objects the workers have received so far are, in the order of the listing,
  the first ones of those the configuration selects: no schedule lets a deselected object
  through, passes one twice or reorders them.
\<close>

theorem network_delivers_in_order:
  assumes "network_run cap batch as (network_start lib cfg callback xs) = Some nw"
    and "worker_size cfg \<noteq> 0" and "list_all wf_object xs"
  shows "Sublist.prefix (received nw (pool nw)) (filter (network_selects lib cfg callback) xs)"
  by (rule received_selected [OF assms])

theorem network_delivers_in_order_witness:
  "Sublist.prefix [demo_object ''a''] (filter (network_selects demo_libs demo_network_config (\<lambda>x. Ok True))
     [demo_object ''a'', demo_object ''b''])"
  using network_delivers_in_order [OF demo_network_run] by (simp add: pool_def demo_network_end_def demo_network_workers)


section \<open>The network never gets stuck\<close>

definition network_ended :: "network \<Rightarrow> bool" where
  "network_ended nw \<longleftrightarrow> (\<forall>j < pool nw. is_done (phase nw j))
     \<and> list_all (\<lambda>w. tr_phase w = Gone) (nw_takers nw) \<and> nw_output nw = []"

text \<open>No task can move; a cancellation from outside is not counted as a move.\<close>

definition stuck :: "nat \<Rightarrow> nat \<Rightarrow> network \<Rightarrow> bool" where
  "stuck cap batch nw \<longleftrightarrow> (\<forall>a. a \<noteq> CancelToken \<longrightarrow> network_step cap batch a nw = None)"

definition buffers_ok :: "network \<Rightarrow> bool" where
  "buffers_ok nw \<longleftrightarrow> (\<forall>w \<in> set (nw_takers nw). \<forall>after. tr_phase w = Flushing after \<longrightarrow> tr_buffer w \<noteq> [])"

lemma buffers_ok_simps [simp]:
  "buffers_ok (set_phase j ph nw) = buffers_ok nw" "buffers_ok (put j x nw) = buffers_ok nw"
  "buffers_ok (take_first j nw) = buffers_ok nw" "buffers_ok (cancel_network nw) = buffers_ok nw"
  "buffers_ok (nw\<lparr> nw_output := out \<rparr>) = buffers_ok nw"
  by (simp_all add: buffers_ok_def)

lemma buffers_ok_set_taker:
  "buffers_ok nw \<Longrightarrow> (\<And>after. ph = Flushing after \<Longrightarrow> b \<noteq> []) \<Longrightarrow> buffers_ok (set_taker i ph b nw)"
  by (auto simp: buffers_ok_def dest!: set_update_subset_insert [THEN subsetD])

lemma buffers_ok_step:
  "network_step cap batch a nw = Some nw' \<Longrightarrow> buffers_ok nw \<Longrightarrow> buffers_ok nw'"
  by (cases a) (auto simp: task_step_def take_step_def close_step_def forward_step_def Let_def
      intro!: buffers_ok_set_taker
      split: if_splits decision.splits after_flush.splits list.splits taker_phase.splits
        task_phase.splits outcome.splits bool.splits)

lemma stuck_task:
  assumes "stuck cap batch nw" and "j < pool nw" and "\<not> is_done (phase nw j)"
  shows "(phase nw j = Await \<and> queue nw j = [] \<and> \<not> senders_gone nw j)
    \<or> (\<not> receivers_gone nw (Suc j) \<and> cap \<le> length (queue nw (Suc j)))"
proof -
  have "network_step cap batch (TaskStep j) nw = None"
    using assms(1) [unfolded stuck_def, rule_format, of "TaskStep j"] by simp
  with assms(2,3) show ?thesis
    by (cases "phase nw j") (auto simp: task_step_def split: list.splits outcome.splits bool.splits if_splits)
qed

lemma stuck_upstream:
  assumes "stuck cap batch nw" and "0 < cap"
  shows "j < pool nw \<Longrightarrow> queue nw (Suc j) = [] \<or> receivers_gone nw (Suc j) \<Longrightarrow> is_done (phase nw j)"
proof (induction j)
  case 0
  show ?case
  proof (rule ccontr)
    assume "\<not> is_done (phase nw 0)"
    from stuck_task [OF assms(1) 0(1) this] 0(2) assms(2) show False by (auto simp: senders_gone_def)
  qed
next
  case (Suc j)
  show ?case
  proof (rule ccontr)
    assume n: "\<not> is_done (phase nw (Suc j))"
    with stuck_task [OF assms(1) Suc.prems(1) n] Suc.prems(2) assms(2)
    have "queue nw (Suc j) = []" "\<not> senders_gone nw (Suc j)" by auto
    with Suc.IH Suc.prems(1) show False by (simp add: senders_gone_def)
  qed
qed

lemma stuck_takers:
  assumes "stuck cap batch nw" and "0 < cap" and "buffers_ok nw" and "w \<in> set (nw_takers nw)"
    and "tr_phase w \<noteq> Gone"
  shows "nw_output nw = [] \<and> queue nw (pool nw) = [] \<and> \<not> senders_gone nw (pool nw)"
proof -
  from assms(4) obtain i where i: "i < length (nw_takers nw)" "nw_takers nw ! i = w"
    by (auto simp: in_set_conv_nth)
  have out: "nw_output nw = []"
    using assms(1) [unfolded stuck_def, rule_format, of Drain] by (auto split: list.splits)
  have st: "network_step cap batch a nw = None" if "a \<noteq> CancelToken" for a
    using assms(1) that by (simp add: stuck_def)
  have c: "tr_phase w = Collecting"
  proof (cases "tr_phase w")
    case (Flushing after)
    with assms(3,4) have "tr_buffer w \<noteq> []" by (auto simp: buffers_ok_def)
    with st [of "Forward i"] i out Flushing assms(2) show ?thesis
      by (auto simp: forward_step_def neq_Nil_conv Let_def)
  qed (use assms(5) in simp_all)
  have "\<not> nw_cancelled nw" using st [of "Quit i"] i c by auto
  moreover have "queue nw (pool nw) = []"
    using st [of "Take i Skip"] i c by (auto simp: take_step_def Let_def split: if_splits)
  ultimately show ?thesis
    using st [of "CloseSeen i"] i c out by (auto simp: close_step_def Let_def split: if_splits)
qed

lemma stuck_ended:
  assumes "stuck cap batch nw" and "0 < cap" and "buffers_ok nw" and "shaped nw"
  shows "network_ended nw"
proof -
  let ?m = "pool nw"
  have m: "0 < ?m" using assms(4) by (simp add: shaped_def)
  have gone: "list_all (\<lambda>w. tr_phase w = Gone) (nw_takers nw)"
  proof (rule ccontr)
    assume "\<not> list_all (\<lambda>w. tr_phase w = Gone) (nw_takers nw)"
    then obtain w where "w \<in> set (nw_takers nw)" "tr_phase w \<noteq> Gone" by (auto simp: list_all_iff)
    from stuck_takers [OF assms(1-3) this] m stuck_upstream [OF assms(1,2), of "?m - 1"] show False
      by (simp add: senders_gone_def)
  qed
  have tasks: "is_done (phase nw (?m - Suc k))" if "k < ?m" for k
    using that
  proof (induction k)
    case 0
    with gone m stuck_upstream [OF assms(1,2), of "?m - 1"] show ?case by (simp add: receivers_gone_def)
  next
    case (Suc k)
    then have "is_done (phase nw (?m - Suc k))" by simp
    with Suc.prems stuck_upstream [OF assms(1,2), of "?m - Suc (Suc k)"] show ?case
      by (simp add: receivers_gone_def Suc_diff_Suc)
  qed
  have "is_done (phase nw j)" if "j < ?m" for j
    using tasks [of "?m - Suc j"] that by simp
  moreover have "nw_output nw = []"
    using assms(1) [unfolded stuck_def, rule_format, of Drain] by (auto split: list.splits)
  ultimately show ?thesis using gone by (simp add: network_ended_def)
qed


section \<open>How long it runs\<close>

text \<open>The work an object still causes, by the inbox it lies in.\<close>

definition inbox_cost :: "network \<Rightarrow> nat \<Rightarrow> nat" where
  "inbox_cost nw j = 5 + 3 * (pool nw - j)"

fun phase_cost :: "nat \<Rightarrow> task_phase \<Rightarrow> nat" where
  "phase_cost next Look = 2"
| "phase_cost next Await = 1"
| "phase_cost next (Push x) = next + 3"
| "phase_cost next _ = 0"

fun taker_cost :: "taker_phase \<Rightarrow> s3_object list \<Rightarrow> nat" where
  "taker_cost Collecting b = 3 + 2 * length b"
| "taker_cost (Flushing Resume) b = 4 + 2 * length b"
| "taker_cost (Flushing _) b = 2 + 2 * length b"
| "taker_cost Gone b = 0"

definition work :: "network \<Rightarrow> nat" where
  "work nw = (\<Sum>j < length (nw_inboxes nw). length (queue nw j) * inbox_cost nw j)
     + (\<Sum>j < pool nw. phase_cost (inbox_cost nw (Suc j)) (phase nw j))
     + (\<Sum>w \<leftarrow> nw_takers nw. taker_cost (tr_phase w) (tr_buffer w))
     + length (nw_output nw) + (if nw_cancelled nw then 0 else 1)"

lemma inbox_cost_simps [simp]:
  "inbox_cost (set_phase i ph nw) j = inbox_cost nw j" "inbox_cost (put i x nw) j = inbox_cost nw j"
  "inbox_cost (take_first i nw) j = inbox_cost nw j" "inbox_cost (set_taker i p b nw) j = inbox_cost nw j"
  "inbox_cost (cancel_network nw) j = inbox_cost nw j"
  "inbox_cost (nw\<lparr> nw_output := out \<rparr>) j = inbox_cost nw j"
  by (simp_all add: inbox_cost_def)

lemma sum_change:
  fixes f :: "nat \<Rightarrow> nat"
  assumes "k < n" and "\<And>j. j \<noteq> k \<Longrightarrow> g j = f j"
  shows "(\<Sum>j < n. g j) + f k = (\<Sum>j < n. f j) + g k"
proof -
  have "sum g ({..<n} - {k}) = sum f ({..<n} - {k})" using assms(2) by (intro sum.cong) auto
  then show ?thesis using assms(1) sum.remove [of "{..<n}" k g] sum.remove [of "{..<n}" k f] by simp
qed

lemma work_set_phase:
  "j < pool nw \<Longrightarrow> work (set_phase j ph nw) + phase_cost (inbox_cost nw (Suc j)) (phase nw j)
     = work nw + phase_cost (inbox_cost nw (Suc j)) ph"
  using sum_change [of j "pool nw" "\<lambda>i. phase_cost (inbox_cost nw (Suc i)) (phase (set_phase j ph nw) i)"
      "\<lambda>i. phase_cost (inbox_cost nw (Suc i)) (phase nw i)"]
  by (simp add: work_def)

lemma work_put:
  "j < length (nw_inboxes nw) \<Longrightarrow> work (put j x nw) = work nw + inbox_cost nw j"
  using sum_change [of j "length (nw_inboxes nw)" "\<lambda>i. length (queue (put j x nw) i) * inbox_cost nw i"
      "\<lambda>i. length (queue nw i) * inbox_cost nw i"]
  by (simp add: work_def)

lemma work_take_first:
  "j < length (nw_inboxes nw) \<Longrightarrow> queue nw j \<noteq> [] \<Longrightarrow> work (take_first j nw) + inbox_cost nw j = work nw"
  using sum_change [of j "length (nw_inboxes nw)" "\<lambda>i. length (queue (take_first j nw) i) * inbox_cost nw i"
      "\<lambda>i. length (queue nw i) * inbox_cost nw i"]
  by (cases "queue nw j") (simp_all add: work_def)

lemma work_set_taker:
  assumes "i < length (nw_takers nw)"
  shows "work (set_taker i ph b nw) + taker_cost (tr_phase (nw_takers nw ! i)) (tr_buffer (nw_takers nw ! i))
     = work nw + taker_cost ph b"
proof -
  let ?c = "\<lambda>w. taker_cost (tr_phase w) (tr_buffer w)"
  have "sum_list (map ?c ((nw_takers nw)[i := w])) + ?c (nw_takers nw ! i) = sum_list (map ?c (nw_takers nw)) + ?c w" for w
    using assms member_le_sum_list [of "?c (nw_takers nw ! i)" "map ?c (nw_takers nw)"]
    by (simp add: map_update sum_list_update)
  from this [of "\<lparr> tr_phase = ph, tr_buffer = b \<rparr>"] show ?thesis by (simp add: work_def)
qed

lemma work_cancel [simp]: "work (cancel_network nw) = (if nw_cancelled nw then work nw else work nw - 1)"
  by (simp add: work_def)

lemma work_output:
  "work (nw\<lparr> nw_output := out \<rparr>) + length (nw_output nw) = work nw + length out"
  by (simp add: work_def)

lemma work_cancel_le: "work (cancel_network nw) \<le> work nw"
  by simp

lemma work_task_step:
  assumes "task_step cap j nw = Some nw'" and "j < pool nw" and "shaped nw"
  shows "work nw' < work nw"
proof -
  note ph = work_set_phase [of j]
  have len: "j < length (nw_inboxes nw)" "Suc j < length (nw_inboxes nw)" "Suc (pool nw - Suc j) = pool nw - j"
    using assms(2,3) by (simp_all add: shaped_def)
  have cost: "inbox_cost nw j = inbox_cost nw (Suc j) + 3"
    using len(3) by (simp add: inbox_cost_def)
  show ?thesis
  proof (cases "phase nw j")
    case Await
    show ?thesis
    proof (cases "queue nw j")
      case (Cons x q)
      with work_take_first [of j nw] len
      have t: "work (take_first j nw) + inbox_cost nw j = work nw" by simp
      with ph [of "take_first j nw" "Push x"] ph [of "take_first j nw" Look]
        ph [of "take_first j nw" Halted] assms Await Cons cost show ?thesis
        by (auto simp: task_step_def split: outcome.splits bool.splits)
    qed (use assms Await ph [of nw Done] in \<open>auto simp: task_step_def split: if_splits\<close>)
  next
    case (Push x)
    with assms ph [of nw Halted] ph [of "put (Suc j) x nw" Look] work_put [of "Suc j" nw x] len show ?thesis
      by (auto simp: task_step_def split: if_splits)
  qed (use assms ph [of nw Halted] ph [of nw Await] in \<open>auto simp: task_step_def\<close>)
qed

lemma work_take_step:
  assumes "take_step batch i d nw = Some nw'" and "i < length (nw_takers nw)" and "shaped nw"
  shows "work nw' < work nw"
proof -
  let ?nw = "take_first (pool nw) nw" and ?b = "tr_buffer (nw_takers nw ! i)" and ?x = "hd (queue nw (pool nw))"
  have q: "queue nw (pool nw) \<noteq> []" "tr_phase (nw_takers nw ! i) = Collecting"
    using assms(1) by (auto simp: take_step_def Let_def split: if_splits)
  have t: "work ?nw + 5 = work nw"
    using work_take_first [of "pool nw" nw] q(1) assms(3) by (simp add: shaped_def inbox_cost_def)
  have w: "work (set_taker i ph b ?nw) + 3 + 2 * length (tr_buffer (nw_takers nw ! i)) = work ?nw + taker_cost ph b"
    for ph b using work_set_taker [of i ?nw ph b] assms(2) q(2) by simp
  show ?thesis
    using assms(1) q t w [of Gone "[]"] w [of Collecting "?b @ [?x]"]
      w [of "Flushing Resume" "?b @ [?x]"] w [of "Flushing CancelRun" ?b]
    by (cases d) (auto simp: take_step_def Let_def split: if_splits)
qed

lemma work_forward_step:
  assumes "forward_step cap i nw = Some nw'" and "i < length (nw_takers nw)"
  shows "work nw' < work nw"
proof -
  obtain after x b where f: "tr_phase (nw_takers nw ! i) = Flushing after" "tr_buffer (nw_takers nw ! i) = x # b"
    using assms(1) by (auto simp: forward_step_def Let_def split: taker_phase.splits list.splits)
  let ?nw = "nw\<lparr> nw_output := nw_output nw @ [x] \<rparr>"
  have o: "work ?nw = work nw + 1" using work_output [where nw = nw and out = "nw_output nw @ [x]"] by simp
  have w: "work (set_taker i ph b' ?nw) + taker_cost (Flushing after) (x # b) = work nw + 1 + taker_cost ph b'"
    for ph b' using work_set_taker [of i ?nw ph b'] assms(2) f o by simp
  show ?thesis
    using assms(1) f w [of "Flushing after" b] w [of Collecting "[]"] w [of Gone "[]"]
    by (cases after) (auto simp: forward_step_def Let_def split: if_splits)
qed

lemma flush_cost: "0 < taker_cost (Flushing after) b"
  by (cases after) simp_all

lemma work_step:
  assumes "network_step cap batch a nw = Some nw'" and "shaped nw"
  shows "work nw' < work nw"
proof (cases a)
  case (TaskFails j)
  with assms work_set_phase [of j nw Halted] show ?thesis
    by (cases "phase nw j") (auto split: if_splits)
next
  case (CloseSeen i)
  with assms work_set_taker [of i nw Gone "[]"] work_set_taker [of i nw "Flushing Leave" "tr_buffer (nw_takers nw ! i)"] show ?thesis
    by (auto simp: close_step_def Let_def split: if_splits)
next
  case (FlushFails i)
  with assms(1) have i: "i < length (nw_takers nw)" and nw': "nw' = cancel_network (set_taker i Gone [] nw)"
    and f: "tr_phase (nw_takers nw ! i) \<notin> {Collecting, Gone}" by (auto split: if_splits)
  from f obtain after where "tr_phase (nw_takers nw ! i) = Flushing after"
    by (cases "tr_phase (nw_takers nw ! i)") auto
  with work_set_taker [OF i, of Gone "[]"] flush_cost [of after "tr_buffer (nw_takers nw ! i)"]
  have "work (set_taker i Gone [] nw) < work nw" by simp
  with work_cancel_le show ?thesis unfolding nw' by (rule le_less_trans)
next
  case (Quit i)
  with assms work_set_taker [of i nw Gone "[]"] show ?thesis by (auto split: if_splits)
next
  case Drain
  with assms show ?thesis by (auto simp: work_def inbox_cost_def pool_def split: list.splits)
next
  case CancelToken
  with assms show ?thesis by (auto simp: work_def split: if_splits)
qed (use assms in \<open>auto simp: work_task_step work_take_step work_forward_step split: if_splits\<close>)

lemma work_run:
  "network_run cap batch as nw = Some nw' \<Longrightarrow> flowing xs nw \<Longrightarrow> length as + work nw' \<le> work nw"
proof (induction as arbitrary: nw)
  case (Cons a as)
  then obtain nw1 where 1: "network_step cap batch a nw = Some nw1" "network_run cap batch as nw1 = Some nw'"
    by (auto split: option.splits)
  from Cons.IH [OF 1(2) flowing_step [OF 1(1) Cons.prems(2)]] work_step [OF 1(1)] Cons.prems(2)
  show ?case by (simp add: flowing_def)
qed simp

lemma work_start:
  "work (network_start lib cfg cb xs) = length xs * (3 * length (network_tasks lib cfg cb) + 5)
     + 2 * length (network_tasks lib cfg cb) + 3 * unat (worker_size cfg) + 1"
proof -
  let ?nw = "network_start lib cfg cb xs" and ?m = "length (network_tasks lib cfg cb)"
  have n: "length (nw_inboxes ?nw) = Suc ?m" by (simp add: network_start_def Let_def)
  have "(\<Sum>j < Suc ?m. length (queue ?nw j) * inbox_cost ?nw j)
      = length (queue ?nw 0) * inbox_cost ?nw 0 + (\<Sum>j < ?m. length (queue ?nw (Suc j)) * inbox_cost ?nw (Suc j))"
    by (rule sum.lessThan_Suc_shift)
  also have "\<dots> = length xs * (3 * ?m + 5)"
    by (simp add: inbox_cost_def network_start_simps(2) start_inboxes)
  finally have q: "(\<Sum>j < Suc ?m. length (queue ?nw j) * inbox_cost ?nw j) = length xs * (3 * ?m + 5)" .
  have p: "(\<Sum>j < ?m. phase_cost (inbox_cost ?nw (Suc j)) (phase ?nw j)) = 2 * ?m"
    by (simp add: network_start_simps(1) start_phase)
  show ?thesis
    unfolding work_def n q
    using p by (simp add: network_start_simps sum_list_replicate)
qed

lemma start_buffers_ok: "buffers_ok (network_start lib cfg cb xs)"
  by (simp add: buffers_ok_def network_start_simps)

text \<open>
  C10: a run always shuts down. In whatever state the schedule, the failures and the
  cancellations have brought the tasks, with channels of any capacity but 0, some task can move
  or everything has ended: no task waits forever for room in a channel or for an object. And a
  run has at most so many steps as its objects, stages and workers account for, so every
  schedule ends.
\<close>

theorem network_shuts_down:
  assumes "network_run cap batch as (network_start lib cfg callback xs) = Some nw"
    and "worker_size cfg \<noteq> 0" and "0 < cap"
  shows "((\<exists>a nw'. a \<noteq> CancelToken \<and> network_step cap batch a nw = Some nw') \<or> network_ended nw)
    \<and> length as \<le> length xs * (3 * length (network_tasks lib cfg callback) + 5)
        + 2 * length (network_tasks lib cfg callback) + 3 * unat (worker_size cfg) + 1"
proof -
  have "buffers_ok nw"
    by (rule network_run_invariant [where P = buffers_ok, OF buffers_ok_step assms(1) start_buffers_ok])
  moreover have "shaped nw" using run_facts(1) [OF assms(1,2)] by (simp add: flowing_def)
  ultimately have "(\<exists>a nw'. a \<noteq> CancelToken \<and> network_step cap batch a nw = Some nw') \<or> network_ended nw"
    using stuck_ended [of cap batch nw, OF _ assms(3)] by (metis stuck_def not_None_eq)
  then show ?thesis
    using work_run [OF assms(1) start_flowing [OF assms(2)]] by (simp add: work_start)
qed

theorem network_shuts_down_witness:
  "((\<exists>a nw'. a \<noteq> CancelToken \<and> network_step 1 2 a demo_network_end = Some nw') \<or> network_ended demo_network_end)
    \<and> length demo_schedule \<le> 30"
  using network_shuts_down [OF demo_network_run] by (simp add: demo_network_workers demo_network_tasks)

end
