(* ===== verification/Network_Runs.thy ===== *)
theory Network_Runs
  imports Network_Facts
begin

text \<open>
  The runs that nobody cancels: when all tasks have ended, the workers have received exactly
  what the stages of \<open>Pipeline\<close> hand them when they run one after another.
\<close>

section \<open>Runs that nobody cancels\<close>

definition pool_finished :: "network \<Rightarrow> bool" where
  "pool_finished nw \<longleftrightarrow> senders_gone nw (pool nw) \<and> queue nw (pool nw) = []"

definition task_healthy :: "network \<Rightarrow> nat \<Rightarrow> bool" where
  "task_healthy nw j \<longleftrightarrow> phase nw j \<noteq> Halted
     \<and> (phase nw j = Done \<longrightarrow> senders_gone nw j \<and> queue nw j = [])"

definition healthy :: "network \<Rightarrow> bool" where
  "healthy nw \<longleftrightarrow> (\<forall>j < pool nw. task_healthy nw j)
     \<and> ((\<exists>w \<in> set (nw_takers nw). tr_phase w \<in> {Gone, Flushing Leave}) \<longrightarrow> pool_finished nw)"

lemma senders_gone_simps [simp]:
  "senders_gone (put i x nw) j = senders_gone nw j" "senders_gone (take_first i nw) j = senders_gone nw j"
  "senders_gone (set_taker i p b nw) j = senders_gone nw j"
  "senders_gone (nw\<lparr> nw_output := out \<rparr>) j = senders_gone nw j"
  by (simp_all add: senders_gone_def)

lemma senders_gone_set_phase:
  "\<not> is_done (phase nw j) \<Longrightarrow> senders_gone nw i \<Longrightarrow> senders_gone (set_phase j ph nw) i"
  by (auto simp: senders_gone_def)

lemma healthy_set_phase:
  assumes "healthy nw" and "\<not> is_done (phase nw j)" and "ph \<noteq> Halted"
    and "ph = Done \<Longrightarrow> senders_gone nw j \<and> queue nw j = []"
  shows "healthy (set_phase j ph nw)"
proof -
  have "task_healthy (set_phase j ph nw) i" if "i < pool nw" for i
    using assms that by (cases "i = j") (auto simp: healthy_def task_healthy_def intro: senders_gone_set_phase)
  with assms show ?thesis by (auto simp: healthy_def pool_finished_def intro: senders_gone_set_phase)
qed

lemma healthy_take_first:
  assumes "healthy nw" and "j < pool nw" and "phase nw j \<noteq> Done"
  shows "healthy (take_first j nw)"
  using assms by (auto simp: healthy_def task_healthy_def pool_finished_def)

lemma healthy_put:
  assumes "healthy nw" and "\<not> senders_gone nw j"
  shows "healthy (put j x nw)"
  using assms by (auto simp: healthy_def task_healthy_def pool_finished_def)

lemma healthy_set_taker:
  assumes "healthy nw" and "ph \<in> {Gone, Flushing Leave} \<Longrightarrow> pool_finished nw"
  shows "healthy (set_taker i ph b nw)"
  using assms by (auto simp: healthy_def task_healthy_def pool_finished_def
      dest!: set_update_subset_insert [THEN subsetD])

lemma healthy_receivers:
  assumes "healthy nw" and "shaped nw" and "j < pool nw" and "\<not> is_done (phase nw j)"
  shows "\<not> receivers_gone nw (Suc j)"
proof
  assume g: "receivers_gone nw (Suc j)"
  show False
  proof (cases "Suc j < pool nw")
    case True
    with g assms(1) have "senders_gone nw (Suc j)"
      by (cases "phase nw (Suc j)") (auto simp: receivers_gone_def healthy_def task_healthy_def)
    with assms(4) show False by (simp add: senders_gone_def)
  next
    case False
    with assms(3) have "Suc j = pool nw" by simp
    with g assms(1,2) have "senders_gone nw (pool nw)"
      by (auto simp: receivers_gone_def healthy_def shaped_def list_all_iff pool_finished_def neq_Nil_conv)
    with \<open>Suc j = pool nw\<close> assms(4) show False by (auto simp: senders_gone_def simp flip: \<open>Suc j = pool nw\<close>)
  qed
qed

lemma healthy_task_step:
  assumes "task_step cap j nw = Some nw'" and "j < pool nw" and "healthy nw" and "shaped nw"
    and "\<not> nw_cancelled nw'"
  shows "healthy nw'"
proof (cases "phase nw j")
  case Look
  with assms show ?thesis by (auto simp: task_step_def intro!: healthy_set_phase split: if_splits)
next
  case Await
  with assms show ?thesis
    by (auto simp: task_step_def intro!: healthy_set_phase healthy_take_first
        split: list.splits outcome.splits bool.splits if_splits)
next
  case (Push x)
  with assms healthy_receivers [OF assms(3,4,2)] show ?thesis
    by (auto simp: task_step_def senders_gone_def intro!: healthy_set_phase healthy_put split: if_splits)
qed (use assms in \<open>auto simp: task_step_def\<close>)

lemma healthy_take_step:
  assumes "take_step batch i d nw = Some nw'" and "i < length (nw_takers nw)" and "healthy nw"
    and "\<not> nw_cancelled nw'"
  shows "healthy nw'"
proof -
  have q: "queue nw (pool nw) \<noteq> []" using assms(1) by (auto simp: take_step_def Let_def split: if_splits)
  with assms(3) have n: "\<forall>w \<in> set (nw_takers nw). tr_phase w \<notin> {Gone, Flushing Leave}"
    by (auto simp: healthy_def pool_finished_def)
  have h: "healthy (take_first (pool nw) nw)"
    using assms(3) n by (auto simp: healthy_def task_healthy_def)
  show ?thesis
    using assms(1,4) h by (auto simp: take_step_def Let_def intro!: healthy_set_taker
        split: if_splits decision.splits)
qed

lemma healthy_forward_step:
  assumes "forward_step cap i nw = Some nw'" and "i < length (nw_takers nw)" and "healthy nw"
    and "\<not> nw_cancelled nw'"
  shows "healthy nw'"
proof -
  obtain after x b where f: "tr_phase (nw_takers nw ! i) = Flushing after" "tr_buffer (nw_takers nw ! i) = x # b"
    using assms(1) by (auto simp: forward_step_def Let_def split: taker_phase.splits list.splits)
  let ?nw = "nw\<lparr> nw_output := nw_output nw @ [x] \<rparr>"
  have h: "healthy ?nw" using assms(3) by (auto simp: healthy_def task_healthy_def pool_finished_def)
  have l: "pool_finished ?nw" if "after = Leave"
    using assms(2,3) f(1) that nth_mem [OF assms(2)] by (auto simp: healthy_def pool_finished_def)
  show ?thesis
    using assms(1,4) f h l by (cases after) (auto simp: forward_step_def Let_def intro!: healthy_set_taker
        split: if_splits)
qed

lemma healthy_step:
  assumes "network_step cap batch a nw = Some nw'" and "flowing xs nw"
    and "\<not> nw_cancelled nw \<Longrightarrow> healthy nw" and "\<not> nw_cancelled nw'"
  shows "healthy nw'"
proof -
  have c: "\<not> nw_cancelled nw"
    using assms(1,4)
    by (cases a) (auto simp: task_step_def take_step_def close_step_def forward_step_def Let_def
        split: if_splits decision.splits after_flush.splits list.splits taker_phase.splits
          task_phase.splits outcome.splits bool.splits)
  with assms(3) have h: "healthy nw" by simp
  have s: "shaped nw" using assms(2) by (simp add: flowing_def)
  show ?thesis
  proof (cases a)
    case (CloseSeen i)
    with assms(1) h c show ?thesis
      by (auto simp: close_step_def Let_def pool_finished_def intro!: healthy_set_taker split: if_splits)
  next
    case Drain
    with assms(1) h show ?thesis
      by (auto simp: healthy_def task_healthy_def pool_finished_def split: list.splits)
  qed (use assms(1,4) h c s healthy_task_step healthy_take_step healthy_forward_step in \<open>auto split: if_splits\<close>)
qed

lemma healthy_run:
  assumes "network_run cap batch as (network_start lib cfg cb xs) = Some nw" and "worker_size cfg \<noteq> 0"
    and "\<not> nw_cancelled nw"
  shows "healthy nw"
proof -
  let ?P = "\<lambda>nw. flowing xs nw \<and> (nw_cancelled nw \<or> healthy nw)"
  have "healthy (network_start lib cfg cb xs)"
    by (auto simp: healthy_def task_healthy_def network_start_simps start_phase)
  then have "?P (network_start lib cfg cb xs)" using start_flowing [OF assms(2)] by simp
  moreover have "?P nw'" if "network_step cap batch a nw = Some nw'" "?P nw" for a nw nw'
    using that flowing_step healthy_step by blast
  ultimately have "?P nw" by (intro network_run_invariant [of cap batch ?P, OF _ assms(1)])
  with assms(3) show ?thesis by simp
qed

lemma drained_chain:
  assumes "flowing xs nw" and "healthy nw" and "network_ended nw"
  shows "k \<le> pool nw \<Longrightarrow> received nw k = filter (\<lambda>x. \<forall>j < k. pred_of nw j x = Ok True) xs"
proof (induction k)
  case 0
  have "phase nw 0 = Done"
    using assms by (cases "phase nw 0") (auto simp: network_ended_def healthy_def task_healthy_def flowing_def shaped_def)
  with assms show ?case by (auto simp: flowing_def healthy_def task_healthy_def shaped_def)
next
  case (Suc k)
  have d: "phase nw j = Done" if "j < pool nw" for j
    using assms(2,3) that by (cases "phase nw j") (auto simp: network_ended_def healthy_def task_healthy_def)
  have "queue nw (Suc k) = []"
  proof (cases "Suc k = pool nw")
    case True
    with assms show ?thesis
      by (auto simp: network_ended_def healthy_def pool_finished_def flowing_def shaped_def list_all_iff neq_Nil_conv)
  next
    case False
    with Suc.prems d [of "Suc k"] assms(2) show ?thesis by (auto simp: healthy_def task_healthy_def)
  qed
  moreover have "link nw k" using assms(1) Suc.prems by (simp add: flowing_def)
  ultimately have "received nw (Suc k) = filter (\<lambda>x. pred_of nw k x = Ok True) (received nw k)"
    using d [of k] Suc.prems by (simp add: flow_defs)
  also have "\<dots> = filter (\<lambda>x. \<forall>j < Suc k. pred_of nw j x = Ok True) xs"
    using Suc by (auto simp: less_Suc_eq intro!: filter_cong)
  finally show ?case .
qed

lemma drained_selected:
  assumes "network_run cap batch as (network_start lib cfg cb xs) = Some nw"
    and "network_ended nw" and "\<not> nw_cancelled nw" and "worker_size cfg \<noteq> 0" and "list_all wf_object xs"
  shows "received nw (pool nw) = filter (network_selects lib cfg cb) xs"
  using drained_chain [OF run_facts(1) [OF assms(1,4)] healthy_run [OF assms(1,4,3)] assms(2) order_refl]
    chain_select [OF assms(5) run_facts(2) [OF assms(1,4)]] by simp

text \<open>
  C13: the schedule does not matter for what is deleted. When the tasks of a run have all ended
  and nobody cancelled it, the workers have together received exactly the objects that the
  stages hand them when they run one after another, in the same order, whatever the
  interleaving and however small the channels were.
\<close>

theorem schedules_agree_with_stages:
  assumes "network_run cap batch as (network_start (env_libs env) (pl_config pl) callback xs) = Some nw"
    and "network_ended nw" and "\<not> nw_cancelled nw" and "worker_size (pl_config pl) \<noteq> 0"
    and "list_all wf_object xs" and "quiet env" and "\<not> cancelled (pl_sys pl)"
    and "\<not> fm_callback_registered (filter_manager (pl_config pl))"
  shows "received nw (pool nw) = fst (filter_objects env xs pl)"
proof -
  have "received nw (pool nw) = filter (network_selects (env_libs env) (pl_config pl) callback) xs"
    by (rule drained_selected [OF assms(1-5)])
  also have "\<dots> = filter (selects (env_libs env) (pl_config pl)) xs"
    using assms(8) by (intro filter_cong) (simp_all add: network_selects_def)
  also have "\<dots> = fst (filter_objects env xs pl)"
    using filter_objects_selects [OF assms(6,7,5,8)] by auto
  finally show ?thesis .
qed

theorem schedules_agree_with_stages_witness:
  "[demo_object ''a''] = fst (filter_objects demo_env [demo_object ''a'', demo_object ''b'']
     (pipeline_new demo_network_config [''a'']))"
proof -
  let ?pl = "pipeline_new demo_network_config [''a'']"
  have "received demo_network_end (pool demo_network_end)
      = fst (filter_objects demo_env [demo_object ''a'', demo_object ''b''] ?pl)"
  proof (rule schedules_agree_with_stages [where pl = ?pl and callback = "\<lambda>x. Ok True"])
    show "network_run 1 2 demo_schedule (network_start (env_libs demo_env) (pl_config ?pl) (\<lambda>x. Ok True)
        [demo_object ''a'', demo_object ''b'']) = Some demo_network_end"
      using demo_network_run by (simp add: pipeline_new_def)
  qed (simp_all add: pipeline_new_def demo_network_workers demo_network_end_def network_ended_def pool_def
      demo_network_config_def demo_config_def filter_manager_new_def All_less_Suc)
  then show ?thesis by (simp add: demo_network_end_def pool_def)
qed

end
