(* ===== verification/Workers_Complete.thy ===== *)
theory Workers_Complete
  imports Workers
begin

text \<open>
  The interleaved workers lose nothing: as long as nobody cancels the run, every object of the
  channel is in the queue, in the hands of a worker or submitted.
\<close>

lemma select_cancelled_True: "select_cancelled env s = (Ok True, s') \<Longrightarrow> cancelled s'"
  by (auto simp: select_cancelled_def bind_def is_cancelled_def Let_def split: prod.splits)

lemma flush_all:
  assumes "delete_buffered_objects st env cfg buffer s = (r, s')" and "\<not> cancelled s'"
  shows "left_over r = []"
proof -
  obtain w c where "is_cancelled env s = (Ok c, s\<lparr> world := w, cancelled := c \<rparr>)"
    by (rule is_cancelled_cases)
  with assms show ?thesis
    by (auto simp: delete_buffered_objects_def left_over_def bind_def seq_def ret_def
        split: if_splits prod.splits outcome.splits)
qed

text \<open>A step of a worker that keeps all objects.\<close>

definition shifts :: "nat \<Rightarrow> worker \<Rightarrow> s3_object list \<Rightarrow> s3_object list \<Rightarrow> 'w workers \<Rightarrow> 'w workers \<Rightarrow> bool" where
  "shifts i k took sub w w' \<longleftrightarrow>
     i < length (ws_workers w) \<and> ws_workers w' = (ws_workers w)[i := k]
   \<and> ws_queue w = took @ ws_queue w' \<and> ws_submitted w' = ws_submitted w @ sub
   \<and> mset sub + wk_objects k = wk_objects (ws_workers w ! i) + mset took
   \<and> (wk_phase k = Finished \<longrightarrow> wk_buffer k = [])"

definition nothing_lost :: "s3_object list \<Rightarrow> 'w workers \<Rightarrow> bool" where
  "nothing_lost xs w \<longleftrightarrow>
     mset (ws_submitted w) + total wk_objects w + mset (ws_queue w) = mset xs
   \<and> (\<forall>k \<in> set (ws_workers w). wk_phase k = Finished \<longrightarrow> wk_buffer k = [])"

lemma shifts_nothing_lost:
  assumes "shifts i k took sub w w'" and "nothing_lost xs w"
  shows "nothing_lost xs w'"
proof -
  note sh = assms(1) [unfolded shifts_def] and nl = assms(2) [unfolded nothing_lost_def]
  have "total wk_objects w' + wk_objects (ws_workers w ! i) = total wk_objects w + wk_objects k"
    using sh sum_list_update_add [of i "ws_workers w" wk_objects k] by (simp add: total_def)
  with sh have "mset (ws_submitted w') + total wk_objects w' + mset (ws_queue w') + wk_objects (ws_workers w ! i)
      = mset (ws_submitted w) + total wk_objects w + mset (ws_queue w) + wk_objects (ws_workers w ! i)"
    by (simp add: ac_simps)
  with nl have "mset (ws_submitted w') + total wk_objects w' + mset (ws_queue w') = mset xs" by simp
  moreover have "\<forall>k \<in> set (ws_workers w'). wk_phase k = Finished \<longrightarrow> wk_buffer k = []"
    using sh nl by (auto dest!: set_update_subset_insert [THEN subsetD])
  ultimately show ?thesis by (simp add: nothing_lost_def)
qed

lemma after_object_goes_on:
  assumes "\<not> cancelled (ws_sys (after_object env i b s w))"
  obtains s' where "after_object env i b s w = set_sys s' (set_worker i Receiving b w)"
proof -
  obtain v c where "is_cancelled env s = (Ok c, s\<lparr> world := v, cancelled := c \<rparr>)"
    by (rule is_cancelled_cases)
  with assms that show thesis by (auto simp: after_object_def split: if_splits)
qed

lemma plain_steps:
  assumes "plain_deletion cfg"
  shows "filter_step st env cfg i x b w = set_sys (ws_sys w) (set_worker i (Selected x) b w)"
    and "\<exists>s. check_step st env cfg i x b w = submit [] (set_sys s (set_worker i (Granted x) b w))"
  using assms
  by (auto simp: plain_deletion_def filter_step_def check_step_def check_submits_def check_max_delete_def
      or_else_def apply_head_object_filters_def apply_tag_filters_def Let_def bind_def gets_def)

lemma worker_step_shifts:
  assumes "worker_step st env cfg i w = Some w'" and "\<not> cancelled (ws_sys w')" and "plain_deletion cfg"
  shows "\<exists>k took sub. shifts i k took sub w w'"
proof -
  obtain ph b where k: "ws_workers w ! i = \<lparr> wk_phase = ph, wk_buffer = b \<rparr>" by (cases "ws_workers w ! i")
  from assms(1) have i: "i < length (ws_workers w)" by (auto simp: worker_step_def split: if_splits)
  note step = assms(1) [unfolded worker_step_def] and upd = shifts_def wk_objects_def i k
  show ?thesis
  proof (cases ph)
    case Receiving
    then have w': "w' = receive_step st env cfg i b w" using step i k by simp
    obtain r s1 where sel: "select_cancelled env (ws_sys w) = (r, s1)" by fastforce
    have r: "r \<noteq> Ok True"
      using select_cancelled_True [of env "ws_sys w" s1] sel assms(2) w' by (auto simp: receive_step_def)
    show ?thesis
    proof (cases "ws_queue w")
      case (Cons x q)
      with sel r w' Receiving show ?thesis
        by (intro exI [of _ "\<lparr> wk_phase = Received x, wk_buffer = b \<rparr>"] exI [of _ "[x]"] exI [of _ "[]"])
          (simp add: receive_step_def upd set_sys_def set_worker_def)
    next
      case Nil
      obtain r2 s2 where fl: "delete_buffered_objects st env cfg b s1 = (r2, s2)" by fastforce
      have w2: "w' = submit (submits env b s1) (set_sys s2 (set_worker i Finished (left_over r2) w))"
        using w' sel r Nil fl by (simp add: receive_step_def left_over_def split: outcome.splits)
      with assms(2) flush_all [OF fl] flush_splits [OF fl] Receiving Nil show ?thesis
        by (intro exI [of _ "\<lparr> wk_phase = Finished, wk_buffer = [] \<rparr>"] exI [of _ "[]"] exI [of _ b])
          (simp add: upd)
    qed
  next
    case (Received x)
    with step i k have "w' = set_sys (ws_sys w) (set_worker i (Selected x) b w)"
      by (simp add: plain_steps(1) [OF assms(3)])
    with Received show ?thesis
      by (intro exI [of _ "\<lparr> wk_phase = Selected x, wk_buffer = b \<rparr>"] exI [of _ "[]"]) (simp add: upd)
  next
    case (Selected x)
    with step i k plain_steps(2) [OF assms(3)] obtain s
      where "w' = submit [] (set_sys s (set_worker i (Granted x) b w))" by fastforce
    with Selected show ?thesis
      by (intro exI [of _ "\<lparr> wk_phase = Granted x, wk_buffer = b \<rparr>"] exI [of _ "[]"]) (simp add: upd)
  next
    case (Granted x)
    let ?sub = "push_submits env cfg x b (ws_sys w)"
    obtain r s1 where f: "buffer_and_delete st env cfg x b (ws_sys w) = (r, s1)" by fastforce
    have w': "w' = push_step st env cfg i x b w" using step i k Granted by simp
    have "\<exists>ph s. w' = submit ?sub (set_sys s (set_worker i ph (left_over r) w))
        \<and> phase_objects ph = [] \<and> (ph = Finished \<longrightarrow> left_over r = [])"
    proof (cases r)
      case (Ok b')
      with w' f assms(2) have "\<not> cancelled (ws_sys (after_object env i b' s1 w))" by (simp add: push_step_def)
      then obtain s' where "after_object env i b' s1 w = set_sys s' (set_worker i Receiving b' w)"
        by (rule after_object_goes_on)
      with w' f Ok show ?thesis
        by (intro exI [of _ Receiving] exI [of _ s']) (simp add: push_step_def left_over_def)
    qed (use w' f in \<open>auto simp: push_step_def left_over_def intro: exI [of _ Finished]\<close>)
    then obtain ph' s where "w' = submit ?sub (set_sys s (set_worker i ph' (left_over r) w))"
      "phase_objects ph' = []" "ph' = Finished \<longrightarrow> left_over r = []" by blast
    moreover have "mset ?sub + mset (left_over r) = add_mset x (mset b)"
      using arg_cong [OF push_splits [OF f], of mset] by simp
    ultimately show ?thesis
      using Granted by (intro exI [of _ "\<lparr> wk_phase = ph', wk_buffer = left_over r \<rparr>"] exI [of _ "[]"]
          exI [of _ ?sub]) (simp add: upd)
  next
    case Finished
    with step i k show ?thesis by simp
  qed
qed

lemma start_nothing_lost: "nothing_lost xs (workers_start n xs s)"
proof -
  have "sum_list (replicate n {#}) = ({#} :: s3_object multiset)" by (induction n) auto
  then show ?thesis by (simp add: nothing_lost_def workers_start_def total_def wk_objects_def)
qed

lemma reachable_nothing_lost:
  assumes "reachable st env cfg w0 w" and "nothing_lost xs w0" and "plain_deletion cfg"
  shows "\<not> cancelled (ws_sys w) \<longrightarrow> nothing_lost xs w"
  using assms(1)
proof induction
  case start
  then show ?case using assms(2) by simp
next
  case (step w w')
  show ?case
  proof
    assume c: "\<not> cancelled (ws_sys w')"
    from step.hyps(2) show "nothing_lost xs w'"
    proof cases
      case (worker_moves i)
      with c cancelled_worker_step [OF worker_moves] have "\<not> cancelled (ws_sys w)"
        by (auto simp: still_cancelled_def)
      with step.IH worker_step_shifts [OF worker_moves c assms(3)] shifts_nothing_lost show ?thesis by blast
    next
      case (other_task s)
      with c step.IH show ?thesis by (auto simp: nothing_lost_def total_def)
    qed
  qed
qed

text \<open>When the channel is drained and all workers have finished, everything has been submitted.\<close>

lemma finished_submitted:
  assumes "reachable st env cfg (workers_start n xs s) w" and "plain_deletion cfg"
    and "ws_queue w = []" and "list_all (\<lambda>k. wk_phase k = Finished) (ws_workers w)"
    and "\<not> cancelled (ws_sys w)"
  shows "mset (ws_submitted w) = mset xs"
proof -
  have nl: "nothing_lost xs w"
    using reachable_nothing_lost [OF assms(1) start_nothing_lost assms(2)] assms(5) by simp
  with assms(4) have "\<forall>k \<in> set (ws_workers w). wk_objects k = {#}"
    by (auto simp: nothing_lost_def wk_objects_def list_all_iff)
  then have "map wk_objects (ws_workers w) = map (\<lambda>k. {#}) (ws_workers w)" by simp
  then have "total wk_objects w = {#}" unfolding total_def by (simp only: sum_list_0)
  with nl assms(3) show ?thesis by (simp add: nothing_lost_def)
qed

end
