(* ===== verification/Schedules.thy ===== *)
theory Schedules
  imports Listing_Runs Network_Runs Workers_Complete
begin

text \<open>
  A whole run in all its schedules: the tasks of the listing (\<open>Listing\<close>), the stages between the
  channels (\<open>Network\<close>) and the deletion workers (\<open>Workers\<close>), each interleaved as it pleases. Each
  part takes what the part before it has sent, and may have been stopped at any point; a task
  that has not yet received what was sent is a part stopped earlier.
\<close>

lemma mset_prefix: "Sublist.prefix xs ys \<Longrightarrow> mset xs \<subseteq># mset ys"
  by (auto simp: Sublist.prefix_def)

lemma submitted_received:
  assumes "reachable st env cfg (workers_start k xs s) w" and "delete_counter s = 0" and "length xs < 2 ^ 64"
  shows "mset (ws_submitted w) \<subseteq># mset xs"
    and "max_delete cfg = Some m \<Longrightarrow> length (ws_submitted w) \<le> unat m"
proof -
  obtain c where c: "workers_inv cfg xs c w"
    using reachable_inv [OF assms(1) start_inv [OF assms(2)] assms(3)] by blast
  then show "mset (ws_submitted w) \<subseteq># mset xs" unfolding workers_inv_def
    by (meson mset_subset_eq_add_left subset_mset.order_trans)
  from c show "length (ws_submitted w) \<le> unat m" if "max_delete cfg = Some m"
    using that by (simp add: workers_inv_def within_def)
qed


text \<open>
  The listing of the three prefixes, of which a stage selects one object; the only worker submits it.
\<close>

definition schedule_config :: config where
  "schedule_config = demo_config\<lparr> worker_size := 1, batch_size := 1, max_delete := Some 1,
     filter_config := filter_config_default\<lparr> include_regex := Some ''a/b/x'' \<rparr> \<rparr>"

abbreviation schedule_test :: "s3_object \<Rightarrow> bool result" where
  "schedule_test x \<equiv> is_match demo_libs x (filter_config schedule_config)"

lemma schedule_tasks:
  "network_tasks demo_libs schedule_config cb
     = [\<lparr> tk_pred = \<lambda>x. Ok True, tk_phase = Look \<rparr>, \<lparr> tk_pred = schedule_test, tk_phase = Look \<rparr>]"
  by (simp add: network_tasks_def filter_stages_def schedule_config_def demo_config_def
      filter_config_default_def filter_manager_new_def)

lemma schedule_network:
  "\<exists>nw. network_run 1 1 (replicate 3 (TaskStep 0) @ replicate 3 (TaskStep 1) @ [Take 0 Keep])
      (network_start demo_libs schedule_config cb (demo_listed [''a/b/x'', ''a/b/e/y'', ''a/b/y'', ''a/c/y'', ''a/d/y''])) = Some nw
     \<and> received nw (pool nw) = demo_listed [''a/b/x'']"
proof -
  have "schedule_test (NotVersioning \<lparr> ob_key = Some ''a/b/x'', ob_size = Some 1,
      ob_last_modified = Some (DateTime 0 0), ob_e_tag = None \<rparr>) = Ok True"
    by (simp add: is_match_def schedule_config_def demo_libs_def)
  moreover have "worker_size schedule_config = 1" by (simp add: schedule_config_def)
  ultimately show ?thesis
    by (simp add: network_eval schedule_tasks
        del: network_frames pool_simps phase_set_phase queue_put queue_take_first senders_gone_simps)
qed

lemma schedule_filters:
  "or_else (apply_head_object_filters st env schedule_config x) (apply_tag_filters st env schedule_config x) s
     = (Ok False, s)"
  by (simp add: or_else_def apply_head_object_filters_def apply_tag_filters_def Let_def needs_head_object_def
      needs_tagging_def schedule_config_def filter_config_default_def bind_def)

lemma schedule_submits:
  "ws_submitted (run_schedule branch_storage branch_env schedule_config [0, 0, 0, 0]
     (workers_start 1 (demo_listed [''a/b/x'']) (sys_new ()))) = demo_listed [''a/b/x'']"
proof -
  have "max_delete schedule_config = Some 1" "effective_batch_size schedule_config = 1"
    by (simp_all add: schedule_config_def effective_batch_size_def MAX_BATCH_SIZE_def)
  then show ?thesis
    by (simp add: workers_start_def worker_step_def receive_step_def quiet_select_cancelled [OF branch_quiet]
        set_sys_def set_worker_def filter_step_def schedule_filters check_step_def check_submits_def
        check_max_delete_def push_step_def push_submits_def submit_def submits_def branch_cancelled sys_new_def
        after_object_def split: prod.split outcome.split)
qed



definition full_config :: config where
  "full_config = schedule_config\<lparr> max_delete := None, dry_run := True \<rparr>"

text \<open>
  The tasks take the objects one by one to the end of the stages, where the worker keeps what
  it receives, and forwards it. The state between two objects:
\<close>

definition passing :: "(s3_object \<Rightarrow> bool result) \<Rightarrow> s3_object list \<Rightarrow> s3_object list \<Rightarrow> s3_object list \<Rightarrow> network" where
  "passing f xs ys zs =
     \<lparr> nw_tasks = [\<lparr> tk_pred = \<lambda>x. Ok True, tk_phase = Look \<rparr>, \<lparr> tk_pred = f, tk_phase = Look \<rparr>],
       nw_inboxes = [\<lparr> ib_queue = xs, ib_received = ys \<rparr>, \<lparr> ib_queue = [], ib_received = ys \<rparr>,
         \<lparr> ib_queue = [], ib_received = zs \<rparr>],
       nw_takers = [\<lparr> tr_phase = Collecting, tr_buffer = [] \<rparr>], nw_output = [], nw_cancelled = False \<rparr>"

definition passed_over :: "net_action list" where
  "passed_over = replicate 3 (TaskStep 0) @ replicate 2 (TaskStep 1)"

definition passed_on :: "net_action list" where
  "passed_on = replicate 3 (TaskStep 0) @ replicate 3 (TaskStep 1) @ [Take 0 Keep, Forward 0, Drain]"

definition closing_down :: "net_action list" where
  "closing_down = replicate 2 (TaskStep 0) @ replicate 2 (TaskStep 1) @ [CloseSeen 0]"

lemma run_passed_over:
  "f x = Ok False \<Longrightarrow> network_run 1 1 (passed_over @ as) (passing f (x # xs) ys zs)
     = network_run 1 1 as (passing f xs (ys @ [x]) zs)"
  by (simp add: network_eval passing_def passed_over_def
      del: network_frames pool_simps phase_set_phase queue_put queue_take_first senders_gone_simps)

lemma run_passed_on:
  "f x = Ok True \<Longrightarrow> network_run 1 1 (passed_on @ as) (passing f (x # xs) ys zs)
     = network_run 1 1 as (passing f xs (ys @ [x]) (zs @ [x]))"
  by (simp add: network_eval passing_def passed_on_def
      del: network_frames pool_simps phase_set_phase queue_put queue_take_first senders_gone_simps)

lemma run_closing_down:
  "\<exists>nw. network_run 1 1 closing_down (passing f [] ys zs) = Some nw
     \<and> network_ended nw \<and> \<not> nw_cancelled nw \<and> received nw (pool nw) = zs"
  by (simp add: network_eval passing_def closing_down_def network_ended_def All_less_Suc
      del: network_frames pool_simps phase_set_phase queue_put queue_take_first senders_gone_simps)

definition full_schedule :: "net_action list" where
  "full_schedule = passed_on @ passed_over @ passed_over @ passed_over @ passed_over @ closing_down"

lemma full_start:
  "network_start demo_libs full_config cb xs = passing schedule_test xs [] []"
  by (simp add: network_start_def network_tasks_def filter_stages_def schedule_config_def demo_config_def
      full_config_def filter_config_default_def filter_manager_new_def passing_def numeral_eq_Suc)

lemma full_network:
  "\<exists>nw. network_run 1 1 full_schedule
      (network_start demo_libs full_config cb (demo_listed [''a/b/x'', ''a/b/e/y'', ''a/b/y'', ''a/c/y'', ''a/d/y''])) = Some nw
     \<and> network_ended nw \<and> \<not> nw_cancelled nw \<and> received nw (pool nw) = demo_listed [''a/b/x'']"
proof -
  have test: "schedule_test (NotVersioning \<lparr> ob_key = Some k, ob_size = Some 1,
      ob_last_modified = Some (DateTime 0 0), ob_e_tag = None \<rparr>) = Ok (''a/b/x'' = k)" for k
    by (simp add: is_match_def schedule_config_def demo_libs_def)
  show ?thesis unfolding full_start full_schedule_def
    by (simp add: run_passed_on run_passed_over test run_closing_down del: One_nat_def)
qed

lemma full_filters:
  "or_else (apply_head_object_filters st env full_config x) (apply_tag_filters st env full_config x) s
     = (Ok False, s)"
  by (simp add: or_else_def apply_head_object_filters_def apply_tag_filters_def Let_def needs_head_object_def
      needs_tagging_def full_config_def schedule_config_def filter_config_default_def bind_def)

lemma full_buffer:
  assumes "wf_object x" and "\<not> cancelled s"
  shows "\<exists>s'. buffer_and_delete st branch_env full_config x [] s = (Ok [], s') \<and> \<not> cancelled s'"
proof -
  have "effective_batch_size full_config = 1" "dry_run full_config"
    by (simp_all add: full_config_def schedule_config_def effective_batch_size_def MAX_BATCH_SIZE_def)
  then show ?thesis
    using assms delete_batch_dry_run [OF branch_quiet, of full_config "[x]" st s]
    by (auto simp: buffer_and_delete_def delete_buffered_objects_def bind_def branch_cancelled Let_def seq_Ok)
qed

lemma full_worker:
  "let w = run_schedule branch_storage branch_env full_config [0, 0, 0, 0, 0]
       (workers_start 1 (demo_listed [''a/b/x'']) (sys_new ()))
   in ws_queue w = [] \<and> list_all (\<lambda>k. wk_phase k = Finished) (ws_workers w) \<and> \<not> cancelled (ws_sys w)"
proof -
  let ?x = "NotVersioning \<lparr> ob_key = Some ''a/b/x'', ob_size = Some 1,
      ob_last_modified = Some (DateTime 0 0), ob_e_tag = None \<rparr>"
  let ?s = "(sys_new ())\<lparr> delete_counter := 1 \<rparr>"
  obtain s' where b: "buffer_and_delete branch_storage branch_env full_config ?x [] ?s = (Ok [], s')" "\<not> cancelled s'"
    using full_buffer [of ?x ?s branch_storage] by (auto simp: wf_object_def sys_new_def)
  have "max_delete full_config = None"
    by (simp add: full_config_def schedule_config_def)
  then show ?thesis
    using b(2) by (simp add: b(1) [unfolded sys_new_def, simplified] workers_start_def worker_step_def receive_step_def
        quiet_select_cancelled [OF branch_quiet] set_sys_def set_worker_def filter_step_def full_filters
        check_step_def check_max_delete_def push_step_def submit_def submits_def branch_cancelled sys_new_def
        after_object_def delete_buffered_objects_def bind_def gets_def seq_def)
qed


end
