(* ===== verification/Test_Support.thy ===== *)
theory Test_Support
  imports Filters
begin

text \<open>
  What the repository's own tests share (\<open>src/test_utils.rs\<close> and the helpers of the test modules):
  the builders of the SDK, the canonical test configuration and test objects, the stage that
  \<open>create_base_helper\<close> builds, and the conversions the time tests go through.

  A test is a boolean definition over the model: it holds when every assertion of the test does and
  no call of it panics. A property test is a predicate of the values its strategies
  generate; the theorems prove it for all of them, where the test run samples a hundred.
\<close>

named_theorems test_defs \<open>definitions of tests and of what they build\<close>


fun is_err :: "('e, 'a) outcome \<Rightarrow> bool" where
  "is_err (Ok a) = False"
| "is_err (Err e) = True"
| "is_err (Panic m) = False"

text \<open>\<open>str::contains\<close> of a string, which the tests ask of messages.\<close>

fun contains :: "string \<Rightarrow> string \<Rightarrow> bool" where
  "contains [] p \<longleftrightarrow> p = []"
| "contains (c # s) p \<longleftrightarrow> starts_with (c # s) p \<or> contains s p"

lemma contains_iff: "contains s p \<longleftrightarrow> (\<exists>a b. s = a @ p @ b)"
proof (induction s)
  case (Cons c s)
  then show ?case
    by (auto simp: starts_with_iff Cons_eq_append_conv)
qed auto

lemma contains_append: "contains t p \<Longrightarrow> contains (s @ t) p" "contains s p \<Longrightarrow> contains (s @ t) p"
  unfolding contains_iff by (metis append_assoc)+


section \<open>Tables of unit tests\<close>

text \<open>Each test by its name, with what its assertion says.\<close>

type_synonym unit_tests = "(string \<times> bool) list"

abbreviation all_pass :: "unit_tests \<Rightarrow> bool" where
  "all_pass ts \<equiv> list_all snd ts"


section \<open>Builders\<close>

text \<open>The SDK's builders start with every field absent.\<close>

definition object_builder :: aws_object where
  [test_defs]: "object_builder =
     \<lparr> ob_key = None, ob_size = None, ob_last_modified = None, ob_e_tag = None \<rparr>"

definition version_builder :: aws_version where
  [test_defs]: "version_builder =
     \<lparr> ov_key = None, ov_version_id = None, ov_is_latest = None, ov_size = None,
       ov_last_modified = None, ov_e_tag = None \<rparr>"

definition marker_builder :: aws_marker where
  [test_defs]: "marker_builder =
     \<lparr> dm_key = None, dm_version_id = None, dm_is_latest = None, dm_last_modified = None \<rparr>"

abbreviation from_secs :: "int \<Rightarrow> datetime" where
  "from_secs n \<equiv> DateTime n 0"


section \<open>Configuration and objects\<close>

definition make_test_config :: config where
  "make_test_config =
     \<lparr> target = S3 ''test-bucket'' ''prefix/'',
       show_no_progress = False,
       target_client_config = None,
       force_retry_config =
         \<lparr> force_retry_count = 0, force_retry_interval_milliseconds = 0 \<rparr>,
       tracing_config = None,
       worker_size = 4,
       warn_as_error = False,
       dry_run = False,
       rate_limit_objects = None,
       max_parallel_listings = 1,
       object_listing_queue_size = 1000,
       max_parallel_listing_max_depth = 0,
       allow_parallel_listings_in_express_one_zone = False,
       filter_config = filter_config_default,
       max_keys = 1000,
       auto_complete_shell = None,
       event_callback_lua_script = None,
       filter_callback_lua_script = None,
       allow_lua_os_library = False,
       allow_lua_unsafe_vm = False,
       lua_vm_memory_limit = 0,
       lua_callback_timeout_milliseconds = 0,
       if_match = False,
       max_delete = None,
       filter_manager = filter_manager_new,
       event_manager = event_manager_new,
       batch_size = 1000,
       delete_all_versions = False,
       force = False,
       test_user_defined_callback = False \<rparr>"

definition create_test_config :: config where
  "create_test_config = make_test_config\<lparr> target := S3 ''test-bucket'' [], worker_size := 1 \<rparr>"

lemma create_test_config_simps [simp]:
  "event_manager create_test_config = event_manager_new"
  "filter_manager create_test_config = filter_manager_new"
  "filter_config create_test_config = filter_config_default"
  by (simp_all add: create_test_config_def make_test_config_def)

definition make_s3_object :: "string \<Rightarrow> i64 \<Rightarrow> s3_object" where
  "make_s3_object key sz = NotVersioning (object_builder
     \<lparr> ob_key := Some key, ob_size := Some sz, ob_last_modified := Some (from_secs 1000) \<rparr>)"

definition make_delete_marker :: "string \<Rightarrow> string \<Rightarrow> s3_object" where
  "make_delete_marker key vid = DeleteMarker (marker_builder
     \<lparr> dm_key := Some key, dm_version_id := Some vid, dm_is_latest := Some True,
       dm_last_modified := Some (from_secs 1000) \<rparr>)"

definition make_versioned_s3_object :: "string \<Rightarrow> string \<Rightarrow> i64 \<Rightarrow> s3_object" where
  "make_versioned_s3_object key vid sz = Versioning (version_builder
     \<lparr> ov_key := Some key, ov_version_id := Some vid, ov_size := Some sz,
       ov_is_latest := Some True, ov_last_modified := Some (from_secs 1000) \<rparr>)"

lemma wf_made_objects [simp]:
  "wf_object (make_s3_object key sz)" "wf_object (make_delete_marker key vid)"
  "wf_object (make_versioned_s3_object key vid sz)"
  by (simp_all add: wf_object_def make_s3_object_def make_delete_marker_def
      make_versioned_s3_object_def)


text \<open>Managers with and without a callback.\<close>

lemma em_registered [simp]:
  "em_callback_registered (em_register_callback fl dry em)"
  "em_event_flags (em_register_callback fl dry em) = fl"
  "em_dry_run (em_register_callback fl dry em) = dry"
  "\<not> em_callback_registered event_manager_new"
  by (simp_all add: em_register_callback_def event_manager_new_def)

lemma fm_registered [simp]:
  "fm_callback_registered (fm_register_callback fm)" "\<not> fm_callback_registered filter_manager_new"
  by (simp_all add: fm_register_callback_def filter_manager_new_def)


section \<open>The stage of the filter tests\<close>

text \<open>
  \<open>create_base_helper\<close>: nobody but the test holds the token and the receiving end, whose
  channel has room for the few objects of a test; the mock storage's statistics receiver is dropped
  at once.
\<close>

definition create_base_helper :: "'w env \<Rightarrow> 'w env" where
  "create_base_helper env = env
     \<lparr> env_cancel := \<lambda>w. (False, w), env_select := \<lambda>w. (False, w), env_send := \<lambda>_. Accepts \<rparr>"

definition base_state :: "'w \<Rightarrow> 'w sys" where
  "base_state w = (sys_new w)\<lparr> stats_closed := True \<rparr>"

lemma quiet_base [simp]: "quiet (create_base_helper env)"
  by (simp add: quiet_def create_base_helper_def)

lemma base_state_simps [simp]:
  "\<not> cancelled (base_state w)" "sent (base_state w) = []" "events (base_state w) = []"
  "stats_closed (base_state w)" "world (base_state w) = w"
  by (simp_all add: base_state_def sys_new_def)

lemmas base_runs [simp] =
  quiet_is_cancelled [OF quiet_base] quiet_select_cancelled [OF quiet_base]
  quiet_stage_send [OF quiet_base]

end
