(* ===== verification/Filter_Tests.thy ===== *)
theory Filter_Tests
  imports Test_Support
begin

text \<open>
  The tests of the object filters: the property tests of \<open>src/property_tests/\<close>
  (\<open>filter_properties.rs\<close>, \<open>keep_latest_only_properties.rs\<close>), the unit tests of the predicates
  and of the stage loops in \<open>src/filters/\<close>. The regular expressions and the conversions of
  instants are those of \<open>libs\<close>, with the documented behaviour the tests rely on as hypotheses.
\<close>

section \<open>Objects of the property tests\<close>

definition arbitrary_s3_object_with_key :: "string \<Rightarrow> s3_object" where
  [test_defs]: "arbitrary_s3_object_with_key key = NotVersioning (object_builder
     \<lparr> ob_key := Some key, ob_size := Some 100, ob_last_modified := Some (from_secs 1000) \<rparr>)"

definition arbitrary_s3_object_with_size :: "i64 \<Rightarrow> s3_object" where
  [test_defs]: "arbitrary_s3_object_with_size sz = NotVersioning (object_builder
     \<lparr> ob_key := Some ''test-key'', ob_size := Some sz,
       ob_last_modified := Some (from_secs 1000) \<rparr>)"

text \<open>\<open>from_millis\<close> is the SDK's \<open>DateTime::from_millis\<close>.\<close>

definition arbitrary_s3_object_with_mtime :: "(i64 \<Rightarrow> datetime) \<Rightarrow> i64 \<Rightarrow> s3_object" where
  [test_defs]: "arbitrary_s3_object_with_mtime from_millis epoch_millis =
     NotVersioning (object_builder
     \<lparr> ob_key := Some ''test-key'', ob_size := Some 100,
       ob_last_modified := Some (from_millis epoch_millis) \<rparr>)"

lemma wf_arbitrary [simp]:
  "wf_object (arbitrary_s3_object_with_key key)" "wf_object (arbitrary_s3_object_with_size sz)"
  "wf_object (arbitrary_s3_object_with_mtime fm t)"
  by (simp_all add: wf_object_def test_defs)

lemma arbitrary_fields [simp]:
  "key_of (arbitrary_s3_object_with_key key) = key"
  "size_of (arbitrary_s3_object_with_size sz) = sz"
  "mtime_of (arbitrary_s3_object_with_mtime fm t) = fm t"
  "\<not> s3_is_delete_marker (arbitrary_s3_object_with_size sz)"
  by (simp_all add: key_of_def size_of_def mtime_of_def test_defs)


section \<open>Property 8: regular expressions\<close>

definition csv_pattern :: regex where
  "csv_pattern = ''.*'' @ [CHR 0x5C] @ ''.csv$''"

definition tmp_pattern :: regex where
  "tmp_pattern = ''.*'' @ [CHR 0x5C] @ ''.tmp$''"

definition test_include_regex_filtering :: "libs \<Rightarrow> string list \<Rightarrow> bool" where
  "test_include_regex_filtering lib keys =
     (let fc = filter_config_default\<lparr> include_regex := Some csv_pattern \<rparr> in
      list_all (\<lambda>key.
        let x = arbitrary_s3_object_with_key key;
            expected = ends_with key ''.csv''
        in is_match lib x fc = Ok expected) keys)"

definition test_exclude_regex_filtering :: "libs \<Rightarrow> string list \<Rightarrow> bool" where
  "test_exclude_regex_filtering lib keys =
     (let fc = filter_config_default\<lparr> exclude_regex := Some tmp_pattern \<rparr> in
      list_all (\<lambda>key.
        let x = arbitrary_s3_object_with_key key;
            expected = (\<not> ends_with key ''.tmp'')
        in is_not_match lib x fc = Ok expected) keys)"

definition test_regex_and_logic :: "libs \<Rightarrow> string list \<Rightarrow> bool" where
  "test_regex_and_logic lib keys =
     (let include_pattern = csv_pattern;
          exclude_pattern = ''^temp/.*'';
          include_config = filter_config_default\<lparr> include_regex := Some include_pattern \<rparr>;
          exclude_config = filter_config_default\<lparr> exclude_regex := Some exclude_pattern \<rparr> in
      list_all (\<lambda>key.
        let x = arbitrary_s3_object_with_key key in
        case (is_match lib x include_config, is_not_match lib x exclude_config,
              regex_is_match lib include_pattern key, regex_is_match lib exclude_pattern key) of
          (Ok pass_include, Ok pass_exclude, Inr matches_include, Inr matches_exclude) \<Rightarrow>
            (pass_include \<and> pass_exclude) = (matches_include \<and> \<not> matches_exclude)
        | _ \<Rightarrow> False) keys)"


section \<open>Property 9: sizes\<close>

definition i64_max :: i64 where
  "i64_max = 0x7FFFFFFFFFFFFFFF"

definition saturating_add :: "u64 \<Rightarrow> u64 \<Rightarrow> u64" where
  "saturating_add a b = (if a + b < a then - 1 else a + b)"

definition test_larger_size_filtering :: "libs \<Rightarrow> i64 list \<Rightarrow> u64 \<Rightarrow> bool" where
  "test_larger_size_filtering lib sizes threshold =
     (let fc = filter_config_default\<lparr> larger_size := Some threshold \<rparr> in
      list_all (\<lambda>sz.
        let x = arbitrary_s3_object_with_size sz; expected = (threshold \<le> sz)
        in is_larger_or_equal lib x fc = Ok expected) sizes)"

definition test_smaller_size_filtering :: "libs \<Rightarrow> i64 list \<Rightarrow> u64 \<Rightarrow> bool" where
  "test_smaller_size_filtering lib sizes threshold =
     (let fc = filter_config_default\<lparr> smaller_size := Some threshold \<rparr> in
      list_all (\<lambda>sz.
        let x = arbitrary_s3_object_with_size sz; expected = (sz < threshold)
        in is_smaller lib x fc = Ok expected) sizes)"

definition test_size_range_filtering :: "libs \<Rightarrow> i64 list \<Rightarrow> u64 \<Rightarrow> u64 \<Rightarrow> bool" where
  "test_size_range_filtering lib sizes min_size max_offset =
     (let max_size = min_size + max_offset;
          larger_config = filter_config_default\<lparr> larger_size := Some min_size \<rparr>;
          smaller_config = filter_config_default\<lparr> smaller_size := Some max_size \<rparr> in
      list_all (\<lambda>sz.
        let x = arbitrary_s3_object_with_size sz in
        case (is_larger_or_equal lib x larger_config, is_smaller lib x smaller_config) of
          (Ok pass_larger, Ok pass_smaller) \<Rightarrow>
            (pass_larger \<and> pass_smaller) = (min_size \<le> sz \<and> sz < max_size)
        | _ \<Rightarrow> False) sizes)"

definition test_negative_size_always_filtered :: "libs \<Rightarrow> i64 \<Rightarrow> u64 \<Rightarrow> bool" where
  "test_negative_size_always_filtered lib sz threshold =
     (let x = arbitrary_s3_object_with_size sz;
          larger_config = filter_config_default\<lparr> larger_size := Some threshold \<rparr>;
          smaller_config =
            filter_config_default\<lparr> smaller_size := Some (saturating_add threshold 1) \<rparr> in
      is_larger_or_equal lib x larger_config = Ok False
      \<and> is_smaller lib x smaller_config = Ok False)"

definition test_threshold_above_i64_max_larger_filter :: "libs \<Rightarrow> i64 \<Rightarrow> u64 \<Rightarrow> bool" where
  "test_threshold_above_i64_max_larger_filter lib sz offset =
     (let threshold = saturating_add i64_max offset;
          x = arbitrary_s3_object_with_size sz;
          fc = filter_config_default\<lparr> larger_size := Some threshold \<rparr> in
      is_larger_or_equal lib x fc = Ok False)"

definition test_threshold_above_i64_max_smaller_filter :: "libs \<Rightarrow> i64 \<Rightarrow> u64 \<Rightarrow> bool" where
  "test_threshold_above_i64_max_smaller_filter lib sz offset =
     (let threshold = saturating_add i64_max offset;
          x = arbitrary_s3_object_with_size sz;
          fc = filter_config_default\<lparr> smaller_size := Some threshold \<rparr> in
      is_smaller lib x fc = Ok True)"

definition test_delete_markers_filtered_out_by_size_filters :: "libs \<Rightarrow> u64 \<Rightarrow> bool" where
  "test_delete_markers_filtered_out_by_size_filters lib threshold =
     (let delete_marker = DeleteMarker (marker_builder\<lparr> dm_key := Some ''test'' \<rparr>);
          larger_config = filter_config_default\<lparr> larger_size := Some threshold \<rparr>;
          smaller_config = filter_config_default\<lparr> smaller_size := Some threshold \<rparr> in
      is_larger_or_equal lib delete_marker larger_config = Ok False
      \<and> is_smaller lib delete_marker smaller_config = Ok False)"


section \<open>Property 10: times\<close>

text \<open>
  \<open>from_timestamp_millis\<close> is chrono's \<open>DateTime::from_timestamp_millis\<close>; the tests \<open>unwrap\<close> what it
  returns. They compare instants of chrono.
\<close>

definition test_mtime_before_filtering ::
  "libs \<Rightarrow> (i64 \<Rightarrow> datetime) \<Rightarrow> (i64 \<Rightarrow> chrono option) \<Rightarrow> i64 \<Rightarrow> i64 \<Rightarrow> bool" where
  "test_mtime_before_filtering lib from_millis from_timestamp_millis object_millis threshold_millis =
     (let x = arbitrary_s3_object_with_mtime from_millis object_millis in
      case (from_timestamp_millis threshold_millis, from_timestamp_millis object_millis) of
        (Some threshold_chrono, Some object_chrono) \<Rightarrow>
          is_before lib x (filter_config_default\<lparr> before_time := Some threshold_chrono \<rparr>)
            = Ok (object_chrono < threshold_chrono)
      | _ \<Rightarrow> False)"

definition test_mtime_after_filtering ::
  "libs \<Rightarrow> (i64 \<Rightarrow> datetime) \<Rightarrow> (i64 \<Rightarrow> chrono option) \<Rightarrow> i64 \<Rightarrow> i64 \<Rightarrow> bool" where
  "test_mtime_after_filtering lib from_millis from_timestamp_millis object_millis threshold_millis =
     (let x = arbitrary_s3_object_with_mtime from_millis object_millis in
      case (from_timestamp_millis threshold_millis, from_timestamp_millis object_millis) of
        (Some threshold_chrono, Some object_chrono) \<Rightarrow>
          is_after_or_equal lib x (filter_config_default\<lparr> after_time := Some threshold_chrono \<rparr>)
            = Ok (threshold_chrono \<le> object_chrono)
      | _ \<Rightarrow> False)"

definition test_time_range_filtering ::
  "libs \<Rightarrow> (i64 \<Rightarrow> datetime) \<Rightarrow> (i64 \<Rightarrow> chrono option) \<Rightarrow> i64 \<Rightarrow> i64 \<Rightarrow> i64 \<Rightarrow> bool" where
  "test_time_range_filtering lib from_millis from_timestamp_millis
       object_millis start_millis range_millis =
     (let end_millis = start_millis + range_millis;
          x = arbitrary_s3_object_with_mtime from_millis object_millis in
      case (from_timestamp_millis start_millis, from_timestamp_millis end_millis,
            from_timestamp_millis object_millis) of
        (Some start_chrono, Some end_chrono, Some object_chrono) \<Rightarrow>
          (case (is_after_or_equal lib x (filter_config_default\<lparr> after_time := Some start_chrono \<rparr>),
                 is_before lib x (filter_config_default\<lparr> before_time := Some end_chrono \<rparr>)) of
             (Ok pass_after, Ok pass_before) \<Rightarrow>
               (pass_after \<and> pass_before)
                 = (start_chrono \<le> object_chrono \<and> object_chrono < end_chrono)
           | _ \<Rightarrow> False)
      | _ \<Rightarrow> False)"


section \<open>They hold for every generated input\<close>

text \<open>What the documentation of the regular expressions says of the three patterns.\<close>

definition pattern_libs :: "libs \<Rightarrow> bool" where
  "pattern_libs lib \<longleftrightarrow>
     (\<forall>key. regex_is_match lib csv_pattern key = Inr (ends_with key ''.csv''))
     \<and> (\<forall>key. regex_is_match lib tmp_pattern key = Inr (ends_with key ''.tmp''))
     \<and> (\<forall>key. regex_is_match lib ''^temp/.*'' key = Inr (starts_with key ''temp/''))"

text \<open>
  On the years of the generators the SDK and chrono convert milliseconds without loss, to instants
  that both agree on.
\<close>

definition time_libs :: "libs \<Rightarrow> (i64 \<Rightarrow> datetime) \<Rightarrow> (i64 \<Rightarrow> chrono option) \<Rightarrow> bool" where
  "time_libs lib from_millis from_timestamp_millis \<longleftrightarrow>
     (\<forall>m. 946684800000 \<le> sint m \<longrightarrow> sint m < 1900000000000 \<longrightarrow>
        dt_to_millis lib (from_millis m) = Inr m
        \<and> (\<exists>t. millis_to_chrono lib m = Inr t \<and> from_timestamp_millis m = Some t))"

lemma regex_property_tests:
  assumes "pattern_libs lib"
  shows "test_include_regex_filtering lib keys" "test_exclude_regex_filtering lib keys"
    "test_regex_and_logic lib keys"
  using assms
  by (simp_all add: pattern_libs_def test_include_regex_filtering_def
      test_exclude_regex_filtering_def test_regex_and_logic_def list_all_iff
      include_re.pred_wf exclude_re.pred_wf passes_include_def passes_exclude_def Let_def)

lemma size_property_tests:
  assumes "list_all (\<lambda>sz. 0 \<le> sint sz) sizes"
  shows "test_larger_size_filtering lib sizes threshold"
    "test_smaller_size_filtering lib sizes threshold"
    "test_size_range_filtering lib sizes min_size max_offset"
  using assms
  by (auto simp: test_larger_size_filtering_def test_smaller_size_filtering_def
      test_size_range_filtering_def list_all_iff larger.pred_wf smaller.pred_wf
      passes_larger_def passes_smaller_def word_le_def word_less_def Let_def)

lemma negative_size_property_test:
  "sint sz < 0 \<Longrightarrow> test_negative_size_always_filtered lib sz threshold"
  by (simp add: test_negative_size_always_filtered_def larger.pred_wf smaller.pred_wf
      passes_larger_def passes_smaller_def)

lemma i64_max_least: "0 \<le> sint (sz :: i64) \<longleftrightarrow> sz \<le> i64_max"
proof -
  have "0 \<le> sint sz \<longleftrightarrow> even (uint sz div 2 ^ 63)"
    by (simp add: sint_uint bit_iff_odd)
  also have "\<dots> \<longleftrightarrow> uint sz < 2 ^ 63"
  proof (cases "uint sz < 2 ^ 63")
    case False
    then have "uint sz div 2 ^ 63 = 1"
      using uint_lt2p [of sz] by (intro int_div_pos_eq [of _ _ _ "uint sz - 2 ^ 63"]) simp_all
    with False show ?thesis by simp
  qed (simp add: div_pos_pos_trivial)
  finally show ?thesis by (auto simp: word_le_def i64_max_def)
qed

lemma above_i64_max:
  assumes "0 < offset" and "offset < 1000"
  shows "i64_max < saturating_add i64_max offset"
proof -
  have "uint (i64_max + offset) = uint i64_max + uint offset"
    using assms by (simp add: uint_plus_if' i64_max_def word_less_def)
  then show ?thesis
    using assms by (simp add: saturating_add_def word_less_def)
qed

lemma threshold_property_tests:
  assumes "0 \<le> sint sz" and "0 < offset" and "offset < 1000"
  shows "test_threshold_above_i64_max_larger_filter lib sz offset"
    "test_threshold_above_i64_max_smaller_filter lib sz offset"
  using assms above_i64_max [OF assms(2,3)]
  by (auto simp: test_threshold_above_i64_max_larger_filter_def
      test_threshold_above_i64_max_smaller_filter_def larger.pred_wf smaller.pred_wf
      passes_larger_def passes_smaller_def Let_def i64_max_least
      word_le_def word_less_def)

lemma marker_property_test: "test_delete_markers_filtered_out_by_size_filters lib threshold"
  by (simp add: test_delete_markers_filtered_out_by_size_filters_def is_larger_or_equal_def
      is_smaller_def)

lemma time_property_tests:
  assumes "time_libs lib fm ft"
    and "946684800000 \<le> sint object_millis" and "sint object_millis < 1893456000000"
  shows "946684800000 \<le> sint threshold_millis \<Longrightarrow> sint threshold_millis < 1893456000000 \<Longrightarrow>
      test_mtime_before_filtering lib fm ft object_millis threshold_millis
      \<and> test_mtime_after_filtering lib fm ft object_millis threshold_millis"
    and "946684800000 \<le> sint start_millis \<Longrightarrow> sint start_millis < 1400000000000 \<Longrightarrow>
      1000 \<le> sint range_millis \<Longrightarrow> sint range_millis < 500000000000 \<Longrightarrow>
      test_time_range_filtering lib fm ft object_millis start_millis range_millis"
proof -
  note conv = assms(1) [unfolded time_libs_def, rule_format]
  obtain t where t: "dt_to_millis lib (fm object_millis) = Inr object_millis"
    "millis_to_chrono lib object_millis = Inr t" "ft object_millis = Some t"
    using conv [OF assms(2)] assms(3) by auto
  { assume b: "946684800000 \<le> sint threshold_millis" "sint threshold_millis < 1893456000000"
    obtain u where "ft threshold_millis = Some u" using conv [OF b(1)] b(2) by auto
    with t show "test_mtime_before_filtering lib fm ft object_millis threshold_millis
      \<and> test_mtime_after_filtering lib fm ft object_millis threshold_millis"
      by (auto simp: test_mtime_before_filtering_def test_mtime_after_filtering_def
          mtime_before.pred_wf mtime_after.pred_wf passes_before_def passes_after_def chrono_of_def) }
  { assume b: "946684800000 \<le> sint start_millis" "sint start_millis < 1400000000000"
      "1000 \<le> sint range_millis" "sint range_millis < 500000000000"
    have e: "sint (start_millis + range_millis) = sint start_millis + sint range_millis"
      using b by (simp add: sint_word_ariths signed_take_bit_int_eq_self)
    obtain u where u: "ft start_millis = Some u" using conv [OF b(1)] b(2) by auto
    obtain v where "ft (start_millis + range_millis) = Some v"
      using conv [of "start_millis + range_millis"] b e by auto
    with t u show "test_time_range_filtering lib fm ft object_millis start_millis range_millis"
      by (simp add: test_time_range_filtering_def Let_def
          mtime_before.pred_wf mtime_after.pred_wf passes_before_def passes_after_def chrono_of_def) }
qed


section \<open>The property tests of the keep-latest-only filter\<close>

definition arbitrary_versioned_object :: "string \<Rightarrow> string \<Rightarrow> bool \<Rightarrow> s3_object" where
  [test_defs]: "arbitrary_versioned_object key vid is_latest = Versioning (version_builder
     \<lparr> ov_key := Some key, ov_version_id := Some vid, ov_is_latest := Some is_latest,
       ov_size := Some 100, ov_last_modified := Some (from_secs 1700000000) \<rparr>)"

definition arbitrary_delete_marker :: "string \<Rightarrow> string \<Rightarrow> bool \<Rightarrow> s3_object" where
  [test_defs]: "arbitrary_delete_marker key vid is_latest = DeleteMarker (marker_builder
     \<lparr> dm_key := Some key, dm_version_id := Some vid, dm_is_latest := Some is_latest \<rparr>)"

definition arbitrary_versioned_object_none_is_latest :: "string \<Rightarrow> string \<Rightarrow> s3_object" where
  [test_defs]: "arbitrary_versioned_object_none_is_latest key vid = Versioning (version_builder
     \<lparr> ov_key := Some key, ov_version_id := Some vid, ov_size := Some 100,
       ov_last_modified := Some (from_secs 1700000000) \<rparr>)"

definition arbitrary_delete_marker_none_is_latest :: "string \<Rightarrow> string \<Rightarrow> s3_object" where
  [test_defs]: "arbitrary_delete_marker_none_is_latest key vid = DeleteMarker (marker_builder
     \<lparr> dm_key := Some key, dm_version_id := Some vid \<rparr>)"

definition arbitrary_non_versioned_object :: "string \<Rightarrow> s3_object" where
  [test_defs]: "arbitrary_non_versioned_object key = NotVersioning (object_builder
     \<lparr> ob_key := Some key, ob_size := Some 100,
       ob_last_modified := Some (from_secs 1700000000) \<rparr>)"

definition keep_latest_only_config :: filter_config where
  "keep_latest_only_config = filter_config_default\<lparr> keep_latest_only := True \<rparr>"

definition latest_versioned_objects_are_always_filtered_out ::
  "libs \<Rightarrow> string \<Rightarrow> string \<Rightarrow> bool" where
  [test_defs]: "latest_versioned_objects_are_always_filtered_out lib key vid \<longleftrightarrow>
     is_not_latest lib (arbitrary_versioned_object key vid True) keep_latest_only_config = Ok False"

definition non_latest_versioned_objects_always_pass_through ::
  "libs \<Rightarrow> string \<Rightarrow> string \<Rightarrow> bool" where
  [test_defs]: "non_latest_versioned_objects_always_pass_through lib key vid \<longleftrightarrow>
     is_not_latest lib (arbitrary_versioned_object key vid False) keep_latest_only_config = Ok True"

definition latest_delete_markers_are_always_filtered_out ::
  "libs \<Rightarrow> string \<Rightarrow> string \<Rightarrow> bool" where
  [test_defs]: "latest_delete_markers_are_always_filtered_out lib key vid \<longleftrightarrow>
     is_not_latest lib (arbitrary_delete_marker key vid True) keep_latest_only_config = Ok False"

definition non_latest_delete_markers_always_pass_through ::
  "libs \<Rightarrow> string \<Rightarrow> string \<Rightarrow> bool" where
  [test_defs]: "non_latest_delete_markers_always_pass_through lib key vid \<longleftrightarrow>
     is_not_latest lib (arbitrary_delete_marker key vid False) keep_latest_only_config = Ok True"

definition non_versioned_objects_are_always_filtered_out :: "libs \<Rightarrow> string \<Rightarrow> bool" where
  [test_defs]: "non_versioned_objects_are_always_filtered_out lib key \<longleftrightarrow>
     is_not_latest lib (arbitrary_non_versioned_object key) keep_latest_only_config = Ok False"

definition versioned_objects_with_none_is_latest_are_always_kept ::
  "libs \<Rightarrow> string \<Rightarrow> string \<Rightarrow> bool" where
  [test_defs]: "versioned_objects_with_none_is_latest_are_always_kept lib key vid \<longleftrightarrow>
     is_not_latest lib (arbitrary_versioned_object_none_is_latest key vid)
       keep_latest_only_config = Ok False"

definition delete_markers_with_none_is_latest_are_always_kept ::
  "libs \<Rightarrow> string \<Rightarrow> string \<Rightarrow> bool" where
  [test_defs]: "delete_markers_with_none_is_latest_are_always_kept lib key vid \<longleftrightarrow>
     is_not_latest lib (arbitrary_delete_marker_none_is_latest key vid)
       keep_latest_only_config = Ok False"

definition filter_depends_only_on_is_latest_not_key ::
  "libs \<Rightarrow> string \<Rightarrow> string \<Rightarrow> bool \<Rightarrow> bool" where
  [test_defs]: "filter_depends_only_on_is_latest_not_key lib key vid is_latest \<longleftrightarrow>
     is_not_latest lib (arbitrary_versioned_object key vid is_latest) keep_latest_only_config
       = Ok (\<not> is_latest)"

definition explicitly_not_latest :: "s3_object \<Rightarrow> bool" where
  [test_defs]: "explicitly_not_latest x = (case x of
       Versioning v \<Rightarrow> ov_is_latest v = Some False
     | DeleteMarker m \<Rightarrow> dm_is_latest m = Some False
     | NotVersioning _ \<Rightarrow> False)"

definition mixed_variants_are_correctly_partitioned ::
  "libs \<Rightarrow> string \<Rightarrow> string \<Rightarrow> bool \<Rightarrow> bool" where
  [test_defs]: "mixed_variants_are_correctly_partitioned lib key vid is_latest =
     (let xs = [arbitrary_versioned_object key vid is_latest,
                arbitrary_delete_marker key vid is_latest,
                arbitrary_non_versioned_object key,
                arbitrary_versioned_object_none_is_latest key vid,
                arbitrary_delete_marker_none_is_latest key vid] in
      list_all (\<lambda>x. is_not_latest lib x keep_latest_only_config = Ok (explicitly_not_latest x)) xs)"

text \<open>On every object, not only on the five variants of the last test:\<close>

lemma is_not_latest_explicit: "is_not_latest lib x fc = Ok (explicitly_not_latest x)"
  by (cases x) (auto simp: is_not_latest_def explicitly_not_latest_def unwrap_or_def
      split: option.splits)

lemma keep_latest_only_property_tests:
  "latest_versioned_objects_are_always_filtered_out lib key vid"
  "non_latest_versioned_objects_always_pass_through lib key vid"
  "latest_delete_markers_are_always_filtered_out lib key vid"
  "non_latest_delete_markers_always_pass_through lib key vid"
  "non_versioned_objects_are_always_filtered_out lib key"
  "versioned_objects_with_none_is_latest_are_always_kept lib key vid"
  "delete_markers_with_none_is_latest_are_always_kept lib key vid"
  "filter_depends_only_on_is_latest_not_key lib key vid is_latest"
  "mixed_variants_are_correctly_partitioned lib key vid is_latest"
  by (simp_all add: is_not_latest_explicit test_defs)


section \<open>The unit tests of the predicates\<close>

text \<open>A table per test module, in the order of its tests.\<close>

definition larger_size_tests :: "libs \<Rightarrow> unit_tests" where
  [test_defs]: "larger_size_tests lib =
     (let sized = (\<lambda>n. NotVersioning (object_builder\<lparr> ob_size := Some n \<rparr>));
          named = (\<lambda>n. NotVersioning (object_builder\<lparr> ob_key := Some ''test'', ob_size := Some n \<rparr>));
          marker = DeleteMarker (marker_builder\<lparr> dm_key := Some ''test'' \<rparr>);
          limit = (\<lambda>n. filter_config_default\<lparr> larger_size := n \<rparr>);
          f = is_larger_or_equal lib in
      [(''larger'', f (sized 6) (limit (Some 5)) = Ok True),
       (''smaller'', f (named 4) (limit (Some 5)) = Ok False),
       (''equal'', f (sized 4) (limit (Some 4)) = Ok True),
       (''delete_marker'', f marker (limit (Some 4)) = Ok False),
       (''none_config_returns_false'', f (named 100) (limit None) = Ok False),
       (''negative_size_returns_false'', f (named (- 1)) (limit (Some 0)) = Ok False),
       (''zero_size_is_larger_or_equal_to_zero_threshold'', f (named 0) (limit (Some 0)) = Ok True),
       (''zero_size_not_larger_than_one'', f (named 0) (limit (Some 1)) = Ok False),
       (''large_threshold_above_i64_max'',
          f (named i64_max) (limit (Some (i64_max + 1))) = Ok False),
       (''threshold_at_i64_max'', f (named i64_max) (limit (Some i64_max)) = Ok True),
       (''threshold_at_u64_max'', f (named i64_max) (limit (Some (- 1))) = Ok False),
       (''size_one_below_threshold'', f (named 99) (limit (Some 100)) = Ok False),
       (''size_one_above_threshold'', f (named 101) (limit (Some 100)) = Ok True)])"

definition smaller_size_tests :: "libs \<Rightarrow> unit_tests" where
  [test_defs]: "smaller_size_tests lib =
     (let sized = (\<lambda>n. NotVersioning (object_builder\<lparr> ob_size := Some n \<rparr>));
          named = (\<lambda>n. NotVersioning (object_builder\<lparr> ob_key := Some ''test'', ob_size := Some n \<rparr>));
          marker = DeleteMarker (marker_builder\<lparr> dm_key := Some ''test'' \<rparr>);
          limit = (\<lambda>n. filter_config_default\<lparr> smaller_size := n \<rparr>);
          f = is_smaller lib in
      [(''larger'', f (named 6) (limit (Some 5)) = Ok False),
       (''smaller'', f (sized 4) (limit (Some 5)) = Ok True),
       (''equal'', f (named 5) (limit (Some 5)) = Ok False),
       (''delete_marker'', f marker (limit (Some 5)) = Ok False),
       (''none_config_returns_false'', f (named 1) (limit None) = Ok False),
       (''negative_size_returns_false'', f (named (- 1)) (limit (Some 100)) = Ok False),
       (''zero_size_smaller_than_threshold'', f (named 0) (limit (Some 1)) = Ok True),
       (''zero_size_not_smaller_than_zero_threshold'', f (named 0) (limit (Some 0)) = Ok False),
       (''large_threshold_above_i64_max'',
          f (named i64_max) (limit (Some (i64_max + 1))) = Ok True),
       (''threshold_at_i64_max'', f (named i64_max) (limit (Some i64_max)) = Ok False),
       (''threshold_at_u64_max'', f (named i64_max) (limit (Some (- 1))) = Ok True),
       (''size_one_below_threshold'', f (named 99) (limit (Some 100)) = Ok True),
       (''size_one_above_threshold'', f (named 101) (limit (Some 100)) = Ok False)])"

lemma size_unit_tests: "all_pass (larger_size_tests lib)" "all_pass (smaller_size_tests lib)"
  by (simp_all add: test_defs Let_def is_larger_or_equal_def is_smaller_def i64_max_def
      word_order.extremum_unique)

definition keep_latest_only_tests :: "libs \<Rightarrow> unit_tests" where
  [test_defs]: "keep_latest_only_tests lib =
     (let fc = filter_config_default\<lparr> keep_latest_only := True \<rparr>;
          version = (\<lambda>v l. Versioning (version_builder
            \<lparr> ov_key := Some ''test-key'', ov_version_id := Some v, ov_is_latest := l \<rparr>));
          marker = (\<lambda>v l. DeleteMarker (marker_builder
            \<lparr> dm_key := Some ''test-key'', dm_version_id := Some v, dm_is_latest := l \<rparr>));
          plain = NotVersioning (object_builder\<lparr> ob_key := Some ''test-key'' \<rparr>);
          f = is_not_latest lib in
      [(''latest_version_is_filtered_out'', f (version ''v1'' (Some True)) fc = Ok False),
       (''non_latest_version_passes_through'', f (version ''v2'' (Some False)) fc = Ok True),
       (''latest_delete_marker_is_filtered_out'', f (marker ''dm1'' (Some True)) fc = Ok False),
       (''non_latest_delete_marker_passes_through'', f (marker ''dm2'' (Some False)) fc = Ok True),
       (''non_versioned_object_is_filtered_out'', f plain fc = Ok False),
       (''versioned_object_with_none_is_latest_is_filtered_out'',
          f (version ''v-none'' None) fc = Ok False),
       (''delete_marker_with_none_is_latest_is_filtered_out'',
          f (marker ''dm-none'' None) fc = Ok False)])"

definition delete_marker_only_tests :: "libs \<Rightarrow> unit_tests" where
  [test_defs]: "delete_marker_only_tests lib =
     (let fc = filter_config_default\<lparr> delete_marker_only := True \<rparr>;
          extras = filter_config_default
            \<lparr> delete_marker_only := False, keep_latest_only := True, larger_size := Some 999 \<rparr>;
          version = (\<lambda>k v l. Versioning (version_builder
            \<lparr> ov_key := Some k, ov_version_id := Some v, ov_is_latest := l \<rparr>));
          marker = (\<lambda>k v l. DeleteMarker (marker_builder
            \<lparr> dm_key := Some k, dm_version_id := v, dm_is_latest := l \<rparr>));
          plain = (\<lambda>n. NotVersioning (object_builder\<lparr> ob_key := Some ''test-key'', ob_size := n \<rparr>));
          f = is_delete_marker lib in
      [(''latest_delete_marker_passes_through'',
          f (marker ''test-key'' (Some ''dm1'') (Some True)) fc = Ok True),
       (''non_latest_delete_marker_passes_through'',
          f (marker ''test-key'' (Some ''dm2'') (Some False)) fc = Ok True),
       (''delete_marker_with_none_is_latest_passes_through'',
          f (marker ''test-key'' (Some ''dm-none'') None) fc = Ok True),
       (''delete_marker_without_version_id_passes_through'',
          f (marker ''test-key'' None None) filter_config_default = Ok True),
       (''delete_marker_with_empty_key_passes_through'',
          f (marker [] (Some ''dm-empty'') None) filter_config_default = Ok True),
       (''latest_versioned_object_is_filtered_out'',
          f (version ''test-key'' ''v1'' (Some True)) fc = Ok False),
       (''non_latest_versioned_object_is_filtered_out'',
          f (version ''test-key'' ''v2'' (Some False)) fc = Ok False),
       (''versioned_object_with_none_is_latest_is_filtered_out'',
          f (version ''test-key'' ''v-none'' None) filter_config_default = Ok False),
       (''non_versioned_object_is_filtered_out'', f (plain None) fc = Ok False),
       (''non_versioned_object_with_size_is_filtered_out'',
          f (plain (Some 1024)) filter_config_default = Ok False),
       (''filter_ignores_config_fields'',
          f (marker ''k'' (Some ''dm'') None) extras = Ok True
          \<and> f (version ''k'' ''v'' None) extras = Ok False)])"

lemma version_unit_tests:
  "all_pass (keep_latest_only_tests lib)" "all_pass (delete_marker_only_tests lib)"
  by (simp_all add: test_defs Let_def is_not_latest_def is_delete_marker_def unwrap_or_def)


section \<open>The stage tests\<close>

text \<open>
  Each runs the stage on a list of objects after which the input is closed, in the stage of
  \<open>create_base_helper\<close> over any environment: the next stage received \<open>sent\<close>, and a stage that returns
  an error or panics fails the test that unwraps its result.
\<close>

definition next_stage_keys :: "'w sys \<Rightarrow> string result list" where
  "next_stage_keys s = map s3_key (sent s)"

definition filter_true_passes_object :: "'w env \<Rightarrow> 'w \<Rightarrow> bool" where
  [test_defs]: "filter_true_passes_object env w =
     (let x = NotVersioning (object_builder\<lparr> ob_key := Some ''test'' \<rparr>);
          (r, s) = receive_and_filter (create_base_helper env) create_test_config ''unittest''
            (\<lambda>_ _ _. Ok True) [x] (base_state w) in
      r = Ok () \<and> next_stage_keys s = [Ok ''test''])"

definition filter_false_skips_object :: "'w env \<Rightarrow> 'w \<Rightarrow> bool" where
  [test_defs]: "filter_false_skips_object env w =
     (let x = NotVersioning (object_builder\<lparr> ob_key := Some ''test'' \<rparr>);
          (r, s) = receive_and_filter (create_base_helper env) create_test_config ''unittest''
            (\<lambda>_ _ _. Ok False) [x] (base_state w) in
      r = Ok () \<and> next_stage_keys s = [])"

text \<open>The token is cancelled before the stage starts, and the input is closed.\<close>

definition filter_cancelled :: "'w env \<Rightarrow> 'w \<Rightarrow> bool" where
  [test_defs]: "filter_cancelled env w =
     (let (r, s) = receive_and_filter (create_base_helper env) create_test_config ''unittest''
            (\<lambda>_ _ _. Ok False) [] ((base_state w)\<lparr> cancelled := True \<rparr>) in
      r = Ok () \<and> next_stage_keys s = [])"

definition filter_receiver_closed :: "'w env \<Rightarrow> 'w \<Rightarrow> bool" where
  [test_defs]: "filter_receiver_closed env w =
     (let x = NotVersioning (object_builder\<lparr> ob_key := Some ''test'' \<rparr>);
          env' = (create_base_helper env)\<lparr> env_send := \<lambda>_. ReceiverGone \<rparr>;
          (r, s) = receive_and_filter env' create_test_config ''unittest''
            (\<lambda>_ _ _. Ok True) [x] (base_state w) in
      r = Ok ())"

definition filter_false_emits_delete_filtered_event :: "'w env \<Rightarrow> 'w \<Rightarrow> bool" where
  [test_defs]: "filter_false_emits_delete_filtered_event env w =
     (let em = em_register_callback ALL_EVENTS False event_manager_new;
          cfg = create_test_config\<lparr> event_manager := em \<rparr>;
          x = NotVersioning (object_builder\<lparr> ob_key := Some ''filtered-key'', ob_size := Some 100,
                ob_last_modified := Some (from_secs 1700000000) \<rparr>);
          (r, s) = receive_and_filter (create_base_helper env) cfg ''test_filter''
            (\<lambda>_ _ _. Ok False) [x] (base_state w) in
      r = Ok () \<and> (case events s of
          [ed] \<Rightarrow> ed_event_type ed = DELETE_FILTERED \<and> ed_key ed = Some ''filtered-key''
            \<and> ed_last_modified ed \<noteq> None
            \<and> (case ed_message ed of Some m \<Rightarrow> contains m ''test_filter'' | None \<Rightarrow> False)
        | _ \<Rightarrow> False))"

lemma stage_unit_tests:
  "filter_true_passes_object env w" "filter_false_skips_object env w" "filter_cancelled env w"
  "filter_receiver_closed env w"
  by (simp_all add: test_defs Let_def next_stage_keys_def filter_skip_def bind_def seq_def
      is_cancelled_def stage_send_def create_base_helper_def base_state_def sys_new_def)

lemma event_unit_test: "filter_false_emits_delete_filtered_event env w"
proof -
  have "contains (''Object filtered by '' @ ''test_filter'') ''test_filter''"
    by (rule contains_append) (simp add: starts_with_def)
  then show ?thesis
    by (simp add: filter_false_emits_delete_filtered_event_def Let_def bind_def seq_def filter_skip_def
        filtered_event_def fmt_last_modified_def trigger_event_def event_types_numerals
        object_builder_def split_beta)
qed

text \<open>The stage of the delete-marker filter, on whole inputs.\<close>

definition delete_marker_stage ::
  "'w env \<Rightarrow> s3_object list \<Rightarrow> 'w sys \<Rightarrow> unit result \<times> 'w sys" where
  [test_defs]: "delete_marker_stage env xs =
     receive_and_filter env
       (create_test_config\<lparr> filter_config := filter_config_default\<lparr> delete_marker_only := True \<rparr> \<rparr>)
       ''DeleteMarkerOnlyFilter'' is_delete_marker xs"

definition stage_passes_delete_marker_to_next_stage :: "'w env \<Rightarrow> 'w \<Rightarrow> bool" where
  [test_defs]: "stage_passes_delete_marker_to_next_stage env w =
     (let x = DeleteMarker (marker_builder\<lparr> dm_key := Some ''passed-marker'',
                dm_version_id := Some ''dm1'', dm_is_latest := Some True \<rparr>);
          (r, s) = delete_marker_stage (create_base_helper env) [x] (base_state w) in
      r = Ok () \<and> next_stage_keys s = [Ok ''passed-marker''])"

definition stage_filters_out_versioned_object :: "'w env \<Rightarrow> 'w \<Rightarrow> bool" where
  [test_defs]: "stage_filters_out_versioned_object env w =
     (let x = Versioning (version_builder\<lparr> ov_key := Some ''blocked-version'',
                ov_version_id := Some ''v1'', ov_is_latest := Some True \<rparr>);
          (r, s) = delete_marker_stage (create_base_helper env) [x] (base_state w) in
      r = Ok () \<and> next_stage_keys s = [])"

definition stage_filters_out_non_versioned_object :: "'w env \<Rightarrow> 'w \<Rightarrow> bool" where
  [test_defs]: "stage_filters_out_non_versioned_object env w =
     (let x = NotVersioning (object_builder\<lparr> ob_key := Some ''blocked-object'',
                ob_size := Some 512 \<rparr>);
          (r, s) = delete_marker_stage (create_base_helper env) [x] (base_state w) in
      r = Ok () \<and> next_stage_keys s = [])"

definition stage_mixed_objects_only_delete_markers_pass :: "'w env \<Rightarrow> 'w \<Rightarrow> bool" where
  [test_defs]: "stage_mixed_objects_only_delete_markers_pass env w =
     (let marker = (\<lambda>k v l. DeleteMarker (marker_builder
            \<lparr> dm_key := Some k, dm_version_id := Some v, dm_is_latest := Some l \<rparr>));
          version = (\<lambda>k v l. Versioning (version_builder
            \<lparr> ov_key := Some k, ov_version_id := Some v, ov_is_latest := Some l \<rparr>));
          xs = [marker ''marker-1'' ''dm1'' True, version ''version-1'' ''v1'' True,
                NotVersioning (object_builder\<lparr> ob_key := Some ''object-1'', ob_size := Some 100 \<rparr>),
                marker ''marker-2'' ''dm2'' False, version ''version-2'' ''v2'' False];
          (r, s) = delete_marker_stage (create_base_helper env) xs (base_state w) in
      r = Ok () \<and> next_stage_keys s = [Ok ''marker-1'', Ok ''marker-2''])"

definition stage_completes_when_cancelled :: "'w env \<Rightarrow> 'w \<Rightarrow> bool" where
  [test_defs]: "stage_completes_when_cancelled env w =
     (let (r, s) = delete_marker_stage (create_base_helper env) []
            ((base_state w)\<lparr> cancelled := True \<rparr>) in
      r = Ok () \<and> next_stage_keys s = [])"

definition stage_completes_when_output_channel_closed :: "'w env \<Rightarrow> 'w \<Rightarrow> bool" where
  [test_defs]: "stage_completes_when_output_channel_closed env w =
     (let x = DeleteMarker (marker_builder\<lparr> dm_key := Some ''marker'',
                dm_version_id := Some ''dm1'' \<rparr>);
          env' = (create_base_helper env)\<lparr> env_send := \<lambda>_. ReceiverGone \<rparr>;
          (r, s) = delete_marker_stage env' [x] (base_state w) in
      r = Ok ())"

definition stage_empty_input_completes_immediately :: "'w env \<Rightarrow> 'w \<Rightarrow> bool" where
  [test_defs]: "stage_empty_input_completes_immediately env w =
     (let (r, s) = delete_marker_stage (create_base_helper env) [] (base_state w) in
      r = Ok () \<and> next_stage_keys s = [])"

lemma delete_marker_stage_tests:
  "stage_passes_delete_marker_to_next_stage env w"
  "stage_filters_out_versioned_object env w"
  "stage_filters_out_non_versioned_object env w"
  "stage_mixed_objects_only_delete_markers_pass env w"
  "stage_completes_when_cancelled env w"
  "stage_completes_when_output_channel_closed env w"
  "stage_empty_input_completes_immediately env w"
  by (simp_all add: test_defs Let_def next_stage_keys_def filter_skip_def bind_def seq_def
      is_cancelled_def stage_send_def create_base_helper_def base_state_def sys_new_def
      is_delete_marker_def)

text \<open>The stage of the user-defined filter.\<close>

definition filter_callback_env :: "'w env \<Rightarrow> bool result \<Rightarrow> 'w env" where
  [test_defs]: "filter_callback_env env answer =
     (create_base_helper env)\<lparr> env_filter_callback := \<lambda>_ w. (answer, w) \<rparr>"

definition filter_callback_config :: config where
  [test_defs]: "filter_callback_config =
     create_test_config\<lparr> filter_manager := fm_register_callback filter_manager_new \<rparr>"

definition keyed_object :: "string \<Rightarrow> s3_object" where
  [test_defs]: "keyed_object k = NotVersioning (object_builder\<lparr> ob_key := Some k \<rparr>)"

definition passes_objects_through_when_no_callback :: "'w env \<Rightarrow> 'w \<Rightarrow> bool" where
  [test_defs]: "passes_objects_through_when_no_callback env w =
     (let (r, s) = user_defined_filter_loop (create_base_helper env) create_test_config
            [keyed_object ''test-key''] (base_state w) in
      r = Ok () \<and> next_stage_keys s = [Ok ''test-key''])"

definition handles_cancellation :: "'w env \<Rightarrow> 'w \<Rightarrow> bool" where
  [test_defs]: "handles_cancellation env w =
     (let (r, s) = user_defined_filter_loop (create_base_helper env) create_test_config []
            ((base_state w)\<lparr> cancelled := True \<rparr>) in
      r = Ok () \<and> next_stage_keys s = [])"

definition handles_channel_close :: "'w env \<Rightarrow> 'w \<Rightarrow> bool" where
  [test_defs]: "handles_channel_close env w =
     (let (r, s) = user_defined_filter_loop (create_base_helper env) create_test_config []
            (base_state w) in
      r = Ok ())"

definition filters_with_registered_true_callback :: "'w env \<Rightarrow> 'w \<Rightarrow> bool" where
  [test_defs]: "filters_with_registered_true_callback env w =
     (let (r, s) = user_defined_filter_loop (filter_callback_env env (Ok True))
            filter_callback_config [keyed_object ''pass-me''] (base_state w) in
      r = Ok () \<and> next_stage_keys s = [Ok ''pass-me''])"

definition filters_with_registered_false_callback :: "'w env \<Rightarrow> 'w \<Rightarrow> bool" where
  [test_defs]: "filters_with_registered_false_callback env w =
     (let (r, s) = user_defined_filter_loop (filter_callback_env env (Ok False))
            filter_callback_config [keyed_object ''reject-me''] (base_state w) in
      r = Ok () \<and> next_stage_keys s = [])"

definition filter_error_cancels_pipeline :: "'w env \<Rightarrow> 'w \<Rightarrow> bool" where
  [test_defs]: "filter_error_cancels_pipeline env w =
     (let (r, s) = user_defined_filter_loop
            (filter_callback_env env (Err (Message ''filter error''))) filter_callback_config
            [keyed_object ''error-me''] (base_state w) in
      is_err r \<and> cancelled s)"

definition filter_error_with_event_callback_triggers_error_event :: "'w env \<Rightarrow> 'w \<Rightarrow> bool" where
  [test_defs]: "filter_error_with_event_callback_triggers_error_event env w =
     (let em = em_register_callback ALL_EVENTS False event_manager_new;
          (r, s) = user_defined_filter_loop (filter_callback_env env (Err (Message ''boom'')))
            (filter_callback_config\<lparr> event_manager := em \<rparr>) [keyed_object ''error-me'']
            (base_state w) in
      is_err r \<and> cancelled s \<and> (case events s of
          [ed] \<Rightarrow> ed_event_type ed = PIPELINE_ERROR
            \<and> (case ed_message ed of Some m \<Rightarrow> contains m ''User defined filter error'' | None \<Rightarrow> False)
        | _ \<Rightarrow> False))"

definition send_returns_ok_when_next_stage_closed :: "'w env \<Rightarrow> 'w \<Rightarrow> bool" where
  [test_defs]: "send_returns_ok_when_next_stage_closed env w =
     (let env' = (create_base_helper env)\<lparr> env_send := \<lambda>_. ReceiverGone \<rparr>;
          (r, s) = user_defined_filter_loop env' create_test_config [keyed_object ''test-key'']
            (base_state w) in
      r = Ok ())"

lemmas user_defined_runs =
  user_defined_decision_def user_defined_skip_def user_defined_error_def execute_filter_def
  catch_def bind_def seq_def select_cancelled_def is_cancelled_def stage_send_def
  create_base_helper_def base_state_def sys_new_def

lemma user_defined_stage_tests:
  "passes_objects_through_when_no_callback env w"
  "handles_cancellation env w"
  "handles_channel_close env w"
  "filters_with_registered_true_callback env w"
  "filters_with_registered_false_callback env w"
  "filter_error_cancels_pipeline env w"
  "send_returns_ok_when_next_stage_closed env w"
  by (simp_all add: test_defs Let_def next_stage_keys_def user_defined_runs)

lemma user_defined_event_test: "filter_error_with_event_callback_triggers_error_event env w"
  by (simp add: test_defs Let_def user_defined_runs trigger_event_def update_pipeline_stats_def
      event_types_numerals UNDEFINED_def deliver_def starts_with_def)


section \<open>The filter property tests, as one property\<close>

text \<open>
  C36: the property tests of the filters hold for every input, not only for the hundred their runs
  sample: for any keys, the include and exclude patterns select as the tests expect, alone and
  together; for any non-negative sizes, any limits and any range, the size filters keep exactly
  the sizes in range; a negative size never passes, a limit above \<open>i64::MAX\<close> excludes or
  admits every size, a delete marker never passes; for any instants of the generators' years,
  the time filters select by the order of instants; the keep-latest-only filter passes exactly
  the versions and markers marked as not the latest. The libraries convert instants and match
  the tests' three patterns as documented.
\<close>

theorem filter_property_tests_hold:
  assumes "pattern_libs lib" and "time_libs lib from_millis from_timestamp_millis"
    and "list_all (\<lambda>sz. 0 \<le> sint sz) (sz # sizes)" and "sint negative < 0"
    and "0 < offset" and "offset < 1000"
    and "946684800000 \<le> sint t1" and "sint t1 < 1893456000000"
    and "946684800000 \<le> sint t2" and "sint t2 < 1893456000000"
    and "946684800000 \<le> sint start" and "sint start < 1400000000000"
    and "1000 \<le> sint span" and "sint span < 500000000000"
  shows "test_include_regex_filtering lib keys
    \<and> test_exclude_regex_filtering lib keys
    \<and> test_regex_and_logic lib keys
    \<and> test_larger_size_filtering lib sizes threshold
    \<and> test_smaller_size_filtering lib sizes threshold
    \<and> test_size_range_filtering lib sizes min_size max_offset
    \<and> test_negative_size_always_filtered lib negative threshold
    \<and> test_threshold_above_i64_max_larger_filter lib sz offset
    \<and> test_threshold_above_i64_max_smaller_filter lib sz offset
    \<and> test_delete_markers_filtered_out_by_size_filters lib threshold
    \<and> test_mtime_before_filtering lib from_millis from_timestamp_millis t1 t2
    \<and> test_mtime_after_filtering lib from_millis from_timestamp_millis t1 t2
    \<and> test_time_range_filtering lib from_millis from_timestamp_millis t1 start span
    \<and> mixed_variants_are_correctly_partitioned lib key vid is_latest"
  using assms regex_property_tests size_property_tests negative_size_property_test
    threshold_property_tests [of sz offset] marker_property_test
    time_property_tests [OF assms(2,7,8)] keep_latest_only_property_tests(9)
  by simp_all

text \<open>Libraries that do what the documentation says, on which the property is instantiated.\<close>

definition test_libs :: libs where
  "test_libs = demo_libs
     \<lparr> regex_is_match := \<lambda>re key. Inr
         (if re = csv_pattern then ends_with key ''.csv''
          else if re = tmp_pattern then ends_with key ''.tmp''
          else if re = ''^temp/.*'' then starts_with key ''temp/'' else re = key),
       dt_to_millis := \<lambda>dt. Inr (of_int (dt_secs dt * 1000 + int (dt_nanos dt div 1000000))) \<rparr>"

definition test_from_millis :: "i64 \<Rightarrow> datetime" where
  "test_from_millis m = DateTime (sint m div 1000) (nat (sint m mod 1000) * 1000000)"

definition test_from_timestamp_millis :: "i64 \<Rightarrow> chrono option" where
  "test_from_timestamp_millis m = Some (sint m * 1000000)"

lemma pattern_test_libs: "pattern_libs test_libs"
  by (simp add: pattern_libs_def test_libs_def csv_pattern_def tmp_pattern_def)

lemma time_test_libs: "time_libs test_libs test_from_millis test_from_timestamp_millis"
proof -
  have "of_int (a div 1000) * 1000 + of_int (a mod 1000) = (of_int a :: i64)" for a
    by (metis div_mult_mod_eq of_int_add of_int_mult of_int_numeral)
  then show ?thesis
    by (simp add: time_libs_def test_libs_def demo_libs_def test_from_millis_def
        test_from_timestamp_millis_def)
qed

theorem filter_property_tests_hold_witness:
  "test_regex_and_logic test_libs [''temp/a.csv'', ''b.csv'', ''c'']
   \<and> test_size_range_filtering test_libs [0, 7, 9] 5 4
   \<and> test_threshold_above_i64_max_smaller_filter test_libs 3 1
   \<and> test_time_range_filtering test_libs test_from_millis test_from_timestamp_millis
       1000000000000 946684800000 500000"
  using filter_property_tests_hold [of test_libs test_from_millis
      test_from_timestamp_millis 3 "[0, 7, 9]" "- 1" 1 1000000000000 1000000000000 946684800000
      500000 "[''temp/a.csv'', ''b.csv'', ''c'']" 0 5 4]
  by (simp add: pattern_test_libs time_test_libs)

end
