(* ===== verification/Safety_Tests.thy ===== *)
theory Safety_Tests
  imports Safety Test_Support
begin

text \<open>
  The tests of the safety checks: \<open>src/property_tests/safety_properties.rs\<close>, with the mock
  prompt handlers as values of \<open>prompt_handler\<close>. A mock handler interprets the contract of
  prompt handlers like the one over the standard streams.
\<close>

section \<open>The mock prompt handlers\<close>

definition mock_prompt_handler :: "string \<Rightarrow> 'w prompt_handler" where
  "mock_prompt_handler response =
     \<lparr> ph_read_confirmation = (\<lambda>target_display use_color whole_bucket. ret response),
       ph_is_interactive = True \<rparr>"

text \<open>The capturing handler records the arguments it is asked with, here in the outside world.\<close>

definition capturing_prompt_handler ::
  "string \<Rightarrow> (string option \<times> bool option) prompt_handler" where
  "capturing_prompt_handler response =
     \<lparr> ph_read_confirmation = (\<lambda>target_display use_color whole_bucket.
         seq (update (\<lambda>s. s\<lparr> world := (Some target_display, Some use_color) \<rparr>)) (ret response)),
       ph_is_interactive = True \<rparr>"

definition non_interactive_prompt_handler :: "'w prompt_handler" where
  "non_interactive_prompt_handler =
     \<lparr> ph_read_confirmation = (\<lambda>target_display use_color whole_bucket.
         panic ''should not be called in non-interactive mode''),
       ph_is_interactive = False \<rparr>"

lemmas prompt_handler_defs =
  mock_prompt_handler_def capturing_prompt_handler_def non_interactive_prompt_handler_def

lemma same_world: "\<exists>w. s = s\<lparr> world := w \<rparr>"
  by (rule exI [of _ "world s"]) simp

interpretation mock: confirmation_prompt "mock_prompt_handler response" for response
  by unfold_locales (auto simp: mock_prompt_handler_def same_world)

interpretation capturing: confirmation_prompt "capturing_prompt_handler response" for response
  by unfold_locales (auto simp: capturing_prompt_handler_def)

interpretation silent: confirmation_prompt non_interactive_prompt_handler
  by unfold_locales (auto simp: non_interactive_prompt_handler_def same_world)


section \<open>The configurations\<close>

definition make_config_with_target ::
  "bool \<Rightarrow> bool \<Rightarrow> bool \<Rightarrow> bool \<Rightarrow> string \<Rightarrow> string \<Rightarrow> config" where
  "make_config_with_target dry forced json_tracing disable_color b p =
     \<lparr> target = S3 b p,
       show_no_progress = False,
       target_client_config = None,
       force_retry_config =
         \<lparr> force_retry_count = 0, force_retry_interval_milliseconds = 0 \<rparr>,
       tracing_config = Some \<lparr> tc_tracing_level = LInfo, tc_json_tracing = json_tracing,
         tc_aws_sdk_tracing = False, tc_span_events_tracing = False,
         tc_disable_color_tracing = disable_color \<rparr>,
       worker_size = 4,
       warn_as_error = False,
       dry_run = dry,
       rate_limit_objects = None,
       max_parallel_listings = 1,
       object_listing_queue_size = 1000,
       max_parallel_listing_max_depth = 1,
       allow_parallel_listings_in_express_one_zone = False,
       filter_config = filter_config_default,
       max_keys = 1000,
       auto_complete_shell = None,
       event_callback_lua_script = None,
       filter_callback_lua_script = None,
       allow_lua_os_library = False,
       allow_lua_unsafe_vm = False,
       lua_vm_memory_limit = 0,
       lua_callback_timeout_milliseconds = 0,
       if_match = False,
       max_delete = None,
       filter_manager = filter_manager_new,
       event_manager = event_manager_new,
       batch_size = 1000,
       delete_all_versions = False,
       force = forced,
       test_user_defined_callback = False \<rparr>"

text \<open>The second helper of the file writes out the same configuration for a fixed target.\<close>

definition make_config :: "bool \<Rightarrow> bool \<Rightarrow> bool \<Rightarrow> config" where
  "make_config dry forced json_tracing =
     make_config_with_target dry forced json_tracing False ''test-bucket'' []"

lemma make_config_fields [simp]:
  "dry_run (make_config d f j) = d" "force (make_config d f j) = f"
  "target (make_config d f j) = S3 ''test-bucket'' []"
  "tracing_config (make_config d f j) = Some \<lparr> tc_tracing_level = LInfo, tc_json_tracing = j,
     tc_aws_sdk_tracing = False, tc_span_events_tracing = False, tc_disable_color_tracing = False \<rparr>"
  by (simp_all add: make_config_def make_config_with_target_def)


section \<open>The property tests\<close>

definition property_16_dry_run_skips_confirmation :: "'w sys \<Rightarrow> bool \<Rightarrow> bool" where
  [test_defs]: "property_16_dry_run_skips_confirmation s forced =
     (let checker = with_prompt_handler (make_config True forced False) (mock_prompt_handler ''no'') in
      is_ok (fst (check_before_deletion checker s)))"

definition property_17_only_exact_yes_accepted :: "'w sys \<Rightarrow> string \<Rightarrow> bool" where
  [test_defs]: "property_17_only_exact_yes_accepted s input =
     (if trim input \<noteq> ''yes'' then
        let checker = with_prompt_handler (make_config False False False) (mock_prompt_handler input) in
        fst (check_before_deletion checker s) = Err (App Cancelled)
      else True)"

definition property_17_exact_yes_is_accepted :: "'w sys \<Rightarrow> bool" where
  [test_defs]: "property_17_exact_yes_is_accepted s =
     (let checker = with_prompt_handler (make_config False False False) (mock_prompt_handler ''yes'') in
      is_ok (fst (check_before_deletion checker s)))"

definition property_18_force_flag_skips_confirmation :: "'w sys \<Rightarrow> bool \<Rightarrow> bool" where
  [test_defs]: "property_18_force_flag_skips_confirmation s json_tracing =
     (let checker = with_prompt_handler (make_config False True json_tracing)
            (mock_prompt_handler ''no'') in
      is_ok (fst (check_before_deletion checker s)))"

definition property_19_prompt_displays_s3_uri_target ::
  "(string option \<times> bool option) sys \<Rightarrow> string \<Rightarrow> string \<Rightarrow> bool \<Rightarrow> bool" where
  [test_defs]: "property_19_prompt_displays_s3_uri_target s b p disable_color =
     (let cfg = make_config_with_target False False False disable_color b p;
          checker = with_prompt_handler cfg (capturing_prompt_handler ''yes'');
          (r, s') = check_before_deletion checker (s\<lparr> world := (None, None) \<rparr>);
          expected = (if p = [] then ''s3://'' @ b @ ''/'' else ''s3://'' @ b @ ''/'' @ p) in
      is_ok r \<and> world s' = (Some expected, Some (\<not> disable_color)))"


lemma trim_yes: "trim ''yes'' = ''yes''"
  by code_simp


section \<open>The unit tests\<close>

text \<open>The error of a failed check, downcast to the program's error type.\<close>

definition fails_with :: "'a result \<Rightarrow> (s3rm_error \<Rightarrow> bool) \<Rightarrow> bool" where
  [test_defs]: "fails_with r p =
     (case r of Err e \<Rightarrow> (case downcast_s3rm e of Some err \<Rightarrow> p err | None \<Rightarrow> False) | _ \<Rightarrow> False)"

fun is_invalid_config :: "s3rm_error \<Rightarrow> bool" where
  "is_invalid_config (InvalidConfig m) = True"
| "is_invalid_config _ = False"

definition json_logging_without_force_errors :: "'w sys \<Rightarrow> bool" where
  [test_defs]: "json_logging_without_force_errors s =
     (let checker = with_prompt_handler (make_config False False True) (mock_prompt_handler ''no'') in
      fails_with (fst (check_before_deletion checker s)) is_invalid_config)"

definition non_interactive_environment_without_force_errors :: "'w sys \<Rightarrow> bool" where
  [test_defs]: "non_interactive_environment_without_force_errors s =
     (let checker = with_prompt_handler (make_config False False False)
            non_interactive_prompt_handler in
      fails_with (fst (check_before_deletion checker s)) is_invalid_config)"

definition non_interactive_environment_with_force_succeeds :: "'w sys \<Rightarrow> bool" where
  [test_defs]: "non_interactive_environment_with_force_succeeds s =
     (let checker = with_prompt_handler (make_config False True False)
            non_interactive_prompt_handler in
      is_ok (fst (check_before_deletion checker s)))"

definition abbreviated_yes_responses_rejected :: "'w sys \<Rightarrow> bool" where
  [test_defs]: "abbreviated_yes_responses_rejected s =
     (let rejected_inputs =
            [''y'', ''Y'', ''YES'', ''Yes'', ''ye'', ''yep'', ''yeah'', ''ok'', []] in
      list_all (\<lambda>input.
        let checker = with_prompt_handler (make_config False False False)
              (mock_prompt_handler input) in
        fails_with (fst (check_before_deletion checker s)) (\<lambda>e. e = Cancelled)) rejected_inputs)"

definition checker_from_config_without_tracing_config :: "'w sys \<Rightarrow> bool" where
  [test_defs]: "checker_from_config_without_tracing_config s =
     (let cfg = (make_config False False False)\<lparr> tracing_config := None \<rparr>;
          checker = with_prompt_handler cfg (mock_prompt_handler ''yes'') in
      is_ok (fst (check_before_deletion checker s)))"

text \<open>These use the production constructor; the environment is the one of the test process.\<close>

definition safety_checker_new_dry_run_succeeds :: "'w env \<Rightarrow> 'w sys \<Rightarrow> bool" where
  [test_defs]: "safety_checker_new_dry_run_succeeds env s =
     is_ok (fst (check_before_deletion (safety_checker_new env (make_config True False False)) s))"

definition safety_checker_new_force_succeeds :: "'w env \<Rightarrow> 'w sys \<Rightarrow> bool" where
  [test_defs]: "safety_checker_new_force_succeeds env s =
     is_ok (fst (check_before_deletion (safety_checker_new env (make_config False True False)) s))"

definition safety_checker_new_json_no_force_errors :: "'w env \<Rightarrow> 'w sys \<Rightarrow> bool" where
  [test_defs]: "safety_checker_new_json_no_force_errors env s =
     is_err (fst (check_before_deletion (safety_checker_new env (make_config False False True)) s))"

definition safety_checker_new_no_tracing_config :: "'w env \<Rightarrow> 'w sys \<Rightarrow> bool" where
  [test_defs]: "safety_checker_new_no_tracing_config env s =
     (let cfg = (make_config False True False)\<lparr> tracing_config := None \<rparr> in
      is_ok (fst (check_before_deletion (safety_checker_new env cfg) s)))"

lemmas safety_runs =
  check_before_deletion_def is_non_interactive_def prompt_confirmation_def with_prompt_handler_def
  safety_checker_new_def prompt_handler_defs

lemma safety_unit_tests:
  "json_logging_without_force_errors s" "non_interactive_environment_without_force_errors s"
  "non_interactive_environment_with_force_succeeds s" "abbreviated_yes_responses_rejected s"
  "checker_from_config_without_tracing_config s" "safety_checker_new_dry_run_succeeds env s"
  "safety_checker_new_force_succeeds env s" "safety_checker_new_json_no_force_errors env s"
  "safety_checker_new_no_tracing_config env s"
  by (simp_all add: test_defs safety_runs Let_def)

lemma target_display_test: "property_19_prompt_displays_s3_uri_target s b p disable_color"
  by (simp add: property_19_prompt_displays_s3_uri_target_def safety_runs Let_def format_target_def
      make_config_with_target_def bind_def seq_def)


section \<open>The tests of non-interactive environments\<close>

text \<open>
  \<open>src/property_tests/cicd_properties.rs\<close>: the same mock handlers under other names, and a helper
  that fixes the target.
\<close>

definition cicd_make_config :: "bool \<Rightarrow> bool \<Rightarrow> bool \<Rightarrow> bool \<Rightarrow> config" where
  [test_defs]: "cicd_make_config dry forced json_tracing disable_color =
     make_config_with_target dry forced json_tracing disable_color ''test-bucket'' []"

definition property_48_non_interactive_with_force_or_dry_run_succeeds ::
  "'w sys \<Rightarrow> bool \<Rightarrow> bool \<Rightarrow> bool \<Rightarrow> bool" where
  [test_defs]: "property_48_non_interactive_with_force_or_dry_run_succeeds s forced dry json_tracing =
     (if forced \<or> dry then
        let checker = with_prompt_handler (cicd_make_config dry forced json_tracing False)
              non_interactive_prompt_handler in
        is_ok (fst (check_before_deletion checker s))
      else True)"

definition property_48_non_interactive_without_force_errors :: "'w sys \<Rightarrow> bool \<Rightarrow> bool" where
  [test_defs]: "property_48_non_interactive_without_force_errors s json_tracing =
     (let checker = with_prompt_handler (cicd_make_config False False json_tracing False)
            non_interactive_prompt_handler in
      fails_with (fst (check_before_deletion checker s)) is_invalid_config)"

definition property_48_interactive_env_does_prompt :: "'w sys \<Rightarrow> string \<Rightarrow> bool" where
  [test_defs]: "property_48_interactive_env_does_prompt s response =
     (if trim response \<noteq> ''yes'' then
        let checker = with_prompt_handler (cicd_make_config False False False False)
              (mock_prompt_handler response) in
        fails_with (fst (check_before_deletion checker s)) (\<lambda>e. e = Cancelled)
      else True)"

definition property_48_non_interactive_no_tracing_config_errors :: "'w sys \<Rightarrow> bool" where
  [test_defs]: "property_48_non_interactive_no_tracing_config_errors s =
     (let cfg = (cicd_make_config False False False False)\<lparr> tracing_config := None \<rparr>;
          checker = with_prompt_handler cfg non_interactive_prompt_handler in
      is_err (fst (check_before_deletion checker s)))"

definition property_48_non_interactive_no_tracing_config_with_force_succeeds :: "'w sys \<Rightarrow> bool" where
  [test_defs]: "property_48_non_interactive_no_tracing_config_with_force_succeeds s =
     (let cfg = (cicd_make_config False True False False)\<lparr> tracing_config := None \<rparr>;
          checker = with_prompt_handler cfg non_interactive_prompt_handler in
      is_ok (fst (check_before_deletion checker s)))"

definition property_48_json_logging_without_force_errors :: "'w sys \<Rightarrow> bool" where
  [test_defs]: "property_48_json_logging_without_force_errors s =
     (let checker = with_prompt_handler (cicd_make_config False False True False)
            (mock_prompt_handler ''no'') in
      is_err (fst (check_before_deletion checker s)))"

definition property_48_json_logging_with_force_succeeds :: "'w sys \<Rightarrow> bool" where
  [test_defs]: "property_48_json_logging_with_force_succeeds s =
     (let checker = with_prompt_handler (cicd_make_config False True True False)
            (mock_prompt_handler ''no'') in
      is_ok (fst (check_before_deletion checker s)))"

lemma cicd_make_config_fields [simp]:
  "dry_run (cicd_make_config d f j c) = d" "force (cicd_make_config d f j c) = f"
  "target (cicd_make_config d f j c) = S3 ''test-bucket'' []"
  "tracing_config (cicd_make_config d f j c) = Some \<lparr> tc_tracing_level = LInfo, tc_json_tracing = j,
     tc_aws_sdk_tracing = False, tc_span_events_tracing = False, tc_disable_color_tracing = c \<rparr>"
  by (simp_all add: cicd_make_config_def make_config_with_target_def)

lemma cicd_tests:
  "property_48_non_interactive_with_force_or_dry_run_succeeds s forced dry json_tracing"
  "property_48_non_interactive_without_force_errors s json_tracing"
  "property_48_interactive_env_does_prompt s response"
  "property_48_non_interactive_no_tracing_config_errors s"
  "property_48_non_interactive_no_tracing_config_with_force_succeeds s"
  "property_48_json_logging_without_force_errors s"
  "property_48_json_logging_with_force_succeeds s"
  using trim_yes
  by (auto simp: property_48_non_interactive_with_force_or_dry_run_succeeds_def
      property_48_non_interactive_without_force_errors_def
      property_48_interactive_env_does_prompt_def
      property_48_non_interactive_no_tracing_config_errors_def
      property_48_non_interactive_no_tracing_config_with_force_succeeds_def
      property_48_json_logging_without_force_errors_def
      property_48_json_logging_with_force_succeeds_def fails_with_def safety_runs Let_def)


section \<open>The safety property tests\<close>

text \<open>
  The property tests of the safety checks hold for every input: a dry run passes whatever the
  force flag, without a look at the answer; an answer that is not \<open>yes\<close> after trimming cancels, the
  answer \<open>yes\<close> passes; a forced run passes with and without JSON logging; and the prompt shows the
  target as \<open>s3://bucket/prefix\<close>, in colours exactly when they are not disabled, for every bucket,
  prefix and setting.
\<close>

theorem safety_property_tests_hold:
  "property_16_dry_run_skips_confirmation s forced
   \<and> property_17_only_exact_yes_accepted s input
   \<and> property_17_exact_yes_is_accepted s
   \<and> property_18_force_flag_skips_confirmation s json_tracing
   \<and> property_19_prompt_displays_s3_uri_target s b p disable_color"
  using trim_yes target_display_test
  by (auto simp: property_16_dry_run_skips_confirmation_def property_17_only_exact_yes_accepted_def
      property_17_exact_yes_is_accepted_def property_18_force_flag_skips_confirmation_def
      safety_runs Let_def)

end
