(* ===== verification/Event_Tests.thy ===== *)
theory Event_Tests
  imports Test_Support
begin

text \<open>
  The tests of the event callbacks: the property tests of
  \<open>src/property_tests/event_callback_properties.rs\<close> and the unit tests of
  \<open>src/callback/event_manager.rs\<close>. The collecting callback of the tests is the list \<open>events\<close> of
  the model, which starts empty.
\<close>

section \<open>The property tests\<close>

type_synonym generated_event = "event_type \<times> string option \<times> u64 option"

definition generated_data :: "generated_event \<Rightarrow> event_data" where
  "generated_data e = (case e of (t, k, n) \<Rightarrow>
     (event_data_new t)\<lparr> ed_key := k, ed_size := n \<rparr>)"

text \<open>What \<open>arb_event_sequence\<close> generates; the keys do not matter here.\<close>

definition arb_event :: "generated_event \<Rightarrow> bool" where
  "arb_event e \<longleftrightarrow> (case e of (t, k, n) \<Rightarrow>
     (t = PIPELINE_START \<or> t = PIPELINE_END) \<and> k = None \<and> n = None
     \<or> t = DELETE_COMPLETE \<and> k \<noteq> None \<and> n = Some 1024
     \<or> (t = DELETE_FAILED \<or> t = DELETE_FILTERED) \<and> k \<noteq> None \<and> n = None)"

text \<open>A manager with the callback registered is told of one event after the other.\<close>

definition received :: "'w env \<Rightarrow> event_manager \<Rightarrow> generated_event list \<Rightarrow> 'w \<Rightarrow> event_data list" where
  "received env em evs w = events (fold (trigger_event env em) (map generated_data evs) (sys_new w))"

definition prop_all_events_callback_receives_every_event ::
  "'w env \<Rightarrow> 'w \<Rightarrow> generated_event list \<Rightarrow> bool" where
  "prop_all_events_callback_receives_every_event env w evs =
     (let manager = em_register_callback ALL_EVENTS False event_manager_new;
          pipeline_end_count = length (filter (\<lambda>(t, _, _). t = PIPELINE_END) evs);
          expected_count = length evs + pipeline_end_count in
      length (received env manager evs w) = expected_count)"

definition prop_callback_receives_structured_data :: "'w env \<Rightarrow> 'w \<Rightarrow> string \<Rightarrow> u64 \<Rightarrow> bool" where
  "prop_callback_receives_structured_data env w key n =
     (let manager = em_register_callback ALL_EVENTS False event_manager_new;
          ed = (event_data_new DELETE_COMPLETE)
            \<lparr> ed_key := Some key, ed_size := Some n, ed_version_id := Some ''v1'' \<rparr> in
      case events (trigger_event env manager ed (sys_new w)) of
        [e] \<Rightarrow> ed_event_type e = DELETE_COMPLETE \<and> ed_key e = Some key \<and> ed_size e = Some n
          \<and> ed_version_id e = Some ''v1''
      | _ \<Rightarrow> False)"

definition prop_event_flag_filtering :: "'w env \<Rightarrow> 'w \<Rightarrow> generated_event list \<Rightarrow> bool" where
  "prop_event_flag_filtering env w evs =
     (let manager = em_register_callback DELETE_COMPLETE False event_manager_new;
          collected = received env manager evs w;
          expected_count = length (filter (\<lambda>(t, _, _). t = DELETE_COMPLETE) evs) in
      length collected = expected_count
      \<and> list_all (\<lambda>e. ed_event_type e = DELETE_COMPLETE) collected)"

definition prop_dry_run_propagated_to_events ::
  "'w env \<Rightarrow> 'w \<Rightarrow> generated_event list \<Rightarrow> bool \<Rightarrow> bool" where
  "prop_dry_run_propagated_to_events env w evs dry =
     (let manager = em_register_callback ALL_EVENTS dry event_manager_new in
      list_all (\<lambda>e. ed_dry_run e = dry) (received env manager evs w))"

lemma generated_type [simp]: "ed_event_type (generated_data e) = fst e"
  by (simp add: generated_data_def split: prod.splits)

lemma received_delivered:
  "map ed_event_type (received env em evs w) = concat (map (delivered_types em) (map generated_data evs))"
  "list_all (\<lambda>e. ed_dry_run e = em_dry_run em) (received env em evs w)"
  using triggered_events_delivered [of env em "map generated_data evs" "sys_new w"]
  by (auto simp: received_def sys_new_def)

lemma all_events_test: "prop_all_events_callback_receives_every_event env w evs"
proof -
  let ?em = "em_register_callback ALL_EVENTS False event_manager_new"
  have "length (concat (map (delivered_types ?em) (map generated_data es)))
      = length es + length (filter (\<lambda>(t, _, _). t = PIPELINE_END) es)" for es
    by (induction es) (auto simp: delivered_types_def)
  from this [of evs] show ?thesis
    using arg_cong [OF received_delivered(1) [where em = ?em and evs = evs], of length]
    by (simp add: prop_all_events_callback_receives_every_event_def)
qed

lemma flag_filtering_test:
  assumes "list_all arb_event evs"
  shows "prop_event_flag_filtering env w evs"
proof -
  let ?em = "em_register_callback DELETE_COMPLETE False event_manager_new"
  let ?n = "length (filter (\<lambda>(t, _, _). t = DELETE_COMPLETE) evs)"
  have "concat (map (delivered_types ?em) (map generated_data evs)) = replicate ?n DELETE_COMPLETE"
    using assms
    by (induction evs)
      (auto simp: delivered_types_def flags_contain_def arb_event_def event_types_numerals)
  then have types: "map ed_event_type (received env ?em evs w) = replicate ?n DELETE_COMPLETE"
    using received_delivered(1) [where em = ?em and evs = evs] by simp
  have "set (map ed_event_type (received env ?em evs w)) \<subseteq> {DELETE_COMPLETE}" unfolding types by auto
  with arg_cong [OF types, of length] show ?thesis
    by (auto simp: prop_event_flag_filtering_def list_all_iff)
qed

lemma event_property_tests:
  "prop_callback_receives_structured_data env w key n"
  "prop_dry_run_propagated_to_events env w evs dry"
  using received_delivered(2) [where em = "em_register_callback ALL_EVENTS dry event_manager_new"
      and evs = evs]
  by (simp_all add: prop_callback_receives_structured_data_def prop_dry_run_propagated_to_events_def
      trigger_event_def event_types_numerals sys_new_def)


section \<open>The unit tests of the event manager\<close>

definition new_manager_has_no_callback :: bool where
  "new_manager_has_no_callback \<longleftrightarrow> \<not> em_callback_registered event_manager_new"

definition register_callback_and_trigger_event :: "'w env \<Rightarrow> 'w \<Rightarrow> bool" where
  "register_callback_and_trigger_event env w =
     (let manager = em_register_callback ALL_EVENTS False event_manager_new;
          s = trigger_event env manager (event_data_new PIPELINE_START) (sys_new w) in
      em_callback_registered manager \<and> map ed_event_type (events s) = [PIPELINE_START])"

definition pipeline_end_sends_stats_report :: "'w env \<Rightarrow> 'w \<Rightarrow> bool" where
  "pipeline_end_sends_stats_report env w =
     (let manager = em_register_callback ALL_EVENTS False event_manager_new;
          s1 = trigger_event env manager (event_data_new PIPELINE_START) (sys_new w);
          s2 = trigger_event env manager
                 ((event_data_new DELETE_COMPLETE)\<lparr> ed_size := Some 1024 \<rparr>) s1;
          s3 = trigger_event env manager (event_data_new PIPELINE_END) s2 in
      length (events s3) = 4 \<and> ed_event_type (events s3 ! 3) = STATS_REPORT
      \<and> ed_stats_deleted_objects (events s3 ! 3) = Some 1
      \<and> ed_stats_deleted_bytes (events s3 ! 3) = Some 1024)"

definition event_flag_filtering :: "'w env \<Rightarrow> 'w \<Rightarrow> bool" where
  "event_flag_filtering env w =
     (let manager = em_register_callback DELETE_COMPLETE False event_manager_new;
          s1 = trigger_event env manager (event_data_new PIPELINE_START) (sys_new w);
          s2 = trigger_event env manager (event_data_new DELETE_COMPLETE) s1 in
      map ed_event_type (events s2) = [DELETE_COMPLETE])"

definition pipeline_end_without_stats_flag_skips_stats_report :: "'w env \<Rightarrow> 'w \<Rightarrow> bool" where
  "pipeline_end_without_stats_flag_skips_stats_report env w =
     (let manager = em_register_callback (PIPELINE_START OR PIPELINE_END) False event_manager_new;
          s1 = trigger_event env manager (event_data_new PIPELINE_START) (sys_new w);
          s2 = trigger_event env manager (event_data_new PIPELINE_END) s1 in
      map ed_event_type (events s2) = [PIPELINE_START, PIPELINE_END])"

definition dry_run_flag_propagated :: "'w env \<Rightarrow> 'w \<Rightarrow> bool" where
  "dry_run_flag_propagated env w =
     (let manager = em_register_callback ALL_EVENTS True event_manager_new;
          s = trigger_event env manager (event_data_new PIPELINE_START) (sys_new w) in
      case events s of e # _ \<Rightarrow> ed_dry_run e | [] \<Rightarrow> False)"

lemma event_manager_unit_tests:
  "new_manager_has_no_callback" "register_callback_and_trigger_event env w"
  "event_flag_filtering env w"
  "pipeline_end_without_stats_flag_skips_stats_report env w" "dry_run_flag_propagated env w"
  by (simp_all add: new_manager_has_no_callback_def event_manager_new_def
      register_callback_and_trigger_event_def event_flag_filtering_def
      pipeline_end_without_stats_flag_skips_stats_report_def dry_run_flag_propagated_def Let_def
      trigger_event_def flags_contain_def event_types_numerals sys_new_def ALL_EVENTS_def)

lemma stats_report_unit_test: "pipeline_end_sends_stats_report env w"
  by (simp add: pipeline_end_sends_stats_report_def Let_def trigger_event_def event_types_numerals
      sys_new_def stats_event_def update_pipeline_stats_def pipeline_stats_default_def
      split: prod.splits)

end
