(* ===== verification/Callback_Tests.thy ===== *)
theory Callback_Tests
  imports Event_Tests
begin

text \<open>
  The property tests of callbacks registered by a library user: the filter callbacks of
  \<open>additional_properties.rs\<close> and \<open>lib_properties.rs\<close>, and the event callbacks of the latter. A
  filter callback is the function \<open>env_filter_callback\<close> of the environment.
\<close>

section \<open>Filter callbacks\<close>

text \<open>The two files have the same helper.\<close>

definition make_test_object :: "string \<Rightarrow> i64 \<Rightarrow> s3_object" where
  [test_defs]: "make_test_object key sz = NotVersioning (object_builder
     \<lparr> ob_key := Some key, ob_size := Some sz, ob_last_modified := Some (from_secs 1700000000) \<rparr>)"

type_synonym filter_callback = "s3_object \<Rightarrow> bool result"

definition key_contains_filter :: "string \<Rightarrow> filter_callback" where
  [test_defs]: "key_contains_filter substring x =
     obind (s3_key x) (\<lambda>key. Ok (contains key substring))"

definition size_range_filter :: "i64 \<Rightarrow> i64 \<Rightarrow> filter_callback" where
  [test_defs]: "size_range_filter low high x =
     obind (s3_size x) (\<lambda>sz. Ok (sint low \<le> sint sz \<and> sint sz < sint high))"

definition fixed_filter :: "bool \<Rightarrow> filter_callback" where
  [test_defs]: "fixed_filter answer x = Ok answer"

text \<open>A manager with the callback registered, asked about one object.\<close>

definition ask_callback :: "'w env \<Rightarrow> 'w sys \<Rightarrow> filter_callback \<Rightarrow> s3_object \<Rightarrow> bool result" where
  [test_defs]: "ask_callback env s cb x =
     fst (execute_filter (env\<lparr> env_filter_callback := \<lambda>x w. (cb x, w) \<rparr>)
            (fm_register_callback filter_manager_new) x s)"

definition uppercase :: "string \<Rightarrow> string" where
  "uppercase s = map (\<lambda>c. let n = of_char c :: nat in
     if 97 \<le> n \<and> n \<le> 122 then char_of (n - 32) else c) s"

definition property_12_key_contains_filter ::
  "'w env \<Rightarrow> 'w sys \<Rightarrow> string \<Rightarrow> string \<Rightarrow> string \<Rightarrow> bool \<Rightarrow> bool" where
  [test_defs]: "property_12_key_contains_filter env s substring key_front key_end should_contain =
     (let key = (if should_contain then key_front @ substring @ key_end
                 else uppercase key_front @ ''XXXX'' @ uppercase key_end);
          x = make_test_object key 100;
          answer = ask_callback env s (key_contains_filter substring) x in
      if should_contain then answer = Ok True else answer = Ok (contains key substring))"

text \<open>\<open>i64::saturating_add\<close>.\<close>

definition i64_saturating_add :: "i64 \<Rightarrow> i64 \<Rightarrow> i64" where
  "i64_saturating_add a b =
     (if sint a + sint b > 9223372036854775807 then 9223372036854775807
      else if sint a + sint b < - 9223372036854775808 then - 9223372036854775808
      else a + b)"

definition property_12_size_range_filter :: "'w env \<Rightarrow> 'w sys \<Rightarrow> i64 \<Rightarrow> i64 \<Rightarrow> i64 \<Rightarrow> bool" where
  [test_defs]: "property_12_size_range_filter env s low range_width object_size =
     (let high = i64_saturating_add low range_width;
          x = make_test_object ''test/key.txt'' object_size in
      ask_callback env s (size_range_filter low high) x
        = Ok (sint low \<le> sint object_size \<and> sint object_size < sint high))"

definition property_12_fixed_filter_consistency ::
  "'w env \<Rightarrow> 'w sys \<Rightarrow> bool \<Rightarrow> string \<Rightarrow> i64 \<Rightarrow> bool" where
  [test_defs]: "property_12_fixed_filter_consistency env s fixed_result key sz \<longleftrightarrow>
     ask_callback env s (fixed_filter fixed_result) (make_test_object key sz) = Ok fixed_result"

definition filter_callback_invoked_with_correct_data ::
  "'w env \<Rightarrow> 'w sys \<Rightarrow> i64 \<Rightarrow> i64 \<Rightarrow> bool" where
  [test_defs]: "filter_callback_invoked_with_correct_data env s threshold object_size \<longleftrightarrow>
     \<not> fm_callback_registered filter_manager_new
     \<and> fm_callback_registered (fm_register_callback filter_manager_new)
     \<and> ask_callback env s
         (\<lambda>x. obind (s3_size x) (\<lambda>sz. Ok (sint threshold \<le> sint sz)))
         (make_test_object ''test/key.txt'' object_size)
       = Ok (sint threshold \<le> sint object_size)"

definition filter_callback_error_propagation :: "'w env \<Rightarrow> 'w sys \<Rightarrow> string \<Rightarrow> i64 \<Rightarrow> bool" where
  [test_defs]: "filter_callback_error_propagation env s key sz =
     (case ask_callback env s (\<lambda>x. Err (Message ''filter error'')) (make_test_object key sz) of
        Err e \<Rightarrow> contains (anyhow_display e) ''filter error''
      | _ \<Rightarrow> False)"

lemma filter_callback_tests:
  "property_12_key_contains_filter env s sub front behind b"
  "property_12_size_range_filter env s low width sz"
  "property_12_fixed_filter_consistency env s b key sz"
  "filter_callback_invoked_with_correct_data env s low sz"
  "filter_callback_error_propagation env s key sz"
proof -
  have "contains (front @ sub @ behind) sub" by (auto simp: contains_iff)
  then show "property_12_key_contains_filter env s sub front behind b"
    by (simp add: test_defs execute_filter_def fm_register_callback_def Let_def)
  show "property_12_size_range_filter env s low width sz"
    "property_12_fixed_filter_consistency env s b key sz"
    "filter_callback_invoked_with_correct_data env s low sz"
    "filter_callback_error_propagation env s key sz"
    by (simp_all add: test_defs execute_filter_def fm_register_callback_def filter_manager_new_def
        starts_with_def Let_def)
qed


section \<open>Event callbacks\<close>

definition numbered_delete :: "nat \<Rightarrow> event_data" where
  "numbered_delete i = (event_data_new DELETE_COMPLETE)
     \<lparr> ed_key := Some (''key_'' @ show_nat i), ed_size := Some 1024 \<rparr>"

definition event_callback_receives_matching_events :: "'w env \<Rightarrow> 'w \<Rightarrow> nat \<Rightarrow> bool" where
  "event_callback_receives_matching_events env w num_events =
     (let manager = em_register_callback ALL_EVENTS False event_manager_new;
          s = trigger_event env manager (event_data_new PIPELINE_START) (sys_new w);
          s' = fold (\<lambda>i. trigger_event env manager (numbered_delete i)) [0..<num_events] s;
          collected = events s' in
      length collected = 1 + num_events
      \<and> ed_event_type (collected ! 0) = PIPELINE_START
      \<and> list_all (\<lambda>i. ed_event_type (collected ! (1 + i)) = DELETE_COMPLETE
          \<and> ed_key (collected ! (1 + i)) = Some (''key_'' @ show_nat i)) [0..<num_events])"

definition event_callback_filters_by_event_type :: "'w env \<Rightarrow> 'w \<Rightarrow> nat \<Rightarrow> nat \<Rightarrow> bool" where
  "event_callback_filters_by_event_type env w num_complete num_failed =
     (let manager = em_register_callback DELETE_COMPLETE False event_manager_new;
          evs = replicate num_complete (event_data_new DELETE_COMPLETE)
            @ replicate num_failed (event_data_new DELETE_FAILED);
          collected = events (fold (trigger_event env manager) evs (sys_new w)) in
      length collected = num_complete
      \<and> list_all (\<lambda>e. ed_event_type e = DELETE_COMPLETE) collected)"

lemma matching_events_test: "event_callback_receives_matching_events env w n"
proof -
  let ?em = "em_register_callback ALL_EVENTS False event_manager_new"
  have step: "events (trigger_event env ?em (numbered_delete i) s)
      = events s @ [(numbered_delete i)\<lparr> ed_dry_run := False \<rparr>]" for i and s :: "'a sys"
    by (simp add: trigger_event_def numbered_delete_def event_types_numerals)
  have fold: "events (fold (\<lambda>i. trigger_event env ?em (numbered_delete i)) is s)
      = events s @ map (\<lambda>i. (numbered_delete i)\<lparr> ed_dry_run := False \<rparr>) is" for "is" and s :: "'a sys"
    by (induction "is" arbitrary: s) (simp_all add: step)
  show ?thesis
    by (simp add: event_callback_receives_matching_events_def Let_def fold)
      (simp add: trigger_event_def event_types_numerals sys_new_def list_all_iff numbered_delete_def
        nth_append)
qed

lemma filtered_events_test: "event_callback_filters_by_event_type env w m n"
proof -
  let ?em = "em_register_callback DELETE_COMPLETE False event_manager_new"
  let ?evs = "replicate m (event_data_new DELETE_COMPLETE) @ replicate n (event_data_new DELETE_FAILED)"
  obtain new where new: "events (fold (trigger_event env ?em) ?evs (sys_new w)) = new"
    "map ed_event_type new = concat (map (delivered_types ?em) ?evs)"
    using triggered_events_delivered [of env ?em ?evs "sys_new w"] by (auto simp: sys_new_def)
  have "concat (map (delivered_types ?em) ?evs) = replicate m DELETE_COMPLETE"
  proof -
    have "concat (replicate k [DELETE_COMPLETE]) = replicate k DELETE_COMPLETE"
      "concat (replicate k []) = []" for k
      by (induction k) simp_all
    then show ?thesis by (simp add: delivered_types_def flags_contain_def event_types_numerals)
  qed
  with new(2) have types: "map ed_event_type new = replicate m DELETE_COMPLETE" by simp
  then have "set (map ed_event_type new) \<subseteq> {DELETE_COMPLETE}" by auto
  with arg_cong [OF types, of length] new(1) show ?thesis
    by (auto simp: event_callback_filters_by_event_type_def list_all_iff)
qed

end
