(* ===== verification/Settings_Tests.thy ===== *)
theory Settings_Tests
  imports Cli Test_Support
begin

text \<open>
  The unit tests of the defaults (\<open>src/config/mod.rs\<close>), of the display settings
  (\<open>src/bin/s3rm/ui_config.rs\<close>) and of the filter manager (\<open>src/callback/filter_manager.rs\<close>).
\<close>

section \<open>Defaults\<close>

definition config_default_tests :: unit_tests where
  "config_default_tests =
     (let fc = filter_config_default;
          named = config_for_target ''my-bucket'' ''logs/2024/'';
          cfg = config_for_target ''bucket'' ''prefix/'';
          dflt = config_default in
      [(''filter_config_default'',
          before_time fc = None \<and> after_time fc = None \<and> include_regex fc = None
          \<and> exclude_regex fc = None \<and> larger_size fc = None \<and> smaller_size fc = None),
       (''config_for_target_sets_bucket_and_prefix'', target named = S3 ''my-bucket'' ''logs/2024/''),
       (''config_for_target_sets_force_true'', force cfg),
       (''config_for_target_uses_default_worker_and_batch_size'',
          worker_size (config_for_target ''bucket'' []) = 16
          \<and> batch_size (config_for_target ''bucket'' []) = 200),
       (''config_for_target_has_sensible_defaults'',
          \<not> dry_run cfg \<and> \<not> delete_all_versions cfg \<and> \<not> if_match cfg \<and> max_delete cfg = None
          \<and> tracing_config cfg = None \<and> target_client_config cfg = None
          \<and> rate_limit_objects cfg = None \<and> \<not> warn_as_error cfg \<and> \<not> test_user_defined_callback cfg),
       (''config_default_has_empty_target'', target dflt = S3 [] []),
       (''config_default_does_not_set_force'', \<not> force dflt),
       (''config_default_field_values'',
          worker_size dflt = 16 \<and> batch_size dflt = 200 \<and> \<not> show_no_progress dflt \<and> \<not> dry_run dflt
          \<and> \<not> warn_as_error dflt \<and> max_parallel_listings dflt = 16
          \<and> object_listing_queue_size dflt = 200000 \<and> max_parallel_listing_max_depth dflt = 2
          \<and> \<not> allow_parallel_listings_in_express_one_zone dflt \<and> max_keys dflt = 1000
          \<and> auto_complete_shell dflt = None \<and> event_callback_lua_script dflt = None
          \<and> filter_callback_lua_script dflt = None \<and> \<not> allow_lua_os_library dflt
          \<and> \<not> allow_lua_unsafe_vm dflt \<and> lua_vm_memory_limit dflt = 64 * 1024 * 1024
          \<and> lua_callback_timeout_milliseconds dflt = 10000 \<and> \<not> if_match dflt
          \<and> \<not> delete_all_versions dflt),
       (''force_retry_config_default_values'',
          force_retry_count force_retry_config_default = 0
          \<and> force_retry_interval_milliseconds force_retry_config_default = 1000)])"

lemma default_unit_tests: "all_pass config_default_tests"
  by (simp add: config_default_tests_def Let_def config_for_target_def config_default_def
      filter_config_default_def force_retry_config_default_def)


section \<open>Display settings\<close>

definition ui_make_config :: "bool \<Rightarrow> tracing_config option \<Rightarrow> config" where
  "ui_make_config no_progress tc =
     \<lparr> target = S3 ''test-bucket'' [],
       show_no_progress = no_progress,
       target_client_config = None,
       force_retry_config =
         \<lparr> force_retry_count = 3, force_retry_interval_milliseconds = 1000 \<rparr>,
       tracing_config = tc,
       worker_size = 1,
       warn_as_error = False,
       dry_run = False,
       rate_limit_objects = None,
       max_parallel_listings = 1,
       object_listing_queue_size = 1000,
       max_parallel_listing_max_depth = 10,
       allow_parallel_listings_in_express_one_zone = False,
       filter_config = filter_config_default,
       max_keys = 1000,
       auto_complete_shell = None,
       event_callback_lua_script = None,
       filter_callback_lua_script = None,
       allow_lua_os_library = False,
       allow_lua_unsafe_vm = False,
       lua_vm_memory_limit = 0,
       lua_callback_timeout_milliseconds = 0,
       if_match = False,
       max_delete = None,
       filter_manager = filter_manager_new,
       event_manager = event_manager_new,
       batch_size = 1000,
       delete_all_versions = False,
       force = False,
       test_user_defined_callback = False \<rparr>"

definition ui_config_tests :: unit_tests where
  "ui_config_tests =
     (let tracing = (\<lambda>level json. Some \<lparr> tc_tracing_level = level, tc_json_tracing = json,
            tc_aws_sdk_tracing = False, tc_span_events_tracing = False,
            tc_disable_color_tracing = False \<rparr>) in
      [(''progress_indicator_needed_default'',
          is_progress_indicator_needed (ui_make_config False None)),
       (''progress_indicator_suppressed_by_quiet_mode'',
          \<not> is_progress_indicator_needed (ui_make_config True None)),
       (''progress_indicator_suppressed_by_json_tracing'',
          \<not> is_progress_indicator_needed (ui_make_config False (tracing LWarn True))),
       (''progress_indicator_suppressed_by_high_verbosity'',
          \<not> is_progress_indicator_needed (ui_make_config False (tracing LInfo False))),
       (''progress_indicator_shown_at_warn_level'',
          is_progress_indicator_needed (ui_make_config False (tracing LWarn False))),
       (''show_result_needed_default'', is_show_result_needed (ui_make_config False None)),
       (''show_result_suppressed_by_quiet_mode'', \<not> is_show_result_needed (ui_make_config True None)),
       (''show_result_suppressed_by_json_tracing'',
          \<not> is_show_result_needed (ui_make_config False (tracing LWarn True))),
       (''show_result_shown_at_high_verbosity'',
          is_show_result_needed (ui_make_config False (tracing LInfo False)))])"

lemma display_unit_tests: "all_pass ui_config_tests"
  by (simp add: ui_config_tests_def ui_make_config_def Let_def is_progress_indicator_needed_def
      is_show_result_needed_def less_log_level_def less_eq_log_level_def)


section \<open>The filter manager\<close>

definition filter_manager_tests :: "'w env \<Rightarrow> 'w sys \<Rightarrow> unit_tests" where
  "filter_manager_tests env s =
     (let manager = fm_register_callback filter_manager_new;
          x = NotVersioning (object_builder\<lparr> ob_key := Some ''test'' \<rparr>);
          run = (\<lambda>answer. fst (execute_filter (env\<lparr> env_filter_callback := \<lambda>_ w. (Ok answer, w) \<rparr>)
                   manager x s)) in
      [(''new_manager_has_no_callback'', \<not> fm_callback_registered filter_manager_new),
       (''default_manager_has_no_callback'', \<not> fm_callback_registered filter_manager_new),
       (''register_and_execute_true_filter'', fm_callback_registered manager \<and> run True = Ok True),
       (''register_and_execute_false_filter'', run False = Ok False),
       (''execute_without_registration_panics'',
          fst (execute_filter env filter_manager_new x s)
            = Panic ''Filter callback is not registered'')])"

lemma filter_manager_unit_tests: "all_pass (filter_manager_tests env s)"
  by (simp add: filter_manager_tests_def Let_def execute_filter_def)

end
