(* ===== verification/Spec2Isabelle.thy ===== *)
theory Spec2Isabelle
  imports Args_Options Client Supervisors Schedules
    Filter_Tests Safety_Tests Masking_Tests Type_Tests Callback_Tests Settings_Tests
begin

text \<open>
  A verification of \<open>s3rm-rs\<close>, a tool that deletes the objects of an Amazon S3 bucket.

  \<^bold>\<open>The program.\<close> A run lists the objects (or all versions) under a target, passes them
  through a chain of filters, and hands what is left to a pool of deletion workers, which
  delete them in batches or one by one. The stages are asynchronous tasks joined by channels;
  they share a cancellation token, a statistics report, a deletion counter and an event
  manager. A safety check stands in front of it all.

  \<^bold>\<open>The theories\<close>, each on top of the ones before it:
  \<^item> \<open>Prelude\<close>: integers at their width, the result of Rust code (a value, an error, a panic), the
    state-passing monad the operations are written in, the relation \<open>keeps\<close> for what an
    operation leaves invariant, lists and strings.
  \<^item> \<open>Errors\<close> (\<open>src/types/error.rs\<close>): the error type, its exit codes, \<open>anyhow\<close> chains.
  \<^item> \<open>Types\<close> (\<open>src/types/mod.rs\<close>): listed objects and their accessors, statistics, outcomes, the
    target URI, credentials and their masking.
  \<^item> \<open>Externals\<close>: the parameters of the model: \<open>libs\<close> (regular expressions, dates, URL
    encoding, floating point), \<open>client\<close> (the AWS SDK, with a state of its own) and \<open>env\<close>
    (these, the clock, the callback, the terminal and the moments at which other tasks act).
  \<^item> \<open>Events\<close> (\<open>src/types/event_callback.rs\<close>, \<open>src/callback/\<close>): event flags and data, the
    event manager and its statistics, the filter manager; and the state \<open>sys\<close> of a run.
  \<^item> \<open>Config\<close> (\<open>src/config/mod.rs\<close>): the configuration records and their defaults.
  \<^item> \<open>Demo\<close>: a concrete service and configuration for the witnesses; nothing depends on it but they.
  \<^item> \<open>Stage\<close> (\<open>src/stage.rs\<close>): sending, statistics, warnings, and the looks at the token.
  \<^item> \<open>Filters\<close> (\<open>src/filters/\<close>): the eight predicates, the loop they share, the callback filter.
    The locale \<open>object_filter\<close> states when a predicate implements an abstract condition; each
    of the eight interprets it.
  \<^item> \<open>Storage\<close> (\<open>src/storage/\<close>): construction, the rate limiter, every request, and the
    sequential and parallel listings, with the abstract page chains and trees a service answers.
  \<^item> \<open>Listing\<close> (\<open>list_with_parallel\<close> in \<open>src/storage/s3/mod.rs\<close>): the tasks of a parallel listing,
    interleaved, as a tree of tasks that share the permits of the semaphore. \<open>Listing_Facts\<close>: its
    invariants, and that it cannot deadlock. \<open>Listing_Work\<close>: what a listing still has to
    list, for every state it can be in. \<open>Listing_Runs\<close>: what every schedule lists.
  \<^item> \<open>Deleter\<close> (\<open>src/deleter/\<close>): the two backends with the retry fallback, the attribute filters,
    the threshold, the buffer, the worker loop. The locale \<open>deletion_backend\<close> is the contract
    between the worker and a backend, interpreted for the batch and the single backend.
  \<^item> \<open>Deleter_Facts\<close>: the properties of the deleter.
  \<^item> \<open>Workers\<close>: the same workers interleaved, as a step relation whose steps are the operations
    of \<open>Deleter\<close>. The locales \<open>shared_state\<close> and \<open>run_fact\<close> state what a condition on the shared
    state must survive, and show that it then survives every operation; \<open>shared_fact\<close> is the case
    of a condition that ignores the report, interpreted for the counter and for the token.
    \<open>Workers_Complete\<close>: without attribute filters and a threshold the workers lose nothing.
  \<^item> \<open>Safety\<close> (\<open>src/safety/mod.rs\<close>): the prompt handlers, the confirmation and its decision table. The
    locale \<open>confirmation_prompt\<close> is what the checker relies on of a handler; the handler over the
    standard streams and the mock handlers of the tests interpret it.
  \<^item> \<open>Pipeline\<close> (\<open>src/pipeline.rs\<close>, \<open>src/lister.rs\<close>, \<open>src/terminator.rs\<close>): prerequisites, the
    stages and how their ends are joined, the flags, the events, \<open>run\<close>.
  \<^item> \<open>Run_Facts\<close>: what survives a whole run. The locale \<open>pipeline_fact\<close> extends \<open>run_fact\<close> with what
    the pipeline does between the stages; it is interpreted for the growth of the event list,
    for the agreement of the progress messages with the report, and for the warning behind every
    failure. Also: no error a run records is the cancellation error.
  \<^item> \<open>Network\<close> (\<open>src/pipeline.rs\<close>, \<open>src/stage.rs\<close> and the loops of the stages): the tasks of a run
    as a network of bounded channels, one function per step of a task. \<open>Network_Facts\<close>: what
    flows through it, that it never gets stuck, and how long it can run. \<open>Network_Runs\<close>: the
    uncancelled runs, which agree with the stages of \<open>Pipeline\<close>. \<open>Schedules\<close>: the tasks of the
    listing, the stages and the workers together, in all their schedules.
  \<^item> \<open>Lua\<close> (\<open>src/lua/\<close>): the choice of the engine, the tables handed to the scripts, the calls
    under a timeout. The interpreter is a record of functions with a state of its own.
  \<^item> \<open>Args\<close> (\<open>src/config/args/\<close>): the value parsers, the parsed arguments with their defaults, the
    conversion into a configuration. \<open>Args_Facts\<close>: what such a configuration guarantees.
    \<open>Args_Options\<close>: the options that require or exclude each other, and what that guarantees.
  \<^item> \<open>Client\<close> (\<open>src/storage/s3/client_builder.rs\<close>): the settings the SDK client is built with.
  \<^item> \<open>Cli\<close> (\<open>src/bin/s3rm/\<close>): the display settings, the progress task, the Ctrl+C handler as a step
    relation, the pipe-safe writers, the log set-up, \<open>main\<close> and its exit statuses.
    \<open>Cli_Facts\<close>: what the progress task counts and what the exit status says of a run.
  \<^item> \<open>Supervisors\<close> (\<open>src/pipeline.rs\<close>): the outer tasks that record the failures of the stages, effect by
    effect, interleaved with the end of \<open>run\<close>, which does not wait for them.
  \<^item> \<open>Test_Support\<close> and the theories whose names end in \<open>Tests\<close>: the repository's own tests of pure and
    single-stage code, over the definitions above. A property test is a predicate of what its
    strategies generate and is proved for all of it; the unit tests of a module are a table.
    \<open>Filter_Tests\<close>: the predicates and stages of the filters. \<open>Safety_Tests\<close>: the safety check
    under mock prompt handlers. \<open>Masking_Tests\<close>: the masking and the debug output of credentials;
    two of its tests are not valid for every input. \<open>Type_Tests\<close>: objects, statistics, errors, target URIs.
    \<open>Event_Tests\<close>, \<open>Callback_Tests\<close>: the event manager, callbacks of a library user.
    \<open>Settings_Tests\<close>: the defaults, the display settings, the filter manager.

  \<^bold>\<open>Correspondence.\<close> A struct is a record with a short prefix on its fields, an enum a datatype,
  a Rust function a definition with its name. \<open>Result\<close> and panics are the datatype \<open>outcome\<close>;
  an \<open>expect\<close> or an index out of range is its \<open>Panic\<close>. What several tasks share behind
  atomics, mutexes and channels is the state \<open>'w sys\<close>; \<open>'w\<close> is the outside world. Integers keep their width (\<open>64 word\<close>
  for \<open>u64\<close> and, read with \<open>sint\<close>, \<open>i64\<close>) and wrap as a release build does; \<open>usize\<close> is \<open>nat\<close>; an
  \<open>f64\<close> is its bit pattern with the arithmetic as a parameter. A hash map built from a list is
  \<open>collect_map\<close>, where a later entry replaces an earlier one.

  \<^bold>\<open>Concurrency.\<close> The input of a stage is the list of objects that come through its channel before
  it closes, its output the list of the objects it has sent, to an environment that may also refuse.
  Other tasks may cancel the run at every look at the token: each look asks the environment.
  A \<open>select!\<close> may take its cancellation branch only in a cancelled run, as the environment
  chooses. In \<open>Pipeline\<close> the stages run one after another, and of the workers the first takes
  all the objects: one of the legal schedules. There the sub-prefix tasks of the parallel listing
  likewise run in the order of their spawning, and a stage's error is recorded before the next
  stage runs. \<open>Listing\<close> is about all schedules of these tasks: each step of a task goes from one
  look at the token, request, send or wait to the next, a task waits for a free permit and
  joins its subtasks in the order in which they end, and a task whose parent has returned
  makes no further step. \<open>Workers\<close> is about all schedules of the workers, with arbitrary steps of
  the other tasks in between. \<open>Network\<close> is about all schedules of all stages, with the capacity
  of the channels and the moments at which tasks close them: no schedule lets a deselected
  object reach the workers or stops before the end, and when nobody cancels, each hands the workers
  what the stages hand them one after another. There the filters are their predicates, the lister is
  its list of objects, and what a worker decides about an object is a choice of the schedule.
  \<open>Schedules\<close> puts the three together: the network takes what any schedule of the listing has
  sent, the workers of \<open>Workers\<close> what any schedule of the network has delivered. A receiver that lags
  behind its sender is covered as a run of the sender that was stopped earlier.
  \<open>Supervisors\<close> is about all schedules of the tasks that record the failures, beside the end of \<open>run\<close>.

  \<^bold>\<open>Fuel.\<close> The listings follow the positions a service names, which may never end; they take a bound on the
  number of pages and return \<open>None\<close> beyond it. \<open>list_sequential_complete\<close> and
  \<open>list_with_parallel_complete\<close> show that the number of pages of a finite answer is enough, and the end-to-end
  properties carry it up to the run. Every other loop is structural. A schedule is a finite list of
  steps; \<open>listing_never_stuck\<close> and \<open>network_shuts_down\<close> bound its length.

  The progress task polls until it finds the channel closed; its model takes the list of what the
  polls find, and \<open>indicator_counts_messages\<close> in \<open>Cli_Facts\<close> says when it returns.

  \<^bold>\<open>Properties.\<close> \<open>Types\<close>: parsing, printing, masking. \<open>Events\<close>: what a callback hears and what the
  statistics count. \<open>Filters\<close>: what the predicates split. \<open>Storage\<close>: completeness and termination of the listings.
  \<open>Deleter_Facts\<close>: admissible batches, the fallback, attribute filters, the threshold, accounting,
  dry runs. \<open>Workers\<close>: bounds for every schedule. \<open>Listing_Runs\<close>: every schedule of the
  listing, which ends, cannot deadlock and lists the same objects. \<open>Safety\<close>: the decision
  table. \<open>Pipeline\<close>: whole runs: selection, accounting, refusal, errors. \<open>Network_Facts\<close>,
  \<open>Network_Runs\<close>: every interleaving; \<open>Schedules\<close>: from the listing to the
  deletion in every schedule. \<open>Run_Facts\<close>: the order of
  the events. \<open>Lua\<close>: timeouts. \<open>Args_Facts\<close>: well-formed configurations, the rate limit, the
  target. \<open>Args_Options\<close>: prerequisites, selection and credentials of a command line.
  \<open>Cli_Facts\<close>: exit statuses, progress, Ctrl+C. \<open>Supervisors\<close>: the order in which
  failures become visible, and the exit status when all are recorded. \<open>Filter_Tests\<close>,
  \<open>Masking_Tests\<close>: the property tests, for every input.

  \<^bold>\<open>Not modelled.\<close> Log output (the arguments of tracing macros), sleeping and the refill of the
  rate limiter (the model counts the tokens taken), zeroing of
  secrets. Code outside the repository is a parameter: the parsing of the command line by clap
  with its environment variables (the relations between options it enforces are a condition on its result), the AWS SDK, the Lua interpreter,
  regular expressions, dates, and the number formatting of the progress display. The moments at
  which the progress task and the Ctrl+C handler act relative to the run are arguments of
  \<open>main_run\<close>. Of the tests, those that go through clap, through a mock of the storage trait, the Lua
  interpreter or a network are left out, as are the examples and the build script.
\<close>

end
